(* ===== verification/Go_Prelude.thy ===== *)
theory Go_Prelude
  imports Main "HOL-Library.AList" "HOL-Library.Word" "HOL-Library.Multiset"
begin

section \<open>Shared vocabulary: Go values, Go maps and the effect of a Go statement\<close>

text \<open>
  The theory holds what every component uses and no component owns: the types of Go's machine
  integers, Go maps as association lists, the outcome of a statement that may panic or block, a
  weakest-precondition calculus for such statements, and the sources of nondeterminism of the
  runtime (random draws, the clock, the iteration order of a map).
\<close>

named_theorems wp_rules \<open>weakest-precondition equations of the effectful operations\<close>
named_theorems gomap_simps \<open>laws of Go maps represented as association lists\<close>

subsection \<open>Machine integers and maps\<close>

type_synonym u32 = "32 word"
type_synonym u64 = "64 word"
type_synonym go_int = "64 word"
type_synonym ('k, 'v) gomap = "('k \<times> 'v) list"

text \<open>
  A Go map is an association list whose keys are distinct. Reading is \<^const>\<open>map_of\<close>, writing
  \<^const>\<open>AList.update\<close>, \<^verbatim>\<open>delete\<close> is \<^const>\<open>AList.delete\<close> and \<^verbatim>\<open>len\<close> is
  \<^const>\<open>length\<close>; the list's own order carries no meaning, since every \<^verbatim>\<open>range\<close> loop of the
  model asks the environment for its order.
\<close>

definition wf_map :: "('k, 'v) gomap \<Rightarrow> bool" where
  "wf_map m \<longleftrightarrow> distinct (map fst m)"

definition keys :: "('k, 'v) gomap \<Rightarrow> 'k list" where
  "keys m = map fst m"

lemma wf_map_Nil [simp, intro]: "wf_map []"
  by (simp add: wf_map_def)

lemma wf_map_update [intro, gomap_simps]: "wf_map m \<Longrightarrow> wf_map (AList.update k v m)"
  unfolding wf_map_def by (rule distinct_update)

lemma wf_map_delete [intro, gomap_simps]: "wf_map m \<Longrightarrow> wf_map (AList.delete k m)"
  unfolding wf_map_def by (rule distinct_delete)

lemma map_of_update [simp, gomap_simps]:
  "map_of (AList.update k v m) k' = (if k' = k then Some v else map_of m k')"
  by (simp add: update_conv)

lemma map_of_delete_if [simp, gomap_simps]:
  "map_of (AList.delete k m) k' = (if k' = k then None else map_of m k')"
  by (simp add: delete_conv')

lemma set_keys: "set (keys m) = dom (map_of m)"
  by (simp add: keys_def dom_map_of_conv_image_fst)

lemma keys_update: "set (keys (AList.update k v m)) = insert k (set (keys m))"
  by (simp add: keys_def dom_update)

lemma keys_delete: "set (keys (AList.delete k m)) = set (keys m) - {k}"
  by (simp add: keys_def delete_keys)

lemma in_keys_iff: "k \<in> set (keys m) \<longleftrightarrow> (\<exists>v. map_of m k = Some v)"
  by (auto simp: set_keys)

lemma distinct_keys: "wf_map m \<Longrightarrow> distinct (keys m)"
  by (simp add: wf_map_def keys_def)

lemma wf_map_in_iff: "wf_map m \<Longrightarrow> (k, v) \<in> set m \<longleftrightarrow> map_of m k = Some v"
  by (auto simp: wf_map_def dest: map_of_SomeD)

lemma wf_map_filter: "wf_map m \<Longrightarrow> wf_map (filter P m)"
  by (simp add: wf_map_def distinct_map_filter)

lemma map_of_filter_val:
  "wf_map m \<Longrightarrow> map_of (filter P m) k =
     (case map_of m k of None \<Rightarrow> None | Some v \<Rightarrow> if P (k, v) then Some v else None)"
  by (induction m) (auto simp: wf_map_def map_of_eq_None_iff split: option.splits
      intro!: image_eqI[where f = fst])

lemma length_update_new: "map_of m k = None \<Longrightarrow> length (AList.update k v m) = Suc (length m)"
  by (induction m) auto

lemma length_update_old: "map_of m k \<noteq> None \<Longrightarrow> length (AList.update k v m) = length m"
  by (induction m) auto

lemma length_delete_old:
  "wf_map m \<Longrightarrow> map_of m k \<noteq> None \<Longrightarrow> Suc (length (AList.delete k m)) = length m"
proof (induction m)
  case (Cons p m)
  obtain a b where p: "p = (a, b)" by force
  show ?case
  proof (cases "a = k")
    case True
    with Cons.prems(1) p have "k \<notin> fst ` set m" by (auto simp: wf_map_def)
    with True p show ?thesis by simp
  next
    case False
    with Cons p show ?thesis by (auto simp: wf_map_def)
  qed
qed simp

lemma delete_update_new: "map_of m k = None \<Longrightarrow> AList.delete k (AList.update k v m) = m"
  by (simp add: delete_update_same map_of_eq_None_iff)

lemma delete_Nil_iff: "AList.delete k m = [] \<longleftrightarrow> (\<forall>k'. k' \<noteq> k \<longrightarrow> map_of m k' = None)"
  by (induction m) (auto split: if_splits)


lemma in_map_filter_iff: "y \<in> set (List.map_filter f xs) \<longleftrightarrow> (\<exists>x \<in> set xs. f x = Some y)"
  by (induction xs) (auto simp: List.map_filter_simps split: option.split)

text \<open>Objects the code shares by pointer live in a map from addresses; \<open>fresh\<close> is the next address.\<close>

definition fresh :: "(nat, 'v) gomap \<Rightarrow> nat" where
  "fresh m = foldr (\<lambda>(k, _) n. max (Suc k) n) m 0"

lemma fresh_greater: "k \<in> set (keys m) \<Longrightarrow> k < fresh m"
  by (induction m) (force simp: fresh_def keys_def less_max_iff_disj image_iff)+

lemma fresh_new: "map_of m (fresh m) = None"
  using fresh_greater[of "fresh m" m] in_keys_iff[of "fresh m" m] by fastforce

subsection \<open>First match in a slice\<close>

fun find_idx :: "('a \<Rightarrow> bool) \<Rightarrow> 'a list \<Rightarrow> nat option" where
  "find_idx P [] = None"
| "find_idx P (x # xs) = (if P x then Some 0 else map_option Suc (find_idx P xs))"

fun remove_first :: "('a \<Rightarrow> bool) \<Rightarrow> 'a list \<Rightarrow> 'a list" where
  "remove_first P [] = []"
| "remove_first P (x # xs) = (if P x then xs else x # remove_first P xs)"

lemma find_idx_None: "find_idx P xs = None \<longleftrightarrow> (\<forall>x \<in> set xs. \<not> P x)"
  by (induction xs) auto

lemma find_idx_Some:
  "find_idx P xs = Some i \<Longrightarrow> i < length xs \<and> P (xs ! i) \<and> (\<forall>j < i. \<not> P (xs ! j))"
proof (induction xs arbitrary: i)
  case (Cons x xs)
  show ?case
  proof (cases "P x")
    case False
    with Cons.prems obtain k where k: "find_idx P xs = Some k" "i = Suc k" by auto
    have "\<not> P ((x # xs) ! j)" if "j < i" for j
      using that False k Cons.IH[OF k(1)] by (cases j) auto
    with k Cons.IH[OF k(1)] show ?thesis by auto
  qed (use Cons in auto)
qed simp

lemma find_conv_find_idx: "find P xs = map_option ((!) xs) (find_idx P xs)"
  by (induction xs) (auto simp: option.map_comp comp_def)

lemma remove_first_find_idx:
  "remove_first P xs = (case find_idx P xs of None \<Rightarrow> xs | Some i \<Rightarrow> take i xs @ drop (Suc i) xs)"
  by (induction xs) (auto split: option.split)

lemma set_remove_first_subset: "set (remove_first P xs) \<subseteq> set xs"
  by (induction xs) auto

lemma distinct_map_remove_first: "distinct (map f xs) \<Longrightarrow> distinct (map f (remove_first P xs))"
  by (induction xs) (use set_remove_first_subset in fastforce)+

lemma remove_first_absent: "\<forall>x \<in> set xs. \<not> P x \<Longrightarrow> remove_first P xs = xs"
  by (induction xs) auto

lemma remove_first_append_new:
  "\<forall>x \<in> set xs. \<not> P x \<Longrightarrow> P y \<Longrightarrow> remove_first P (xs @ [y]) = xs"
  by (induction xs) auto

lemma find_remove_first_other:
  "(\<And>x. P x \<Longrightarrow> \<not> Q x) \<Longrightarrow> find Q (remove_first P xs) = find Q xs"
  by (induction xs) auto

lemma find_remove_first_key:
  "i' \<noteq> i \<Longrightarrow> find (\<lambda>x. f x = i') (remove_first (\<lambda>x. f x = i) xs) = find (\<lambda>x. f x = i') xs"
  by (rule find_remove_first_other) auto

lemma find_remove_first_distinct:
  "distinct (map f xs) \<Longrightarrow> find (\<lambda>x. f x = k) (remove_first (\<lambda>x. f x = k) xs) = None"
  by (induction xs) (force simp: find_None_iff image_iff)+

subsection \<open>Slices\<close>

text \<open>
  \<^verbatim>\<open>append(s[:i], s[i+1:]...)\<close> on a slice of length \<open>m\<close> over the backing array \<open>b\<close> shifts the
  elements after \<open>i\<close> one place to the left inside the array and returns a slice one shorter. A
  holder of the original slice header still sees \<open>m\<close> elements, the last of them a second time.
\<close>

definition slice_delete :: "'a list \<Rightarrow> nat \<Rightarrow> nat \<Rightarrow> 'a list" where
  "slice_delete b m i = take i b @ drop (Suc i) (take m b) @ drop (m - 1) b"

lemma length_slice_delete: "i < m \<Longrightarrow> m \<le> length b \<Longrightarrow> length (slice_delete b m i) = length b"
  by (simp add: slice_delete_def)

lemma slice_delete_parts:
  "slice_delete (ys @ z # zs @ ws) (length ys + Suc (length zs)) (length ys)
     = ys @ zs @ last (z # zs) # ws"
proof (cases zs rule: rev_cases)
  case Nil
  then show ?thesis by (simp add: slice_delete_def)
next
  case (snoc us u)
  then show ?thesis by (simp add: slice_delete_def)
qed

lemma slice_delete_append_last:
  assumes "i < length xs"
  shows "slice_delete xs (length xs) i = take i xs @ drop (Suc i) xs @ [last xs]"
proof -
  have "drop (length xs - 1) xs = [last xs]"
    using assms by (cases xs rule: rev_cases) auto
  then show ?thesis by (simp add: slice_delete_def)
qed

subsection \<open>Outcome of a statement\<close>

text \<open>
  A Go statement returns, panics, or blocks its goroutine for good. A panic in a goroutine that
  does not recover ends the process, so no state is kept with it; a blocked goroutine leaves the
  state it had reached, and the rest of the program runs on from there.
\<close>

datatype go_panic =
    NilDeref
  | IndexOutOfRange
  | SendOnClosedChan
  | CloseOfClosedChan
  | PanicWith string

datatype ('a, 's) outcome = Ret 'a 's | Panic go_panic | Stuck 's

type_synonym ('a, 's) go = "'s \<Rightarrow> ('a, 's) outcome"

definition ret :: "'a \<Rightarrow> ('a, 's) go" where
  "ret x s = Ret x s"

definition bnd :: "('a, 's) go \<Rightarrow> ('a \<Rightarrow> ('b, 's) go) \<Rightarrow> ('b, 's) go" where
  "bnd m f s = (case m s of Ret x s' \<Rightarrow> f x s' | Panic e \<Rightarrow> Panic e | Stuck s' \<Rightarrow> Stuck s')"

definition rd :: "('s \<Rightarrow> 'a) \<Rightarrow> ('a, 's) go" where
  "rd f s = Ret (f s) s"

definition wr :: "('s \<Rightarrow> 's) \<Rightarrow> (unit, 's) go" where
  "wr f s = Ret () (f s)"

definition panic :: "go_panic \<Rightarrow> ('a, 's) go" where
  "panic e s = Panic e"

primrec for_each :: "('x \<Rightarrow> (unit, 's) go) \<Rightarrow> 'x list \<Rightarrow> (unit, 's) go" where
  "for_each f [] = ret ()"
| "for_each f (x # xs) = bnd (f x) (\<lambda>_. for_each f xs)"

text \<open>
  \<open>wp m Q F R s\<close>: run from \<open>s\<close>, \<open>m\<close> returns into \<open>Q\<close>, panics only with a reason in \<open>F\<close>, and
  blocks only in a state of \<open>R\<close>.
\<close>

definition wp :: "('a, 's) go \<Rightarrow> ('a \<Rightarrow> 's \<Rightarrow> bool) \<Rightarrow> (go_panic \<Rightarrow> bool) \<Rightarrow> ('s \<Rightarrow> bool) \<Rightarrow> 's \<Rightarrow> bool"
  where "wp m Q F R s = (case m s of Ret x s' \<Rightarrow> Q x s' | Panic e \<Rightarrow> F e | Stuck s' \<Rightarrow> R s')"

lemma wp_ret [simp, wp_rules]: "wp (ret x) Q F R s \<longleftrightarrow> Q x s"
  by (simp add: wp_def ret_def)

lemma wp_bnd [simp, wp_rules]: "wp (bnd m f) Q F R s \<longleftrightarrow> wp m (\<lambda>x. wp (f x) Q F R) F R s"
  by (simp add: wp_def bnd_def split: outcome.split)

lemma wp_rd [simp, wp_rules]: "wp (rd f) Q F R s \<longleftrightarrow> Q (f s) s"
  by (simp add: wp_def rd_def)

lemma wp_wr [simp, wp_rules]: "wp (wr f) Q F R s \<longleftrightarrow> Q () (f s)"
  by (simp add: wp_def wr_def)

lemma wp_panic [simp, wp_rules]: "wp (panic e) Q F R s \<longleftrightarrow> F e"
  by (simp add: wp_def panic_def)

lemma wp_if [wp_rules]:
  "wp (if b then m else n) Q F R s \<longleftrightarrow> (if b then wp m Q F R s else wp n Q F R s)"
  by simp

lemma wp_case_option [wp_rules]:
  "wp (case x of None \<Rightarrow> m | Some y \<Rightarrow> n y) Q F R s \<longleftrightarrow>
     (case x of None \<Rightarrow> wp m Q F R s | Some y \<Rightarrow> wp (n y) Q F R s)"
  by (simp split: option.split)

lemma wp_case_sum [wp_rules]:
  "wp (case x of Inl e \<Rightarrow> m e | Inr y \<Rightarrow> n y) Q F R s \<longleftrightarrow>
     (case x of Inl e \<Rightarrow> wp (m e) Q F R s | Inr y \<Rightarrow> wp (n y) Q F R s)"
  by (simp split: sum.split)

lemma wp_mono:
  assumes "wp m Q F R s"
    and "\<And>x s'. Q x s' \<Longrightarrow> Q' x s'" and "\<And>e. F e \<Longrightarrow> F' e" and "\<And>s'. R s' \<Longrightarrow> R' s'"
  shows "wp m Q' F' R' s"
  using assms by (simp add: wp_def split: outcome.splits)

lemma wp_conj:
  "wp m Q F R s \<Longrightarrow> wp m Q' F' R' s \<Longrightarrow>
     wp m (\<lambda>x t. Q x t \<and> Q' x t) (\<lambda>e. F e \<and> F' e) (\<lambda>t. R t \<and> R' t) s"
  by (simp add: wp_def split: outcome.splits)

lemma wp_True [simp]: "wp m (\<lambda>_ _. True) (\<lambda>_. True) (\<lambda>_. True) s"
  by (simp add: wp_def split: outcome.split)

lemma wpD_Ret: "wp m Q F R s \<Longrightarrow> m s = Ret x s' \<Longrightarrow> Q x s'"
  by (simp add: wp_def)

lemma wpD_Stuck: "wp m Q F R s \<Longrightarrow> m s = Stuck s' \<Longrightarrow> R s'"
  by (simp add: wp_def)

lemma wpD_Panic: "wp m Q F R s \<Longrightarrow> m s = Panic e \<Longrightarrow> F e"
  by (simp add: wp_def)

lemma wp_total:
  "wp m Q (\<lambda>_. False) (\<lambda>_. False) s \<longleftrightarrow> (\<exists>x s'. m s = Ret x s' \<and> Q x s')"
  by (simp add: wp_def split: outcome.split)

lemma wp_for_each:
  assumes "I s"
    and "\<And>x s. x \<in> set xs \<Longrightarrow> I s \<Longrightarrow> wp (f x) (\<lambda>_. I) F R s"
  shows "wp (for_each f xs) (\<lambda>_. I) F R s"
  using assms
proof (induction xs arbitrary: s)
  case (Cons x xs)
  have "wp (f x) (\<lambda>_. I) F R s" using Cons.prems by simp
  then have "wp (f x) (\<lambda>_. wp (for_each f xs) (\<lambda>_. I) F R) F R s"
    by (rule wp_mono) (use Cons in auto)
  then show ?case by simp
qed simp

text \<open>A loop rule whose invariant may name the part of the list already visited.\<close>

lemma wp_for_each_prefix:
  assumes "I [] s"
    and "\<And>ys x zs s. xs = ys @ x # zs \<Longrightarrow> I ys s \<Longrightarrow> wp (f x) (\<lambda>_. I (ys @ [x])) F R s"
  shows "wp (for_each f xs) (\<lambda>_. I xs) F R s"
proof -
  have "wp (for_each f zs) (\<lambda>_. I (ys @ zs)) F R s"
    if "xs = ys @ zs" and "I ys s" for ys zs s
    using that
  proof (induction zs arbitrary: ys s)
    case (Cons x zs)
    have "wp (f x) (\<lambda>_. I (ys @ [x])) F R s"
      using assms(2) Cons.prems by blast
    then have "wp (f x) (\<lambda>_. wp (for_each f zs) (\<lambda>_. I (ys @ x # zs)) F R) F R s"
      by (rule wp_mono) (use Cons.IH[of "ys @ [_]"] Cons.prems(1) in auto)
    then show ?case by simp
  qed simp
  from this[of "[]" xs] assms(1) show ?thesis by simp
qed

text \<open>Frames: \<open>keeps f m\<close> says that the statement \<open>m\<close> leaves the part \<open>f\<close> of the state alone.\<close>

definition keeps :: "('s \<Rightarrow> 'p) \<Rightarrow> ('a, 's) go \<Rightarrow> bool" where
  "keeps f m \<longleftrightarrow> (\<forall>s. wp m (\<lambda>_ t. f t = f s) (\<lambda>_. True) (\<lambda>t. f t = f s) s)"

named_theorems keeps_intros \<open>introduction rules of frames\<close>

lemma keepsI: "(\<And>s. wp m (\<lambda>_ t. f t = f s) (\<lambda>_. True) (\<lambda>t. f t = f s) s) \<Longrightarrow> keeps f m"
  by (simp add: keeps_def)

lemma keepsD_Ret: "keeps f m \<Longrightarrow> m s = Ret x t \<Longrightarrow> f t = f s"
  unfolding keeps_def by (drule spec[of _ s]) (simp add: wp_def)

lemma keeps_bnd [keeps_intros]:
  assumes "keeps f m" and "\<And>x. keeps f (g x)"
  shows "keeps f (bnd m g)"
proof (rule keepsI)
  fix s
  have "wp m (\<lambda>x t. f t = f s) (\<lambda>_. True) (\<lambda>t. f t = f s) s" using assms(1) by (simp add: keeps_def)
  then have "wp m (\<lambda>x. wp (g x) (\<lambda>_ t. f t = f s) (\<lambda>_. True) (\<lambda>t. f t = f s)) (\<lambda>_. True) (\<lambda>t. f t = f s) s"
  proof (rule wp_mono)
    fix x t assume "f t = f s"
    moreover have "wp (g x) (\<lambda>_ u. f u = f t) (\<lambda>_. True) (\<lambda>u. f u = f t) t" using assms(2) by (simp add: keeps_def)
    ultimately show "wp (g x) (\<lambda>_ t. f t = f s) (\<lambda>_. True) (\<lambda>t. f t = f s) t" by simp
  qed simp_all
  then show "wp (bnd m g) (\<lambda>_ t. f t = f s) (\<lambda>_. True) (\<lambda>t. f t = f s) s" by simp
qed

lemma keeps_ret [keeps_intros]: "keeps f (ret x)"
  by (simp add: keeps_def)

lemma keeps_rd [keeps_intros]: "keeps f (rd g)"
  by (simp add: keeps_def)

lemma keeps_panic [keeps_intros]: "keeps f (panic e)"
  by (simp add: keeps_def)

lemma keeps_wr [keeps_intros]: "(\<And>s. f (g s) = f s) \<Longrightarrow> keeps f (wr g)"
  by (simp add: keeps_def)

lemma keeps_if [keeps_intros]: "keeps f m \<Longrightarrow> keeps f n \<Longrightarrow> keeps f (if b then m else n)"
  by simp

lemma keeps_case_option [keeps_intros]:
  "keeps f m \<Longrightarrow> (\<And>y. keeps f (n y)) \<Longrightarrow> keeps f (case x of None \<Rightarrow> m | Some y \<Rightarrow> n y)"
  by (simp split: option.split)

lemma keeps_case_sum [keeps_intros]:
  "(\<And>e. keeps f (m e)) \<Longrightarrow> (\<And>y. keeps f (n y)) \<Longrightarrow> keeps f (case x of Inl e \<Rightarrow> m e | Inr y \<Rightarrow> n y)"
  by (simp split: sum.split)

lemma keeps_case_prod [keeps_intros]:
  "(\<And>a b. keeps f (m a b)) \<Longrightarrow> keeps f (case x of (a, b) \<Rightarrow> m a b)"
  by (simp split: prod.split)

lemma keeps_case_list [keeps_intros]:
  "keeps f m \<Longrightarrow> (\<And>y ys. keeps f (n y ys)) \<Longrightarrow> keeps f (case x of [] \<Rightarrow> m | y # ys \<Rightarrow> n y ys)"
  by (simp split: list.split)

lemma keeps_for_each [keeps_intros]: "(\<And>x. keeps f (g x)) \<Longrightarrow> keeps f (for_each g xs)"
  by (induction xs) (simp_all add: keeps_ret keeps_bnd)

lemma keeps_for_each_set: "(\<And>x. x \<in> set xs \<Longrightarrow> keeps f (g x)) \<Longrightarrow> keeps f (for_each g xs)"
  by (induction xs) (simp_all add: keeps_ret keeps_bnd)

lemma wp_keeps:
  assumes "wp m Q F R s" and "keeps f m"
  shows "wp m (\<lambda>x t. Q x t \<and> f t = f s) F (\<lambda>t. R t \<and> f t = f s) s"
  using wp_conj[OF assms(1), of "\<lambda>_ t. f t = f s" "\<lambda>_. True" "\<lambda>t. f t = f s"] assms(2) by (simp add: keeps_def)

lemma ret_apply: "ret x s = Ret x s" by (rule ret_def)
lemma rd_apply: "rd f s = Ret (f s) s" by (rule rd_def)
lemma wr_apply: "wr f s = Ret () (f s)" by (rule wr_def)
lemma panic_apply: "panic e s = Panic e" by (rule panic_def)

lemma bnd_Ret: "m s = Ret x s' \<Longrightarrow> bnd m f s = f x s'"
  by (simp add: bnd_def)

lemmas go_eval = bnd_def ret_apply rd_apply wr_apply panic_apply

lemma bnd_assoc: "bnd (bnd m f) g = bnd m (\<lambda>x. bnd (f x) g)"
  by (simp add: fun_eq_iff bnd_def split: outcome.split)

lemma bnd_ret_left: "bnd (ret x) f = f x"
  by (simp add: fun_eq_iff bnd_def ret_apply)

lemma bnd_if: "bnd (if b then m else n) f = (if b then bnd m f else bnd n f)"
  by simp

lemma bnd_case_option: "bnd (case x of None \<Rightarrow> m | Some y \<Rightarrow> n y) f = (case x of None \<Rightarrow> bnd m f | Some y \<Rightarrow> bnd (n y) f)"
  by (simp split: option.split)

lemmas bnd_laws = bnd_assoc bnd_ret_left bnd_if bnd_case_option

subsection \<open>The runtime's choices\<close>

text \<open>
  What the runtime decides is a stream of answers inside the state: the raw values of
  \<^verbatim>\<open>math/rand\<close>, the readings of the clock in nanoseconds, and for each \<^verbatim>\<open>range\<close> over a map the
  order of its keys. Every other component's state extends this record.
\<close>

record env_state =
  rnd :: "nat \<Rightarrow> nat"
  clock :: "nat \<Rightarrow> int"
  order :: "nat \<Rightarrow> string list \<Rightarrow> string list"

definition draw :: "(nat, 'z env_state_scheme) go" where
  "draw s = Ret (rnd s 0) (s\<lparr>rnd := \<lambda>i. rnd s (Suc i)\<rparr>)"

definition time_Now :: "(int, 'z env_state_scheme) go" where
  "time_Now s = Ret (clock s 0) (s\<lparr>clock := \<lambda>i. clock s (Suc i)\<rparr>)"

text \<open>\<^verbatim>\<open>range\<close> over a map visits every key once, in an order the runtime picks.\<close>

definition range_keys :: "string list \<Rightarrow> (string list, 'z env_state_scheme) go" where
  "range_keys ks s = Ret (order s 0 ks) (s\<lparr>order := \<lambda>i. order s (Suc i)\<rparr>)"

definition order_ok :: "'z env_state_scheme \<Rightarrow> bool" where
  "order_ok s \<longleftrightarrow> (\<forall>i ks. mset (order s i ks) = mset ks)"

lemma wp_draw [simp, wp_rules]:
  "wp draw Q F R s \<longleftrightarrow> Q (rnd s 0) (s\<lparr>rnd := \<lambda>i. rnd s (Suc i)\<rparr>)"
  by (simp add: wp_def draw_def)

lemma wp_time_Now [simp, wp_rules]:
  "wp time_Now Q F R s \<longleftrightarrow> Q (clock s 0) (s\<lparr>clock := \<lambda>i. clock s (Suc i)\<rparr>)"
  by (simp add: wp_def time_Now_def)

lemma wp_range_keys [simp, wp_rules]:
  "wp (range_keys ks) Q F R s \<longleftrightarrow> Q (order s 0 ks) (s\<lparr>order := \<lambda>i. order s (Suc i)\<rparr>)"
  by (simp add: wp_def range_keys_def)

lemma keeps_draw [keeps_intros]: "(\<And>s r. f (s\<lparr>rnd := r\<rparr>) = f s) \<Longrightarrow> keeps f draw"
  by (simp add: keeps_def)

lemma keeps_time_Now [keeps_intros]: "(\<And>s c. f (s\<lparr>clock := c\<rparr>) = f s) \<Longrightarrow> keeps f time_Now"
  by (simp add: keeps_def)

lemma keeps_range_keys [keeps_intros]: "(\<And>s c. f (s\<lparr>order := c\<rparr>) = f s) \<Longrightarrow> keeps f (range_keys ks)"
  by (simp add: keeps_def)

lemma order_okD: "order_ok s \<Longrightarrow> mset (order s i ks) = mset ks"
  by (simp add: order_ok_def)

lemma order_ok_set: "order_ok s \<Longrightarrow> set (order s i ks) = set ks"
  by (metis order_okD set_mset_mset)

lemma order_ok_distinct: "order_ok s \<Longrightarrow> distinct (order s i ks) = distinct ks"
  by (metis order_okD mset_eq_imp_distinct_iff)

lemma order_ok_shift [simp]:
  "order_ok s \<Longrightarrow> order_ok (s\<lparr>order := \<lambda>i. order s (Suc i)\<rparr>)"
  by (simp add: order_ok_def)

lemma order_ok_rnd [simp]: "order_ok (s\<lparr>rnd := f\<rparr>) = order_ok s"
  by (simp add: order_ok_def)

lemma order_ok_clock [simp]: "order_ok (s\<lparr>clock := f\<rparr>) = order_ok s"
  by (simp add: order_ok_def)

subsection \<open>Interfaces shared by the components\<close>

text \<open>The interface of a map: what a lookup returns after a store and after a deletion.\<close>

locale map_interface =
  fixes lookup :: "'m \<Rightarrow> 'k \<Rightarrow> 'v option"
    and store :: "'k \<Rightarrow> 'v \<Rightarrow> 'm \<Rightarrow> 'm"
    and erase :: "'k \<Rightarrow> 'm \<Rightarrow> 'm"
    and size_of :: "'m \<Rightarrow> nat"
    and invar :: "'m \<Rightarrow> bool"
  assumes lookup_store: "lookup (store k v m) k' = (if k' = k then Some v else lookup m k')"
    and lookup_erase: "lookup (erase k m) k' = (if k' = k then None else lookup m k')"
    and invar_store: "invar m \<Longrightarrow> invar (store k v m)"
    and invar_erase: "invar m \<Longrightarrow> invar (erase k m)"
    and size_store: "size_of (store k v m) = (if lookup m k = None then Suc (size_of m) else size_of m)"
    and size_erase: "invar m \<Longrightarrow> lookup m k \<noteq> None \<Longrightarrow> Suc (size_of (erase k m)) = size_of m"
begin

lemma lookup_erase_store: "lookup m k = None \<Longrightarrow> lookup (erase k (store k v m)) = lookup m"
  by (auto simp: lookup_store lookup_erase)

lemma size_erase_store:
  "invar m \<Longrightarrow> lookup m k = None \<Longrightarrow> size_of (erase k (store k v m)) = size_of m"
  using size_erase[of "store k v m" k] by (simp add: invar_store lookup_store size_store)

lemma all_store: "(\<forall>k v. lookup m k = Some v \<longrightarrow> P k v) \<Longrightarrow> P k v \<Longrightarrow>
    \<forall>k' v'. lookup (store k v m) k' = Some v' \<longrightarrow> P k' v'"
  by (simp add: lookup_store)

lemma all_erase: "(\<forall>k v. lookup m k = Some v \<longrightarrow> P k v) \<Longrightarrow>
    \<forall>k' v'. lookup (erase k m) k' = Some v' \<longrightarrow> P k' v'"
  by (simp add: lookup_erase)

end

interpretation gm: map_interface map_of AList.update AList.delete length wf_map
  by unfold_locales (auto simp: length_update_new length_update_old length_delete_old)

text \<open>The states a transition system reaches, and invariants of such a system.\<close>

inductive reach :: "('s \<Rightarrow> bool) \<Rightarrow> ('s \<Rightarrow> 's \<Rightarrow> bool) \<Rightarrow> 's \<Rightarrow> bool" for init step where
  reach_init: "init s \<Longrightarrow> reach init step s"
| reach_step: "reach init step s \<Longrightarrow> step s t \<Longrightarrow> reach init step t"

lemma reach_rtranclp: "step\<^sup>*\<^sup>* s t \<Longrightarrow> reach init step s \<Longrightarrow> reach init step t"
  by (induction rule: rtranclp_induct) (auto intro: reach_step)

locale invariant_system =
  fixes init :: "'s \<Rightarrow> bool"
    and step :: "'s \<Rightarrow> 's \<Rightarrow> bool"
    and invar :: "'s \<Rightarrow> bool"
  assumes init_invar: "init s \<Longrightarrow> invar s"
    and step_invar: "step s t \<Longrightarrow> invar s \<Longrightarrow> invar t"
begin

lemma reach_invar: "reach init step s \<Longrightarrow> invar s"
  by (induction rule: reach.induct) (auto intro: init_invar step_invar)

lemma reach_step_invar: "reach init step s \<Longrightarrow> step s t \<Longrightarrow> invar s \<and> invar t"
  by (blast intro: reach_invar step_invar)

end

text \<open>
  A choice of a best element of a list: what a client of a selection loop relies on, and what
  follows from it whatever order the list is in.
\<close>

locale best_choice =
  fixes pick :: "'w list \<Rightarrow> 'w option"
    and score :: "'w \<Rightarrow> int"
  assumes pick_None: "pick ws = None \<longleftrightarrow> ws = []"
    and pick_mem: "pick ws = Some w \<Longrightarrow> w \<in> set ws"
    and pick_max: "pick ws = Some w \<Longrightarrow> v \<in> set ws \<Longrightarrow> score v \<le> score w"
begin

lemma pick_score: "pick ws = Some w \<Longrightarrow> score w = Max (score ` set ws)"
  using pick_mem pick_max by (intro Max_eqI[symmetric]) auto

lemma pick_order_independent:
  assumes "set ws = set vs"
  shows "map_option score (pick ws) = map_option score (pick vs)"
proof (cases "pick ws")
  case None
  then have "pick vs = None" using assms pick_None by (metis set_empty)
  with None show ?thesis by simp
next
  case (Some w)
  then have "ws \<noteq> []" by (metis pick_None option.distinct(1))
  then have "vs \<noteq> []" using assms by (metis set_empty)
  then obtain v where "pick vs = Some v" by (metis pick_None not_None_eq)
  with Some pick_score assms show ?thesis by simp
qed

end

end
