(* ===== verification/Util.thy ===== *)
theory Util
  imports Go_Prelude
begin

section \<open>Strings, random identifiers and addresses (util.go)\<close>

text \<open>
  Decimal printing and parsing as \<^verbatim>\<open>strconv\<close>, \<^verbatim>\<open>fmt\<close> and \<^verbatim>\<open>net\<close> do them,
  \<^verbatim>\<open>strings.Contains\<close>, and the helpers of \<^verbatim>\<open>util.go\<close>: random identifiers, the conversion of an
  IPv4 address between a number and its dotted form, and the choice of the host's own address.
\<close>

subsection \<open>Library functions on strings\<close>

fun has_prefix :: "string \<Rightarrow> string \<Rightarrow> bool" where
  "has_prefix [] s = True"
| "has_prefix (c # cs) [] = False"
| "has_prefix (c # cs) (d # ds) = (c = d \<and> has_prefix cs ds)"

fun contains :: "string \<Rightarrow> string \<Rightarrow> bool" where
  "contains [] sub = (sub = [])"
| "contains (c # cs) sub = (has_prefix sub (c # cs) \<or> contains cs sub)"

definition digit_char :: "nat \<Rightarrow> char" where
  "digit_char d = char_of (48 + d)"

fun dec_nat :: "nat \<Rightarrow> string" where
  "dec_nat n = (if n < 10 then [digit_char n] else dec_nat (n div 10) @ [digit_char (n mod 10)])"

declare dec_nat.simps [simp del]

definition itoa :: "int \<Rightarrow> string" where
  "itoa i = (if i < 0 then ''-'' @ dec_nat (nat (- i)) else dec_nat (nat i))"

definition digit_val :: "char \<Rightarrow> nat option" where
  "digit_val c = (let k = of_char c in if (48::nat) \<le> k \<and> k \<le> 57 then Some (k - 48) else None)"

lemma has_prefix_iff: "has_prefix p s \<longleftrightarrow> (\<exists>t. s = p @ t)"
  by (induction p s rule: has_prefix.induct) auto

lemma contains_iff: "contains s sub \<longleftrightarrow> (\<exists>a b. s = a @ sub @ b)"
proof (induction s sub rule: contains.induct)
  case (2 c cs sub)
  show ?case
  proof
    assume "contains (c # cs) sub"
    then consider "has_prefix sub (c # cs)" | "contains cs sub" by auto
    then show "\<exists>a b. c # cs = a @ sub @ b"
    proof cases
      case 1
      then show ?thesis by (metis append_Nil has_prefix_iff)
    next
      case 2
      then obtain a b where "cs = a @ sub @ b" using "2.IH" by blast
      then have "c # cs = (c # a) @ sub @ b" by simp
      then show ?thesis by blast
    qed
  next
    assume "\<exists>a b. c # cs = a @ sub @ b"
    then obtain a b where e: "c # cs = a @ sub @ b" by blast
    show "contains (c # cs) sub"
    proof (cases a)
      case Nil
      with e have "has_prefix sub (c # cs)" by (simp add: has_prefix_iff)
      then show ?thesis by simp
    next
      case (Cons x a')
      with e have "cs = a' @ sub @ b" by simp
      then have "contains cs sub" using "2.IH" by blast
      then show ?thesis by simp
    qed
  qed
qed auto

lemma digit_val_digit_char: "d < 10 \<Longrightarrow> digit_val (digit_char d) = Some d"
  by (simp add: digit_val_def digit_char_def)

subsection \<open>Random identifiers\<close>

definition letters :: string where
  "letters = ''0123456789abcdefghijklmnopqrstuvwxyzABCDEFGHIJKLMNOPQRSTUVWXYZ''"

definition rand_Intn :: "nat \<Rightarrow> (nat, 'z env_state_scheme) go" where
  "rand_Intn n = bnd draw (\<lambda>x. ret (x mod n))"

primrec RandString :: "nat \<Rightarrow> (string, 'z env_state_scheme) go" where
  "RandString 0 = ret []"
| "RandString (Suc n) =
     bnd (rand_Intn (length letters)) (\<lambda>i.
     bnd (RandString n) (\<lambda>b.
     ret (letters ! i # b)))"

definition rand_string_of :: "(nat \<Rightarrow> nat) \<Rightarrow> nat \<Rightarrow> string" where
  "rand_string_of f n = map (\<lambda>i. letters ! (f i mod length letters)) [0..<n]"

lemma length_letters: "length letters = 62"
  by (simp add: letters_def)

lemma rand_string_of_Suc:
  "rand_string_of f (Suc n) = letters ! (f 0 mod length letters) # rand_string_of (\<lambda>i. f (Suc i)) n"
  unfolding rand_string_of_def by (simp add: map_upt_Suc del: upt_Suc)

text \<open>The loop of \<^verbatim>\<open>RandString\<close> consumes exactly \<open>n\<close> draws and never fails.\<close>

lemma RandString_eq:
  "RandString n s = Ret (rand_string_of (rnd s) n) (s\<lparr>rnd := \<lambda>i. rnd s (i + n)\<rparr>)"
proof (induction n arbitrary: s)
  case 0
  show ?case by (simp add: ret_def rand_string_of_def)
next
  case (Suc n)
  show ?case
    by (simp add: go_eval rand_Intn_def draw_def Suc.IH rand_string_of_Suc)
qed

lemma wp_RandString [simp, wp_rules]:
  "wp (RandString n) Q F R s \<longleftrightarrow>
     Q (rand_string_of (rnd s) n) (s\<lparr>rnd := \<lambda>i. rnd s (i + n)\<rparr>)"
  by (simp add: wp_def RandString_eq)

lemma length_rand_string_of [simp]: "length (rand_string_of f n) = n"
  by (simp add: rand_string_of_def)

lemma set_rand_string_of: "set (rand_string_of f n) \<subseteq> set letters"
  by (auto simp: rand_string_of_def length_letters)

subsection \<open>IPv4 addresses\<close>

definition byte_at :: "u64 \<Rightarrow> nat \<Rightarrow> 8 word" where
  "byte_at ip k = ucast (signed_drop_bit k ip)"

definition InetNtoA :: "u64 \<Rightarrow> string" where
  "InetNtoA ip = dec_nat (unat (byte_at ip 24)) @ ''.'' @ dec_nat (unat (byte_at ip 16)) @ ''.''
     @ dec_nat (unat (byte_at ip 8)) @ ''.'' @ dec_nat (unat (byte_at ip 0))"

text \<open>
  \<^verbatim>\<open>net.ParseIP\<close> on a dotted string: four decimal fields of at most three digits, no leading
  zero, each below 256.
\<close>

fun parse_field :: "nat \<Rightarrow> nat \<Rightarrow> string \<Rightarrow> (nat \<times> string) option" where
  "parse_field n len [] = (if len = 0 then None else Some (n, []))"
| "parse_field n len (c # cs) =
     (case digit_val c of
        None \<Rightarrow> (if len = 0 then None else Some (n, c # cs))
      | Some d \<Rightarrow>
          if len \<noteq> 0 \<and> n = 0 then None
          else if 255 < 10 * n + d then None
          else parse_field (10 * n + d) (Suc len) cs)"

definition expect_dot :: "string \<Rightarrow> string option" where
  "expect_dot s = (case s of c # cs \<Rightarrow> if c = CHR ''.'' then Some cs else None | [] \<Rightarrow> None)"

definition parseIPv4 :: "string \<Rightarrow> (8 word) list option" where
  "parseIPv4 s =
     Option.bind (parse_field 0 0 s) (\<lambda>(a, s1).
     Option.bind (expect_dot s1) (\<lambda>s2.
     Option.bind (parse_field 0 0 s2) (\<lambda>(b, s3).
     Option.bind (expect_dot s3) (\<lambda>s4.
     Option.bind (parse_field 0 0 s4) (\<lambda>(c, s5).
     Option.bind (expect_dot s5) (\<lambda>s6.
     Option.bind (parse_field 0 0 s6) (\<lambda>(d, s7).
     if s7 = [] then Some [of_nat a, of_nat b, of_nat c, of_nat d] else None)))))))"

text \<open>
  \<^verbatim>\<open>ParseIP\<close> takes the IPv4 parser when the first of \<^verbatim>\<open>.\<close> and \<^verbatim>\<open>:\<close> in the string is a dot; a string
  with a colon first goes to \<open>v6to4\<close>, the IPv6 parser followed by \<^verbatim>\<open>To4\<close>.
\<close>

fun first_sep :: "string \<Rightarrow> char option" where
  "first_sep [] = None"
| "first_sep (c # cs) = (if c = CHR ''.'' \<or> c = CHR '':'' then Some c else first_sep cs)"

definition parse_to4 :: "(string \<Rightarrow> (8 word) list option) \<Rightarrow> string \<Rightarrow> (8 word) list option" where
  "parse_to4 v6to4 s =
     (case first_sep s of
        None \<Rightarrow> None
      | Some c \<Rightarrow> if c = CHR ''.'' then parseIPv4 s else v6to4 s)"

definition be_value :: "(8 word) list \<Rightarrow> int" where
  "be_value bs = foldl (\<lambda>acc b. acc * 256 + uint b) 0 bs"

definition InetAtoN :: "(string \<Rightarrow> (8 word) list option) \<Rightarrow> string \<Rightarrow> u64" where
  "InetAtoN v6to4 ip =
     word_of_int (be_value (case parse_to4 v6to4 ip of None \<Rightarrow> [] | Some bs \<Rightarrow> bs))"


definition no_digit_next :: "string \<Rightarrow> bool" where
  "no_digit_next s = (case s of [] \<Rightarrow> True | c # cs \<Rightarrow> digit_val c = None)"

lemma parse_field_done:
  "no_digit_next r \<Longrightarrow> len \<noteq> 0 \<Longrightarrow> parse_field n len r = Some (n, r)"
  by (cases r) (auto simp: no_digit_next_def)

lemma dec_nat_one: "n < 10 \<Longrightarrow> dec_nat n = [digit_char n]"
  by (simp add: dec_nat.simps[of n])

lemma dec_nat_more: "10 \<le> n \<Longrightarrow> dec_nat n = dec_nat (n div 10) @ [digit_char (n mod 10)]"
  by (simp add: dec_nat.simps[of n])

lemma dec_nat_two:
  "10 \<le> n \<Longrightarrow> n < 100 \<Longrightarrow> dec_nat n = [digit_char (n div 10), digit_char (n mod 10)]"
  using dec_nat_one[of "n div 10"] by (simp add: dec_nat_more)

lemma dec_nat_three:
  assumes "100 \<le> n" and "n < 1000"
  shows "dec_nat n = [digit_char (n div 100), digit_char (n div 10 mod 10), digit_char (n mod 10)]"
proof -
  have "10 \<le> n div 10" and "n div 10 < 100" and "n div 10 div 10 = n div 100"
    using assms by (simp_all add: div_mult2_eq[symmetric])
  with assms dec_nat_two[of "n div 10"] show ?thesis by (simp add: dec_nat_more[of n])
qed

lemmas dec_nat_small = dec_nat_one dec_nat_two dec_nat_three

lemma parse_field_dec_nat:
  assumes "k < 256" and r: "no_digit_next r"
  shows "parse_field 0 0 (dec_nat k @ r) = Some (k, r)"
proof -
  consider "k < 10" | "10 \<le> k" "k < 100" | "100 \<le> k" "k < 1000"
    using assms(1) by linarith
  then show ?thesis
  proof cases
    case 1
    then show ?thesis
      by (simp add: dec_nat_small digit_val_digit_char parse_field_done[OF r])
  next
    case 2
    moreover have "10 * (k div 10) + k mod 10 = k" by simp
    moreover have "0 < k div 10" and "k div 10 < 10" using 2 by linarith+
    ultimately show ?thesis using assms(1)
      by (simp add: dec_nat_small digit_val_digit_char parse_field_done[OF r])
  next
    case 3
    have "k div 100 < 10" and "0 < k div 100" and "0 < k div 10" using 3 by linarith+
    moreover have "10 * (k div 100) + k div 10 mod 10 = k div 10"
      using div_mult2_eq[of k 10 10] by simp
    moreover have "10 * (k div 10) + k mod 10 = k" by simp
    moreover have "k div 10 \<le> 25" using assms(1) by simp
    ultimately show ?thesis using assms(1) 3
      by (simp add: dec_nat_small digit_val_digit_char parse_field_done[OF r])
  qed
qed

lemma no_digit_next_dot [simp]: "no_digit_next (CHR ''.'' # s)" "no_digit_next []"
  by (simp_all add: no_digit_next_def digit_val_def)

lemma unat_byte_less: "unat (b :: 8 word) < 256"
proof -
  have "unat b < 2 ^ LENGTH(8)" by (rule unsigned_less)
  then show ?thesis by simp
qed

lemma parseIPv4_dotted:
  "parseIPv4 (dec_nat (unat (a :: 8 word)) @ ''.'' @ dec_nat (unat (b :: 8 word)) @ ''.''
     @ dec_nat (unat (c :: 8 word)) @ ''.'' @ dec_nat (unat (d :: 8 word))) = Some [a, b, c, d]"
  using parse_field_dec_nat[OF unat_byte_less[of d], of "[]"]
  by (simp add: parseIPv4_def parse_field_dec_nat unat_byte_less expect_dot_def)

lemma first_sep_digits:
  "\<forall>c \<in> set p. digit_val c \<noteq> None \<Longrightarrow> first_sep (p @ CHR ''.'' # s) = Some (CHR ''.'')"
  by (induction p) (auto simp: digit_val_def)

lemma dec_nat_digits: "\<forall>c \<in> set (dec_nat n). digit_val c \<noteq> None"
proof (induction n rule: dec_nat.induct)
  case (1 n)
  then show ?case
    by (subst dec_nat.simps) (auto simp: digit_val_digit_char)
qed

lemma first_sep_InetNtoA: "first_sep (InetNtoA ip) = Some (CHR ''.'')"
  unfolding InetNtoA_def using first_sep_digits[OF dec_nat_digits] by simp

lemma uint_byte_at:
  assumes "k \<le> 24"
  shows "uint (byte_at ip k) = uint ip div 2 ^ k mod 256"
proof -
  have "uint (byte_at ip k) = take_bit 8 (drop_bit k (uint ip))"
    using assms by (intro bit_eqI) (auto simp: byte_at_def bit_simps)
  then show ?thesis by (simp add: take_bit_eq_mod drop_bit_eq_div)
qed

lemma be_bytes_mod:
  "((x div 2 ^ 24 mod 256 * 256 + x div 2 ^ 16 mod 256) * 256 + x div 2 ^ 8 mod 256) * 256 + x mod 256
    = (x :: int) mod 2 ^ 32"
proof -
  have split: "y mod (256 * m) = y div 256 mod m * 256 + y mod 256" if "0 \<le> m" for y m :: int
    using that by (simp add: zmod_zmult2_eq)
  have "x mod 2 ^ 32 = x div 256 mod (256 * (256 * 256)) * 256 + x mod 256"
    using split[of "256 * (256 * 256)" x] by simp
  also have "x div 256 mod (256 * (256 * 256))
      = x div 256 div 256 mod (256 * 256) * 256 + x div 256 mod 256"
    by (rule split) simp
  also have "x div 256 div 256 mod (256 * 256)
      = x div 256 div 256 div 256 mod 256 * 256 + x div 256 div 256 mod 256"
    by (rule split) simp
  finally have "x mod 2 ^ 32 = ((x div 256 div 256 div 256 mod 256 * 256 + x div 256 div 256 mod 256)
      * 256 + x div 256 mod 256) * 256 + x mod 256" .
  moreover have "x div 256 div 256 = x div 2 ^ 16" and "x div 256 div 256 div 256 = x div 2 ^ 24"
    and "x div 256 = x div 2 ^ 8"
    using zdiv_zmult2_eq[of 256 x 256] zdiv_zmult2_eq[of 256 "x" 65536] zdiv_zmult2_eq[of 256 "x div 256" 256]
    by simp_all
  ultimately show ?thesis by (simp only:)
qed

text \<open>C36. The dotted form of a number reads back as the number's low 32 bits, so the two address
  conversions are inverse on IPv4 addresses.\<close>

theorem InetAtoN_InetNtoA: "InetAtoN v6to4 (InetNtoA ip) = take_bit 32 ip"
proof -
  have "parse_to4 v6to4 (InetNtoA ip) =
      Some [byte_at ip 24, byte_at ip 16, byte_at ip 8, byte_at ip 0]"
    unfolding parse_to4_def first_sep_InetNtoA using parseIPv4_dotted by (simp add: InetNtoA_def)
  moreover have "be_value [byte_at ip 24, byte_at ip 16, byte_at ip 8, byte_at ip 0]
      = uint ip mod 2 ^ 32"
    unfolding be_value_def by (simp add: uint_byte_at be_bytes_mod[simplified])
  ultimately have "uint (InetAtoN v6to4 (InetNtoA ip)) = uint ip mod 2 ^ 32"
    by (simp add: InetAtoN_def uint_word_of_int)
  then have "uint (InetAtoN v6to4 (InetNtoA ip)) = uint (take_bit 32 ip)"
    by (simp only: unsigned_take_bit_eq take_bit_eq_mod[of 32 "uint ip"])
  then show ?thesis by (simp only: word_uint_eq_iff)
qed

subsection \<open>The host's own address\<close>

text \<open>
  An interface address is a network (\<^verbatim>\<open>*net.IPNet\<close>) or another kind of address; \<^verbatim>\<open>To4\<close>,
  \<^verbatim>\<open>IsLoopback\<close> and \<^verbatim>\<open>String\<close> are those of \<^verbatim>\<open>net.IP\<close>, the last only for the addresses that reach it,
  which have an IPv4 form.
\<close>

datatype net_addr = IPNet "(8 word) list" | OtherAddr

definition To4 :: "(8 word) list \<Rightarrow> (8 word) list option" where
  "To4 ip = (if length ip = 4 then Some ip
     else if length ip = 16 \<and> take 10 ip = replicate 10 0 \<and> ip ! 10 = 255 \<and> ip ! 11 = 255
     then Some (drop 12 ip) else None)"

definition IsLoopback :: "(8 word) list \<Rightarrow> bool" where
  "IsLoopback ip = (case To4 ip of Some ip4 \<Rightarrow> ip4 ! 0 = 127 | None \<Rightarrow> ip = replicate 15 0 @ [1])"

fun dotted :: "(8 word) list \<Rightarrow> string" where
  "dotted [] = []"
| "dotted [b] = dec_nat (unat b)"
| "dotted (b # bs) = dec_nat (unat b) @ ''.'' @ dotted bs"

fun GetClientIp_loop :: "net_addr list \<Rightarrow> string + string" where
  "GetClientIp_loop [] = Inl ''Can not find the client ip address!''"
| "GetClientIp_loop (OtherAddr # rest) = GetClientIp_loop rest"
| "GetClientIp_loop (IPNet ip # rest) =
     (if \<not> IsLoopback ip
      then (case To4 ip of Some ip4 \<Rightarrow> Inr (dotted ip4) | None \<Rightarrow> GetClientIp_loop rest)
      else GetClientIp_loop rest)"

text \<open>\<open>addrs\<close> is the answer of \<^verbatim>\<open>net.InterfaceAddrs\<close>: an error or the list of addresses.\<close>

definition GetClientIp :: "string + net_addr list \<Rightarrow> string + string" where
  "GetClientIp addrs = (case addrs of Inl err \<Rightarrow> Inl err | Inr as \<Rightarrow> GetClientIp_loop as)"

definition usable_addr :: "net_addr \<Rightarrow> string option" where
  "usable_addr a = (case a of OtherAddr \<Rightarrow> None
     | IPNet ip \<Rightarrow> if IsLoopback ip then None else map_option dotted (To4 ip))"

lemma GetClientIp_first_usable:
  "GetClientIp (Inr as) =
     (case List.map_filter usable_addr as of
        [] \<Rightarrow> Inl ''Can not find the client ip address!'' | r # _ \<Rightarrow> Inr r)"
  unfolding GetClientIp_def
  by (induction as rule: GetClientIp_loop.induct)
    (auto simp: List.map_filter_simps usable_addr_def split: option.splits)

end
