(* ===== verification/Rtp.thy ===== *)
theory Rtp
  imports Util
begin

section \<open>Session data and RTP parameters (reqResData.go, config.go, the first part of room.go)\<close>

text \<open>
  The records of the signalling messages and of the RTP capabilities, one per Go struct with the
  struct's fields in the struct's order, and the three functions that rewrite RTP parameters:
  \<^verbatim>\<open>GetNewExtensionId\<close>, \<^verbatim>\<open>ChangeExtensionId\<close> and \<^verbatim>\<open>RemoveFeedbackRemb\<close>. A pointer that may be nil
  is an option; an \<^verbatim>\<open>interface{}\<close> that \<^verbatim>\<open>encoding/json\<close> filled is a \<open>json\<close> value.
\<close>

datatype json =
    JNull
  | JBool bool
  | JInt int
  | JNum string
  | JString string
  | JArray "json list"
  | JObject "(string \<times> json) list"

subsection \<open>config.go\<close>

record RtcpFeedback =
  fb_Type :: string
  fb_Parameter :: string

record CodecParameters =
  cp_PacketizationMode :: go_int
  cp_ProfileLevelId :: string
  cp_LevelAsymmetryAllowed :: go_int
  cp_XGoogleStartBitrate :: go_int
  cp_Apt :: go_int
  cp_MinPTime :: go_int
  cp_UseInBandFec :: go_int
  cp_SpropStereo :: go_int
  cp_UseDtx :: go_int

record CodecCapabilities =
  cc_Kind :: string
  cc_MimeType :: string
  cc_ClockRate :: go_int
  cc_Channels :: go_int
  cc_Parameters :: "CodecParameters option"
  cc_Feedbacks :: "RtcpFeedback list"
  cc_PreferredPayloadType :: go_int
  cc_PayloadType :: go_int

record HeaderExtension =
  hx_Kind :: string
  hx_Uri :: string
  hx_PreferredId :: go_int
  hx_PreferredEncrypt :: bool
  hx_Direction :: string

record RouterRtpCapabilities =
  rr_MediaCodecs :: "CodecCapabilities list"
  rr_HeaderExtensions :: "HeaderExtension list"

record Http =
  http_Addr :: string
  http_ReadTimeOut :: go_int
  http_WriteTimeOut :: go_int
  http_IsKeepAlive :: go_int

record DatabaseConfig =
  db_Host :: string
  db_Port :: go_int
  db_Username :: string
  db_Password :: string
  db_Name :: string

record RedisConfig =
  redis_Host :: string
  redis_Port :: go_int
  redis_Password :: string
  redis_DB :: go_int

record EmailConfig =
  email_SMTPHost :: string
  email_SMTPPort :: go_int
  email_FromEmail :: string
  email_Password :: string

record Config =
  cfg_RtpCapabilities :: RouterRtpCapabilities
  cfg_Http :: Http
  cfg_Database :: DatabaseConfig
  cfg_Redis :: RedisConfig
  cfg_Email :: EmailConfig

subsection \<open>reqResData.go\<close>

record NumStreams =
  ns_OS :: go_int
  ns_MIS :: go_int

record SCTPCapabilities =
  sc_NumStreams :: NumStreams

record AppData =
  ad_Direction :: string
  ad_Channel :: string
  ad_Source :: string
  ad_PeerId :: string

record CreateTransportReqData =
  ct_SCTPCapabilities :: SCTPCapabilities
  ct_ForceTCP :: bool
  ct_AppData :: AppData

record ICEParameters =
  ice_UsernameFragment :: string
  ice_Password :: string
  ice_ICELite :: bool

record ICECandidate =
  cand_Foundation :: string
  cand_Priority :: go_int
  cand_IP :: string
  cand_Address :: string
  cand_Protocol :: string
  cand_Port :: go_int
  cand_Type :: string
  cand_TCPType :: string

record Fingerprint =
  fp_Algorithm :: string
  fp_Value :: string

record DTLSParameters =
  dtls_Fingerprints :: "Fingerprint list"
  dtls_Role :: string

record SCTPParameters =
  sp_Port :: go_int
  sp_OS :: go_int
  sp_MIS :: go_int
  sp_MaxMessageSize :: go_int
  sp_SendBufferSize :: go_int
  sp_SCTPBufferedAmount :: go_int
  sp_IsDataChannel :: bool

record CreateTransportResData =
  tr_TransportID :: string
  tr_ICEParameters :: ICEParameters
  tr_ICECandidates :: "ICECandidate list"
  tr_DTLSParameters :: DTLSParameters
  tr_SCTPParameters :: SCTPParameters

record Device =
  dev_Flag :: string
  dev_Name :: string
  dev_Version :: string

record Rtcp =
  rtcp_CName :: string
  rtcp_ReducedSize :: bool

record Rtx =
  rtx_Ssrc :: u32

record Encodings =
  enc_Active :: bool
  enc_ScalabilityMode :: string
  enc_ScaleResolutionDownBy :: go_int
  enc_MaxBitrate :: go_int
  enc_Rid :: string
  enc_Dtx :: bool
  enc_Ssrc :: u32
  enc_Rtx :: "Rtx option"

record ProducerHeadExtension =
  he_Uri :: string
  he_Id :: go_int
  he_Encrypt :: bool
  he_Parameters :: json

record RtpCapabilities =
  rc_Mid :: string
  rc_MediaCodecs :: "CodecCapabilities list"
  rc_HeaderExtensions :: "ProducerHeadExtension list"
  rc_Encodings :: "Encodings option list"
  rc_Rtcp :: Rtcp
  rc_Msid :: string

record JoinReqData =
  jq_DisplayName :: string
  jq_Device :: "Device option"
  jq_RtpCapabilities :: RtpCapabilities

record Peer =
  peer_PeerId :: string
  peer_DisplayName :: string
  peer_Device :: "Device option"
  peer_RemoteAddress :: string

record PeerData =
  pd_Peer :: Peer

record JoinResData =
  jr_Peers :: "Peer list"

record ConnectTransportReqData =
  cn_TransportId :: string
  cn_DTLSParameters :: DTLSParameters

record SCTPStreamParameters =
  ss_StreamId :: go_int
  ss_Orderd :: bool

record ProduceDataReqData =
  pdq_TransportId :: string
  pdq_SCTPStreamParameters :: SCTPStreamParameters
  pdq_Label :: string
  pdq_AppData :: AppData

record ProduceDataResData =
  pdr_DataProducerId :: string

record NewDataConsumerReqData =
  nd_PeerId :: string
  nd_TransportId :: string
  nd_DataProducerId :: string
  nd_DataConsumerId :: string
  nd_SCTPStreamParameters :: SCTPStreamParameters
  nd_Label :: string
  nd_AppData :: AppData

record ConsumerScore =
  cs_Score :: go_int
  cs_ProducerScore :: go_int
  cs_ProducerScores :: "go_int list"

record NewConsumerReqData =
  nc_PeerId :: string
  nc_TransportId :: string
  nc_ConsumerId :: string
  nc_ProducerId :: string
  nc_Kind :: string
  nc_RtpParameters :: RtpCapabilities
  nc_Type :: string
  nc_ProducerPaused :: bool
  nc_AppData :: AppData
  nc_ConsumerScore :: ConsumerScore

record ProduceReqData =
  pq_TransportId :: string
  pq_Kind :: string
  pq_RtpParameters :: RtpCapabilities

record ProduceResData =
  pr_ProducerId :: string

record ConsumeResData =
  cr_ConsumerId :: string

subsection \<open>RTP header extensions and feedback (room.go)\<close>

definition MID :: go_int where "MID = 1"
definition RTP_STREAM_ID :: go_int where "RTP_STREAM_ID = 2"
definition REPAIRED_RTP_STREAM_ID :: go_int where "REPAIRED_RTP_STREAM_ID = 3"
definition ABS_SEND_TIME :: go_int where "ABS_SEND_TIME = 4"
definition TRANSPORT_WIDE_CC_01 :: go_int where "TRANSPORT_WIDE_CC_01 = 5"
definition SSRC_AUDIO_LEVEL :: go_int where "SSRC_AUDIO_LEVEL = 6"
definition DEPENDENCY_DESCRIPTOR :: go_int where "DEPENDENCY_DESCRIPTOR = 7"
definition VIDEO_ORIENTATION :: go_int where "VIDEO_ORIENTATION = 8"
definition TIME_OFFSET :: go_int where "TIME_OFFSET = 9"
definition ABS_CAPTURE_TIME :: go_int where "ABS_CAPTURE_TIME = 10"
definition PLAYOUT_DELAY :: go_int where "PLAYOUT_DELAY = 11"
definition MEDIASOUP_PACKET_ID :: go_int where "MEDIASOUP_PACKET_ID = 12"

lemmas extension_ids = MID_def RTP_STREAM_ID_def REPAIRED_RTP_STREAM_ID_def ABS_SEND_TIME_def
  TRANSPORT_WIDE_CC_01_def SSRC_AUDIO_LEVEL_def DEPENDENCY_DESCRIPTOR_def VIDEO_ORIENTATION_def
  TIME_OFFSET_def ABS_CAPTURE_TIME_def PLAYOUT_DELAY_def MEDIASOUP_PACKET_ID_def

definition GetNewExtensionId :: "string \<Rightarrow> go_int" where
  "GetNewExtensionId uri =
     (if contains uri ''mid'' then MID
      else if contains uri ''abs-send-time'' then ABS_SEND_TIME
      else if contains uri ''transport-wide-cc-extensions'' then TRANSPORT_WIDE_CC_01
      else if contains uri ''ssrc-audio-level'' then SSRC_AUDIO_LEVEL
      else if contains uri ''abs-capture-time'' then ABS_CAPTURE_TIME
      else if contains uri ''video-orientation'' then VIDEO_ORIENTATION
      else if contains uri ''toffset'' then TIME_OFFSET
      else if contains uri ''playout-delay'' then PLAYOUT_DELAY
      else if contains uri ''repaired-rtp-stream-id'' then REPAIRED_RTP_STREAM_ID
      else if contains uri ''rtp-stream-id'' then RTP_STREAM_ID
      else - 1)"

definition ChangeExtensionId :: "ProducerHeadExtension list \<Rightarrow> ProducerHeadExtension list" where
  "ChangeExtensionId extensionIds = map (\<lambda>e. e\<lparr>he_Id := GetNewExtensionId (he_Uri e)\<rparr>) extensionIds"

text \<open>
  The loop of \<^verbatim>\<open>RemoveFeedbackRemb\<close> works on the slice header it was passed by value: \<open>b\<close> is the
  backing array, \<open>m\<close> the length of the local slice, \<open>i\<close> the index. The caller keeps its own header,
  so what it sees afterwards is the whole of \<open>b\<close>.
\<close>

function RemoveFeedbackRemb_loop :: "RtcpFeedback list \<Rightarrow> nat \<Rightarrow> nat \<Rightarrow> RtcpFeedback list" where
  "RemoveFeedbackRemb_loop b m i =
     (if i < m then
        if fb_Type (b ! i) = ''goog-remb''
        then RemoveFeedbackRemb_loop (slice_delete b m i) (m - 1) i
        else RemoveFeedbackRemb_loop b m (Suc i)
      else b)"
  by pat_completeness auto
termination
  by (relation "measure (\<lambda>(b, m, i). m - i)") auto

declare RemoveFeedbackRemb_loop.simps [simp del]

definition RemoveFeedbackRemb :: "RtcpFeedback list \<Rightarrow> RtcpFeedback list" where
  "RemoveFeedbackRemb feedback = RemoveFeedbackRemb_loop feedback (length feedback) 0"

definition not_remb :: "RtcpFeedback \<Rightarrow> bool" where
  "not_remb f \<longleftrightarrow> fb_Type f \<noteq> ''goog-remb''"

lemma RemoveFeedbackRemb_loop_parts:
  "RemoveFeedbackRemb_loop (ys @ zs @ ws) (length ys + length zs) (length ys) =
     ys @ filter not_remb zs @ replicate (length (filter (\<lambda>f. \<not> not_remb f) zs)) (last zs) @ ws"
proof (induction zs arbitrary: ys ws)
  case Nil
  show ?case by (simp add: RemoveFeedbackRemb_loop.simps)
next
  case (Cons z zs)
  let ?b = "ys @ (z # zs) @ ws"
  let ?m = "length ys + length (z # zs)"
  show ?case
  proof (cases "not_remb z")
    case True
    then have "RemoveFeedbackRemb_loop ?b ?m (length ys) =
        RemoveFeedbackRemb_loop ((ys @ [z]) @ zs @ ws) (length (ys @ [z]) + length zs) (length (ys @ [z]))"
      by (subst RemoveFeedbackRemb_loop.simps) (simp add: not_remb_def)
    also have "\<dots> = (ys @ [z]) @ filter not_remb zs
        @ replicate (length (filter (\<lambda>f. \<not> not_remb f) zs)) (last zs) @ ws"
      by (rule Cons.IH)
    also have "\<dots> = ys @ filter not_remb (z # zs)
        @ replicate (length (filter (\<lambda>f. \<not> not_remb f) (z # zs))) (last (z # zs)) @ ws"
      using True by (cases "zs = []") simp_all
    finally show ?thesis .
  next
    case False
    have "RemoveFeedbackRemb_loop ?b ?m (length ys) =
        RemoveFeedbackRemb_loop (ys @ zs @ last (z # zs) # ws) (length ys + length zs) (length ys)"
      using False slice_delete_parts[of ys z zs ws]
      by (subst RemoveFeedbackRemb_loop.simps) (simp add: not_remb_def)
    also have "\<dots> = ys @ filter not_remb zs
        @ replicate (length (filter (\<lambda>f. \<not> not_remb f) zs)) (last zs) @ last (z # zs) # ws"
      by (rule Cons.IH)
    also have "\<dots> = ys @ filter not_remb (z # zs)
        @ replicate (length (filter (\<lambda>f. \<not> not_remb f) (z # zs))) (last (z # zs)) @ ws"
      using False by (cases "zs = []") (simp_all add: replicate_app_Cons_same)
    finally show ?thesis .
  qed
qed

text \<open>What the caller of \<^verbatim>\<open>RemoveFeedbackRemb\<close> sees. The loop gathers the entries other than
  \<^verbatim>\<open>goog-remb\<close> in front, in order, but the caller's slice keeps its length: each removed entry leaves
  one more copy of the original last entry at the end.\<close>

lemma RemoveFeedbackRemb_view:
  "RemoveFeedbackRemb fs =
     filter not_remb fs @ replicate (length (filter (\<lambda>f. \<not> not_remb f) fs)) (last fs)"
  using RemoveFeedbackRemb_loop_parts[of "[]" fs "[]"] by (simp add: RemoveFeedbackRemb_def)

text \<open>C40: the removal works for the caller exactly when the last feedback entry is not
  \<^verbatim>\<open>goog-remb\<close>: if it is, \<^verbatim>\<open>goog-remb\<close> is still offered afterwards.\<close>

theorem RemoveFeedbackRemb_removes_iff:
  "(\<exists>f \<in> set (RemoveFeedbackRemb fs). fb_Type f = ''goog-remb'') \<longleftrightarrow>
     fs \<noteq> [] \<and> fb_Type (last fs) = ''goog-remb''"
proof -
  have view: "RemoveFeedbackRemb fs =
     filter not_remb fs @ replicate (length (filter (\<lambda>f. \<not> not_remb f) fs)) (last fs)"
    using RemoveFeedbackRemb_loop_parts[of "[]" fs "[]"] by (simp add: RemoveFeedbackRemb_def)
  have "last fs \<in> set fs" if "fs \<noteq> []" using that by simp
  then show ?thesis unfolding view by (auto simp: not_remb_def filter_empty_conv)
qed

end
