(* ===== verification/Router.thy ===== *)
theory Router
  imports Rtp
begin

section \<open>Routers: producers, consumers and transports of one room (worker.go)\<close>

text \<open>
  The records \<^verbatim>\<open>Producer\<close>, \<^verbatim>\<open>Consumer\<close> and \<^verbatim>\<open>Router\<close> of \<^verbatim>\<open>worker.go\<close> and the methods of
  \<^verbatim>\<open>Router\<close>. A router keeps, per user, the list of the producers the user publishes and the list of
  the consumers the user receives. The field \<^verbatim>\<open>parameters\<close> of a producer is a pointer to the decoded
  request, an address in the store of the room server, because the code later writes through it.
  Loops over a map take the order of the keys as an argument.
\<close>

record Producer =
  prod_producerId :: string
  prod_transportId :: string
  prod_kind :: string
  prod_ssrc :: u32
  prod_parameters :: nat

record Consumer =
  cons_consumerId :: string
  cons_transportId :: string
  cons_producerId :: string
  cons_kind :: string
  cons_originSsrc :: u32
  cons_newSsrc :: u32

record Router =
  routerId :: string
  rt_publicIp :: string
  rt_minPort :: u32
  rt_port :: u32
  rt_maxPort :: u32
  rt_preferenceUdp :: bool
  rt_sendBufSize :: u32
  rt_recvBufSize :: u32
  rt_workerId :: string
  producers :: "(string, Producer list) gomap"
  consumers :: "(string, Consumer list) gomap"
  produceTransportIds :: "(string, string) gomap"
  consumeTransportIds :: "(string, string) gomap"

text \<open>Indexing a map of slices with a missing key gives the nil slice.\<close>

definition slice_of :: "('k, 'v list) gomap \<Rightarrow> 'k \<Rightarrow> 'v list" where
  "slice_of m k = (case map_of m k of None \<Rightarrow> [] | Some xs \<Rightarrow> xs)"

lemma slice_of_update [simp]:
  "slice_of (AList.update k v m) k' = (if k' = k then v else slice_of m k')"
  by (simp add: slice_of_def)

definition addProducer :: "Router \<Rightarrow> string \<Rightarrow> Producer option \<Rightarrow> Router" where
  "addProducer r userId producer =
     (case producer of
        None \<Rightarrow> r
      | Some p \<Rightarrow>
          (let ps = (if map_of (producers r) userId = None
                     then AList.update userId [] (producers r) else producers r)
           in r\<lparr>producers := AList.update userId (slice_of ps userId @ [p]) ps\<rparr>))"

definition GetProducer :: "Router \<Rightarrow> string \<Rightarrow> string \<Rightarrow> Producer option" where
  "GetProducer r userId producerId =
     (case map_of (producers r) userId of
        None \<Rightarrow> None
      | Some ps \<Rightarrow> find (\<lambda>p. prod_producerId p = producerId) ps)"

definition removeProducer :: "Router \<Rightarrow> string \<Rightarrow> string \<Rightarrow> Router" where
  "removeProducer r userId producerId =
     (case map_of (producers r) userId of
        None \<Rightarrow> r
      | Some ps \<Rightarrow>
          (case find_idx (\<lambda>p. prod_producerId p = producerId) ps of
             None \<Rightarrow> r
           | Some i \<Rightarrow> r\<lparr>producers := AList.update userId (take i ps @ drop (Suc i) ps) (producers r)\<rparr>))"

definition addConsumer :: "Router \<Rightarrow> string \<Rightarrow> Consumer option \<Rightarrow> bool \<times> Router" where
  "addConsumer r userId consumer =
     (case consumer of
        None \<Rightarrow> (False, r)
      | Some c \<Rightarrow>
          (case map_of (consumers r) userId of
             None \<Rightarrow> (True, r\<lparr>consumers := AList.update userId [c] (consumers r)\<rparr>)
           | Some cs \<Rightarrow>
               if \<exists>v \<in> set cs. cons_producerId v = cons_producerId c then (False, r)
               else (True, r\<lparr>consumers := AList.update userId (cs @ [c]) (consumers r)\<rparr>)))"

fun GetConsumerByProducerId_loop ::
  "(string, Consumer list) gomap \<Rightarrow> string \<Rightarrow> string \<Rightarrow> string list \<Rightarrow> Consumer list \<Rightarrow> Consumer list" where
  "GetConsumerByProducerId_loop cm userId producerId [] acc = acc"
| "GetConsumerByProducerId_loop cm userId producerId (user # ks) acc =
     (if user = userId then GetConsumerByProducerId_loop cm userId producerId ks acc
      else case find (\<lambda>c. cons_producerId c = producerId) (slice_of cm user) of
          None \<Rightarrow> GetConsumerByProducerId_loop cm userId producerId ks acc
        | Some c \<Rightarrow> GetConsumerByProducerId_loop cm userId producerId ks (acc @ [c]))"

definition GetConsumerByProducerId :: "string list \<Rightarrow> Router \<Rightarrow> string \<Rightarrow> string \<Rightarrow> Consumer list" where
  "GetConsumerByProducerId ks r userId producerId =
     GetConsumerByProducerId_loop (consumers r) userId producerId ks []"

text \<open>
  \<^verbatim>\<open>removeConsumerByProducerId\<close> cuts the entry out of the local variable \<^verbatim>\<open>consumers\<close> only. The
  append shifts the shared backing array, so the router's own slice, whose header is not written
  back, is changed in place and keeps its length.
\<close>

fun removeConsumerByProducerId_loop ::
  "string \<Rightarrow> string \<Rightarrow> string list \<Rightarrow> (string, Consumer list) gomap \<times> (string, string) gomap
    \<Rightarrow> (string, Consumer list) gomap \<times> (string, string) gomap" where
  "removeConsumerByProducerId_loop userId producerId [] acc = acc"
| "removeConsumerByProducerId_loop userId producerId (user # ks) (cm, removed) =
     (if user = userId then removeConsumerByProducerId_loop userId producerId ks (cm, removed)
      else case find_idx (\<lambda>c. cons_producerId c = producerId) (slice_of cm user) of
          None \<Rightarrow> removeConsumerByProducerId_loop userId producerId ks (cm, removed)
        | Some i \<Rightarrow>
            (let cs = slice_of cm user in
             removeConsumerByProducerId_loop userId producerId ks
               (AList.update user (slice_delete cs (length cs) i) cm,
                AList.update user (cons_consumerId (cs ! i)) removed)))"

definition removeConsumerByProducerId ::
  "string list \<Rightarrow> Router \<Rightarrow> string \<Rightarrow> string \<Rightarrow> (string, string) gomap \<times> Router" where
  "removeConsumerByProducerId ks r userId producerId =
     (case removeConsumerByProducerId_loop userId producerId ks (consumers r, []) of
        (cm, removed) \<Rightarrow> (removed, r\<lparr>consumers := cm\<rparr>))"

definition getConsumerTransportId :: "Router \<Rightarrow> string \<Rightarrow> string" where
  "getConsumerTransportId r userId =
     (case map_of (consumeTransportIds r) userId of None \<Rightarrow> '''' | Some t \<Rightarrow> t)"

definition saveConsumeTransportId :: "Router \<Rightarrow> string \<Rightarrow> string \<Rightarrow> Router" where
  "saveConsumeTransportId r userId transportId =
     (case map_of (consumeTransportIds r) userId of
        None \<Rightarrow> r\<lparr>consumeTransportIds := AList.update userId transportId (consumeTransportIds r)\<rparr>
      | Some _ \<Rightarrow> r)"

definition saveProducerTransportId :: "Router \<Rightarrow> string \<Rightarrow> string \<Rightarrow> Router" where
  "saveProducerTransportId r userId transportId =
     (case map_of (produceTransportIds r) userId of
        None \<Rightarrow> r\<lparr>produceTransportIds := AList.update userId transportId (produceTransportIds r)\<rparr>
      | Some _ \<Rightarrow> r)"

definition CreateConsumes :: "Router \<Rightarrow> string \<Rightarrow> (Router, 'z env_state_scheme) go" where
  "CreateConsumes r userId =
     bnd (RandString 36) (\<lambda>audioId.
     let audioConsumer = \<lparr>cons_consumerId = audioId,
           cons_transportId = getConsumerTransportId r userId, cons_producerId = '''',
           cons_kind = ''audio'', cons_originSsrc = 0, cons_newSsrc = 0\<rparr>;
         r1 = snd (addConsumer r userId (Some audioConsumer)) in
     bnd (RandString 36) (\<lambda>videoId.
     let videConsumer = \<lparr>cons_consumerId = videoId,
           cons_transportId = getConsumerTransportId r1 userId, cons_producerId = '''',
           cons_kind = ''video'', cons_originSsrc = 0, cons_newSsrc = 0\<rparr> in
     ret (snd (addConsumer r1 userId (Some videConsumer)))))"

definition getProducerById :: "Router \<Rightarrow> string \<Rightarrow> Producer list" where
  "getProducerById r userId = slice_of (producers r) userId"

definition getConsumerById :: "Router \<Rightarrow> string \<Rightarrow> Consumer list" where
  "getConsumerById r userId = slice_of (consumers r) userId"

definition getOtherConsumersById :: "string list \<Rightarrow> Router \<Rightarrow> string \<Rightarrow> Consumer list" where
  "getOtherConsumersById ks r userId =
     concat (map (slice_of (consumers r)) (filter (\<lambda>k. k \<noteq> userId) ks))"

definition getOtherProducersById :: "string list \<Rightarrow> Router \<Rightarrow> string \<Rightarrow> Producer list" where
  "getOtherProducersById ks r userId =
     concat (map (slice_of (producers r)) (filter (\<lambda>k. k \<noteq> userId) ks))"

definition getConsumerStreamMid :: "Router \<Rightarrow> string \<Rightarrow> string" where
  "getConsumerStreamMid r userId = itoa (int (length (slice_of (consumers r) userId)))"

subsection \<open>The registry of producers\<close>

text \<open>
  What a client of the producer lists relies on: a lookup finds the first producer of that id, a
  new producer is found under its id, removal takes exactly that id away.
\<close>

locale producer_registry =
  fixes lookup :: "'r \<Rightarrow> 'u \<Rightarrow> 'i \<Rightarrow> 'p option"
    and add :: "'r \<Rightarrow> 'u \<Rightarrow> 'p \<Rightarrow> 'r"
    and remove :: "'r \<Rightarrow> 'u \<Rightarrow> 'i \<Rightarrow> 'r"
    and pid :: "'p \<Rightarrow> 'i"
    and invar :: "'r \<Rightarrow> bool"
  assumes lookup_pid: "lookup r u i = Some p \<Longrightarrow> pid p = i"
    and lookup_add: "lookup (add r u p) u' i =
      (if u' = u \<and> i = pid p \<and> lookup r u i = None then Some p else lookup r u' i)"
    and lookup_remove: "invar r \<Longrightarrow> lookup (remove r u i) u' i' =
      (if u' = u \<and> i' = i then None else lookup r u' i')"
    and invar_add: "invar r \<Longrightarrow> lookup r u (pid p) = None \<Longrightarrow> invar (add r u p)"
    and invar_remove: "invar r \<Longrightarrow> invar (remove r u i)"
begin

lemma lookup_remove_add:
  assumes "invar r" and "lookup r u (pid p) = None"
  shows "lookup (remove (add r u p) u (pid p)) u' i = lookup r u' i"
  using assms lookup_remove[OF invar_add[OF assms], of u "pid p"] lookup_add by auto

lemma lookup_remove_twice:
  "invar r \<Longrightarrow> lookup (remove (remove r u i) u i) u' i' = lookup (remove r u i) u' i'"
  by (simp add: lookup_remove invar_remove)

lemma lookup_remove_commute:
  "invar r \<Longrightarrow> lookup (remove (remove r u i) v j) u' i' = lookup (remove (remove r v j) u i) u' i'"
  by (simp add: lookup_remove invar_remove)

end

definition unique_producers :: "Router \<Rightarrow> bool" where
  "unique_producers r \<longleftrightarrow> wf_map (producers r) \<and>
     (\<forall>u. distinct (map prod_producerId (slice_of (producers r) u)))"

lemma GetProducer_find: "GetProducer r u i = find (\<lambda>p. prod_producerId p = i) (slice_of (producers r) u)"
  by (simp add: GetProducer_def slice_of_def split: option.split)

lemma producers_addProducer:
  "slice_of (producers (addProducer r u (Some p))) u' =
     (if u' = u then slice_of (producers r) u @ [p] else slice_of (producers r) u')"
  by (simp add: addProducer_def Let_def slice_of_def split: option.split)

lemma producers_removeProducer:
  "slice_of (producers (removeProducer r u i)) u' =
     (if u' = u then remove_first (\<lambda>p. prod_producerId p = i) (slice_of (producers r) u)
      else slice_of (producers r) u')"
  by (auto simp: removeProducer_def remove_first_find_idx slice_of_def split: option.splits)

lemma find_append_one: "find P (xs @ [y]) = (case find P xs of None \<Rightarrow> if P y then Some y else None | Some x \<Rightarrow> Some x)"
  by (induction xs) auto

lemma wf_producers_ops:
  "wf_map (producers r) \<Longrightarrow> wf_map (producers (addProducer r u po))"
  "wf_map (producers r) \<Longrightarrow> wf_map (producers (removeProducer r u i))"
  by (auto simp: addProducer_def removeProducer_def Let_def split: option.split)

interpretation prodreg: producer_registry GetProducer "\<lambda>r u p. addProducer r u (Some p)"
  removeProducer prod_producerId unique_producers
proof (unfold_locales, goal_cases)
  case (1 r u i p)
  then show ?case by (auto simp: GetProducer_find find_Some_iff)
next
  case (2 r u p u' i)
  show ?case by (auto simp: GetProducer_find producers_addProducer find_append_one split: option.splits)
next
  case (3 r u i u' i')
  then show ?case
    by (auto simp: GetProducer_find producers_removeProducer unique_producers_def
        find_remove_first_distinct find_remove_first_key)
next
  case (4 r u p)
  then show ?case
    by (auto simp: unique_producers_def producers_addProducer wf_producers_ops GetProducer_find
        find_None_iff)
next
  case (5 r u i)
  then show ?case
    by (auto simp: unique_producers_def producers_removeProducer wf_producers_ops
        distinct_map_remove_first)
qed

subsection \<open>Consumers\<close>

text \<open>At most one consumer per user and producer: the guard of \<^verbatim>\<open>addConsumer\<close>.\<close>

definition unique_consumers :: "Router \<Rightarrow> bool" where
  "unique_consumers r \<longleftrightarrow> wf_map (consumers r) \<and>
     (\<forall>u. distinct (map cons_producerId (slice_of (consumers r) u)))"

definition consumes :: "Router \<Rightarrow> string \<Rightarrow> string \<Rightarrow> bool" where
  "consumes r u producerId \<longleftrightarrow> (\<exists>c \<in> set (slice_of (consumers r) u). cons_producerId c = producerId)"

lemma consumers_addConsumer:
  "slice_of (consumers (snd (addConsumer r u (Some c)))) u' =
     (if u' = u \<and> \<not> consumes r u (cons_producerId c) then slice_of (consumers r) u @ [c]
      else slice_of (consumers r) u')"
  by (auto simp: addConsumer_def consumes_def slice_of_def split: option.split)

lemma fst_addConsumer: "fst (addConsumer r u (Some c)) \<longleftrightarrow> \<not> consumes r u (cons_producerId c)"
  by (auto simp: addConsumer_def consumes_def slice_of_def split: option.split)

lemma unique_consumers_addConsumer:
  "unique_consumers r \<Longrightarrow> unique_consumers (snd (addConsumer r u (Some c)))"
proof -
  assume inv: "unique_consumers r"
  have "wf_map (consumers (snd (addConsumer r u (Some c))))"
    using inv by (auto simp: unique_consumers_def addConsumer_def split: option.split)
  with inv show ?thesis
    by (auto simp: unique_consumers_def consumers_addConsumer consumes_def)
qed

definition cut_consumer :: "string \<Rightarrow> Consumer list \<Rightarrow> Consumer list" where
  "cut_consumer producerId cs =
     (case find_idx (\<lambda>c. cons_producerId c = producerId) cs of
        None \<Rightarrow> cs | Some i \<Rightarrow> slice_delete cs (length cs) i)"

lemma length_cut_consumer: "length (cut_consumer producerId cs) = length cs"
  by (auto simp: cut_consumer_def length_slice_delete dest: find_idx_Some split: option.split)

lemma removeConsumerByProducerId_loop_consumers:
  "distinct ks \<Longrightarrow>
   slice_of (fst (removeConsumerByProducerId_loop userId producerId ks (cm, removed))) u =
     (if u \<in> set ks \<and> u \<noteq> userId then cut_consumer producerId (slice_of cm u) else slice_of cm u)"
proof (induction ks arbitrary: cm removed)
  case (Cons k ks)
  then show ?case
    by (auto simp: cut_consumer_def Let_def split: option.split)
qed simp

lemma removeConsumerByProducerId_loop_removed:
  "distinct ks \<Longrightarrow>
   map_of (snd (removeConsumerByProducerId_loop userId producerId ks (cm, removed))) u =
     (if u \<in> set ks \<and> u \<noteq> userId
      then case find (\<lambda>c. cons_producerId c = producerId) (slice_of cm u) of
             None \<Rightarrow> map_of removed u | Some c \<Rightarrow> Some (cons_consumerId c)
      else map_of removed u)"
proof (induction ks arbitrary: cm removed)
  case (Cons k ks)
  then show ?case
    by (auto simp: find_conv_find_idx Let_def split: option.split)
qed simp

lemma removeConsumerByProducerId_loop_wf:
  "wf_map removed \<Longrightarrow>
   wf_map (snd (removeConsumerByProducerId_loop userId producerId ks (cm, removed)))"
  by (induction ks arbitrary: cm removed) (auto simp: Let_def split: option.split)

lemma slice_of_not_key: "u \<notin> set (keys m) \<Longrightarrow> slice_of m u = []"
  by (auto simp: slice_of_def in_keys_iff split: option.split)

subsection \<open>Properties of the router\<close>

text \<open>Closing a producer undoes publishing it. With producer ids unique per user, removing a
  producer that was just added leaves every lookup as it was before.\<close>

lemma removeProducer_addProducer:
  assumes "unique_producers r" and "GetProducer r u (prod_producerId p) = None"
  shows "GetProducer (removeProducer (addProducer r u (Some p)) u (prod_producerId p)) u' i
    = GetProducer r u' i"
  using assms by (rule prodreg.lookup_remove_add)

definition empty_router :: "string \<Rightarrow> string \<Rightarrow> Router" where
  "empty_router rid wid = \<lparr>routerId = rid, rt_publicIp = '''', rt_minPort = 0, rt_port = 0,
     rt_maxPort = 0, rt_preferenceUdp = False, rt_sendBufSize = 1024, rt_recvBufSize = 1024,
     rt_workerId = wid, producers = [], consumers = [], produceTransportIds = [],
     consumeTransportIds = []\<rparr>"

lemma unique_empty_router:
  "unique_producers (empty_router rid wid)" "unique_consumers (empty_router rid wid)"
  by (simp_all add: unique_producers_def unique_consumers_def empty_router_def slice_of_def)

text \<open>The guard of \<^verbatim>\<open>addConsumer\<close>. It accepts a consumer exactly when the user has none of that
  producer yet, afterwards the user consumes the producer either way, nobody else's consumers
  change, and every user keeps at most one consumer per producer.\<close>

lemma addConsumer_unique:
  assumes "unique_consumers r"
  shows "(fst (addConsumer r u (Some c)) \<longleftrightarrow> \<not> consumes r u (cons_producerId c))
    \<and> unique_consumers (snd (addConsumer r u (Some c)))
    \<and> (consumes (snd (addConsumer r u (Some c))) u' i \<longleftrightarrow>
         consumes r u' i \<or> u' = u \<and> i = cons_producerId c)"
proof -
  have "consumes (snd (addConsumer r u (Some c))) u' i \<longleftrightarrow>
      consumes r u' i \<or> u' = u \<and> i = cons_producerId c"
    unfolding consumes_def[of "snd _"] consumers_addConsumer by (auto simp: consumes_def)
  with assms show ?thesis by (simp add: fst_addConsumer unique_consumers_addConsumer)
qed

definition sample_consumer :: Consumer where
  "sample_consumer = \<lparr>cons_consumerId = ''c1'', cons_transportId = ''t2'', cons_producerId = ''p1'',
     cons_kind = ''video'', cons_originSsrc = 0, cons_newSsrc = 0\<rparr>"

text \<open>The consumers reported closed. Whatever order the runtime visits the users in, the map
  returned by \<^verbatim>\<open>removeConsumerByProducerId\<close> holds exactly the users other than the publisher that
  consume the producer, each with the id of its consumer.\<close>

lemma removeConsumerByProducerId_reported:
  assumes "distinct ks" and "set ks = set (keys (consumers r))"
  shows "map_of (fst (removeConsumerByProducerId ks r userId producerId)) u =
    (if u = userId then None
     else map_option cons_consumerId
       (find (\<lambda>c. cons_producerId c = producerId) (slice_of (consumers r) u)))"
  using removeConsumerByProducerId_loop_removed[OF assms(1), of userId producerId "consumers r" "[]" u]
    assms(2) slice_of_not_key[of u "consumers r"]
  by (auto simp: removeConsumerByProducerId_def split: prod.split option.split)

definition router_two_consumers :: Router where
  "router_two_consumers = (empty_router ''r'' ''w'')\<lparr>consumers :=
     [(''a'', [sample_consumer]),
      (''b'', [sample_consumer\<lparr>cons_consumerId := ''c2''\<rparr>,
               sample_consumer\<lparr>cons_consumerId := ''c3'', cons_producerId := ''p2''\<rparr>])]\<rparr>"

text \<open>C30: the consumers that stay. The router's own list of a user that consumed the producer keeps
  its length: the entry is overwritten by the entries after it and the last entry appears twice. A
  user whose only consumer was of this producer still consumes it afterwards.\<close>

theorem removeConsumerByProducerId_leaves:
  assumes "distinct ks" and "set ks = set (keys (consumers r))" and "u \<noteq> userId"
    and "find_idx (\<lambda>c. cons_producerId c = producerId) (slice_of (consumers r) u) = Some i"
  shows "slice_of (consumers (snd (removeConsumerByProducerId ks r userId producerId))) u =
    take i (slice_of (consumers r) u) @ drop (Suc i) (slice_of (consumers r) u)
      @ [last (slice_of (consumers r) u)]"
proof -
  let ?cs = "slice_of (consumers r) u"
  have i: "i < length ?cs" using assms(4) find_idx_Some by fast
  then have "?cs \<noteq> []" by (metis list.size(3) less_nat_zero_code)
  then have "u \<in> set ks" using slice_of_not_key[of u "consumers r"] assms(2) by metis
  then have "slice_of (consumers (snd (removeConsumerByProducerId ks r userId producerId))) u
      = cut_consumer producerId ?cs"
    using removeConsumerByProducerId_loop_consumers[OF assms(1), of userId producerId "consumers r" "[]" u]
      assms(3) by (simp add: removeConsumerByProducerId_def case_prod_beta)
  also have "\<dots> = take i ?cs @ drop (Suc i) ?cs @ [last ?cs]"
    using assms(4) slice_delete_append_last[OF i] by (simp add: cut_consumer_def)
  finally show ?thesis .
qed

theorem removeConsumerByProducerId_leaves_witness:
  "slice_of (consumers (snd (removeConsumerByProducerId [''a'', ''b''] router_two_consumers ''x'' ''p1''))) ''a''
     = [sample_consumer]"
  using removeConsumerByProducerId_leaves[of "[''a'', ''b'']" router_two_consumers "''a''" "''x''" "''p1''" 0]
  by (auto simp: router_two_consumers_def empty_router_def sample_consumer_def slice_of_def keys_def)

text \<open>\<^verbatim>\<open>CreateConsumes\<close> never registers its video consumer. Both consumers it builds have an empty
  producer id, so the uniqueness guard refuses the second one.\<close>

lemma CreateConsumes_audio_only:
  assumes "map_of (consumers r) u = None"
  shows "\<exists>c s'. CreateConsumes r u s = Ret (r\<lparr>consumers := AList.update u [c] (consumers r)\<rparr>) s'
    \<and> cons_kind c = ''audio''"
  using assms
  by (simp add: CreateConsumes_def bnd_def RandString_eq ret_def Let_def addConsumer_def)
    (intro exI conjI, rule refl, simp)

end
