(* ===== verification/Worker_Manager.thy ===== *)
theory Worker_Manager
  imports Router
begin

section \<open>The pool of media workers (worker.go, workerManager.go)\<close>

text \<open>
  The record of a worker and the methods of \<^verbatim>\<open>WorkerManager\<close>. Each method is one function of the manager, as if it held
  the lock of the table from its first to its last statement. The code gives up that lock after the look-up
  in \<^verbatim>\<open>UpdateWorkerStats\<close>, \<^verbatim>\<open>Heartbeat\<close>, \<^verbatim>\<open>AddRouter\<close> and \<^verbatim>\<open>RemoveRouter\<close> and between \<^verbatim>\<open>GetOnlineWorkers\<close> and the scores in
  \<^verbatim>\<open>ChooseBestWorker\<close>: when a worker is removed in between, the code still writes its object, which is no longer in the
  table, and \<^verbatim>\<open>ChooseBestWorker\<close> may return a worker that left after the list was made or score it by newer
  statistics. \<open>now\<close> is what \<^verbatim>\<open>time.Now\<close> returned
  in it (in nanoseconds) and \<open>ks\<close> the order in which the runtime ranges over the map of workers. The
  field \<^verbatim>\<open>routers\<close> is read for the presence of a key only, so the model keeps its keys; the fields
  \<^verbatim>\<open>stream\<close> (never written) and \<^verbatim>\<open>mu\<close> have no counterpart.
\<close>

datatype WorkerStatus = WorkerStatusOffline | WorkerStatusOnline | WorkerStatusBusy

record Worker =
  wk_workerId :: string
  wk_publicIp :: string
  wk_publicPort :: u32
  wk_useUdp :: bool
  wk_status :: WorkerStatus
  wk_routerCount :: u32
  wk_cpuUsage :: u32
  wk_memoryUsage :: u32
  wk_lastHeartbeat :: int
  wk_routers :: "string list"

record WorkerManager =
  wm_workers :: "(string, Worker) gomap"

definition heartbeatTimeout :: int where
  "heartbeatTimeout = 60 * 1000000000"

definition workerCleanupInterval :: int where
  "workerCleanupInterval = 30 * 1000000000"

definition NewWorkerManager :: WorkerManager where
  "NewWorkerManager = \<lparr>wm_workers = []\<rparr>"

definition RegisterWorker ::
  "int \<Rightarrow> string \<Rightarrow> string \<Rightarrow> u32 \<Rightarrow> bool \<Rightarrow> WorkerManager \<Rightarrow> Worker \<times> WorkerManager" where
  "RegisterWorker now workerId publicIp publicPort useUdp wm =
     (case map_of (wm_workers wm) workerId of
        Some w \<Rightarrow>
          (let w' = w\<lparr>wk_lastHeartbeat := now, wk_status := WorkerStatusOnline\<rparr>
           in (w', wm\<lparr>wm_workers := AList.update workerId w' (wm_workers wm)\<rparr>))
      | None \<Rightarrow>
          (let w = \<lparr>wk_workerId = workerId, wk_publicIp = publicIp, wk_publicPort = publicPort,
                 wk_useUdp = useUdp, wk_status = WorkerStatusOnline, wk_routerCount = 0,
                 wk_cpuUsage = 0, wk_memoryUsage = 0, wk_lastHeartbeat = now, wk_routers = []\<rparr>
           in (w, wm\<lparr>wm_workers := AList.update workerId w (wm_workers wm)\<rparr>)))"

definition UpdateWorkerStats ::
  "int \<Rightarrow> string \<Rightarrow> u32 \<Rightarrow> u32 \<Rightarrow> u32 \<Rightarrow> WorkerManager \<Rightarrow> bool \<times> WorkerManager" where
  "UpdateWorkerStats now workerId routerCount cpuUsage memoryUsage wm =
     (case map_of (wm_workers wm) workerId of
        None \<Rightarrow> (False, wm)
      | Some w \<Rightarrow>
          (True, wm\<lparr>wm_workers := AList.update workerId
             (w\<lparr>wk_routerCount := routerCount, wk_cpuUsage := cpuUsage,
                wk_memoryUsage := memoryUsage, wk_lastHeartbeat := now\<rparr>) (wm_workers wm)\<rparr>))"

definition Heartbeat :: "int \<Rightarrow> string \<Rightarrow> WorkerManager \<Rightarrow> bool \<times> WorkerManager" where
  "Heartbeat now workerId wm =
     (case map_of (wm_workers wm) workerId of
        None \<Rightarrow> (False, wm)
      | Some w \<Rightarrow> (True, wm\<lparr>wm_workers :=
          AList.update workerId (w\<lparr>wk_lastHeartbeat := now\<rparr>) (wm_workers wm)\<rparr>))"

definition RemoveWorker :: "string \<Rightarrow> WorkerManager \<Rightarrow> WorkerManager" where
  "RemoveWorker workerId wm =
     (case map_of (wm_workers wm) workerId of
        None \<Rightarrow> wm
      | Some w \<Rightarrow>
          (let marked = AList.update workerId (w\<lparr>wk_status := WorkerStatusOffline\<rparr>) (wm_workers wm)
           in wm\<lparr>wm_workers := AList.delete workerId marked\<rparr>))"

definition GetWorker :: "string \<Rightarrow> WorkerManager \<Rightarrow> Worker option" where
  "GetWorker workerId wm = map_of (wm_workers wm) workerId"

definition GetAllWorkers :: "string list \<Rightarrow> WorkerManager \<Rightarrow> Worker list" where
  "GetAllWorkers ks wm = List.map_filter (map_of (wm_workers wm)) ks"

definition worker_online :: "int \<Rightarrow> Worker \<Rightarrow> bool" where
  "worker_online now w \<longleftrightarrow>
     wk_status w = WorkerStatusOnline \<and> now - wk_lastHeartbeat w < heartbeatTimeout"

definition GetOnlineWorkers :: "int \<Rightarrow> string list \<Rightarrow> WorkerManager \<Rightarrow> Worker list" where
  "GetOnlineWorkers now ks wm = filter (worker_online now) (List.map_filter (map_of (wm_workers wm)) ks)"

definition worker_score :: "Worker \<Rightarrow> u64" where
  "worker_score w = 1000 - ucast (wk_routerCount w * 10) - ucast (wk_cpuUsage w)
     - ucast (wk_memoryUsage w div 2)"

fun ChooseBestWorker_loop :: "Worker list \<Rightarrow> Worker option \<Rightarrow> u64 \<Rightarrow> Worker option" where
  "ChooseBestWorker_loop [] bestWorker bestScore = bestWorker"
| "ChooseBestWorker_loop (w # ws) bestWorker bestScore =
     (if bestWorker = None \<or> sint bestScore < sint (worker_score w)
      then ChooseBestWorker_loop ws (Some w) (worker_score w)
      else ChooseBestWorker_loop ws bestWorker bestScore)"

definition ChooseBestWorker :: "int \<Rightarrow> string list \<Rightarrow> WorkerManager \<Rightarrow> Worker option" where
  "ChooseBestWorker now ks wm =
     (let ws = GetOnlineWorkers now ks wm in
      if ws = [] then None else ChooseBestWorker_loop ws None 0)"

text \<open>One tick of the cleanup goroutine.\<close>

fun cleanupWorkers_loop :: "int \<Rightarrow> string list \<Rightarrow> (string, Worker) gomap \<Rightarrow> (string, Worker) gomap" where
  "cleanupWorkers_loop now [] m = m"
| "cleanupWorkers_loop now (k # ks) m =
     (case map_of m k of
        None \<Rightarrow> cleanupWorkers_loop now ks m
      | Some w \<Rightarrow>
          if now - wk_lastHeartbeat w > heartbeatTimeout
          then cleanupWorkers_loop now ks (AList.delete k (AList.update k (w\<lparr>wk_status := WorkerStatusOffline\<rparr>) m))
          else cleanupWorkers_loop now ks m)"

definition cleanupWorkers :: "int \<Rightarrow> string list \<Rightarrow> WorkerManager \<Rightarrow> WorkerManager" where
  "cleanupWorkers now ks wm = wm\<lparr>wm_workers := cleanupWorkers_loop now ks (wm_workers wm)\<rparr>"

definition GetWorkerCount :: "WorkerManager \<Rightarrow> nat" where
  "GetWorkerCount wm = length (wm_workers wm)"

definition AddRouter :: "string \<Rightarrow> string \<Rightarrow> WorkerManager \<Rightarrow> bool \<times> WorkerManager" where
  "AddRouter workerId rid wm =
     (case GetWorker workerId wm of
        None \<Rightarrow> (False, wm)
      | Some w \<Rightarrow>
          (True, wm\<lparr>wm_workers := AList.update workerId
             (w\<lparr>wk_routers := List.insert rid (wk_routers w),
                wk_routerCount := wk_routerCount w + 1\<rparr>) (wm_workers wm)\<rparr>))"

text \<open>\<^verbatim>\<open>atomic.AddUint32(&c, ^uint32(0))\<close> adds the all-ones word.\<close>

definition RemoveRouter :: "string \<Rightarrow> string \<Rightarrow> WorkerManager \<Rightarrow> bool \<times> WorkerManager" where
  "RemoveRouter workerId rid wm =
     (case GetWorker workerId wm of
        None \<Rightarrow> (False, wm)
      | Some w \<Rightarrow>
          if rid \<in> set (wk_routers w)
          then (True, wm\<lparr>wm_workers := AList.update workerId
             (w\<lparr>wk_routers := removeAll rid (wk_routers w),
                wk_routerCount := wk_routerCount w + (- 1)\<rparr>) (wm_workers wm)\<rparr>)
          else (False, wm))"

subsection \<open>Scores\<close>

lemma sint_word_of_int_range:
  assumes "- 9223372036854775808 \<le> k" and "k < 9223372036854775808"
  shows "sint (word_of_int k :: u64) = k"
  using assms by (simp add: signed_of_int signed_take_bit_int_eq_self)

lemma uint_u32_bounds: "0 \<le> uint (x :: u32)" "uint (x :: u32) < 4294967296"
proof -
  have "uint x < 2 ^ LENGTH(32)" by (rule unsigned_less)
  then show "0 \<le> uint x" "uint x < 4294967296" by simp_all
qed

lemma sint_worker_score:
  "sint (worker_score w) = 1000 - uint (wk_routerCount w * 10) - uint (wk_cpuUsage w)
     - uint (wk_memoryUsage w) div 2"
proof -
  let ?a = "uint (wk_routerCount w * 10)" and ?b = "uint (wk_cpuUsage w)"
    and ?c = "uint (wk_memoryUsage w div 2)"
  have "worker_score w = word_of_int (1000 - ?a - ?b - ?c)"
    unfolding worker_score_def ucast_eq by (simp only: of_int_diff of_int_numeral)
  moreover have "- 9223372036854775808 \<le> 1000 - ?a - ?b - ?c"
    and "1000 - ?a - ?b - ?c < 9223372036854775808"
    using uint_u32_bounds[of "wk_routerCount w * 10"] uint_u32_bounds[of "wk_cpuUsage w"]
      uint_u32_bounds[of "wk_memoryUsage w div 2"] by linarith+
  ultimately have "sint (worker_score w) = 1000 - ?a - ?b - ?c"
    by (simp only: sint_word_of_int_range)
  then show ?thesis by (simp add: uint_div)
qed

lemma uint_times_ten:
  assumes "uint (x :: u32) \<le> 429496729"
  shows "uint (x * 10) = 10 * uint x"
proof -
  have "uint (x * 10) = uint x * 10 mod 4294967296"
    by (simp add: uint_word_ariths)
  then show ?thesis using assms uint_u32_bounds(1)[of x] by simp
qed

text \<open>C39: the score of a worker, computed in 64 bits from a product taken in 32 bits, is the exact load
  formula 1000 - 10 * routers - cpu - memory / 2 as long as the router count is at most 429496729; it
  cannot overflow \<^verbatim>\<open>int64\<close>.\<close>

theorem worker_score_exact:
  assumes "uint (wk_routerCount w) \<le> 429496729"
  shows "sint (worker_score w) = 1000 - 10 * uint (wk_routerCount w) - uint (wk_cpuUsage w)
    - uint (wk_memoryUsage w) div 2"
  using uint_times_ten[OF assms] by (simp add: sint_worker_score)

subsection \<open>Choosing a worker\<close>

lemma ChooseBestWorker_loop_Some:
  assumes "ChooseBestWorker_loop ws (Some b) (worker_score b) = r"
  shows "\<exists>w. r = Some w \<and> w \<in> insert b (set ws)
    \<and> (\<forall>v \<in> insert b (set ws). sint (worker_score v) \<le> sint (worker_score w))"
  using assms
proof (induction ws arbitrary: b)
  case (Cons x ws)
  show ?case
  proof (cases "sint (worker_score b) < sint (worker_score x)")
    case True
    with Cons.prems have "ChooseBestWorker_loop ws (Some x) (worker_score x) = r" by simp
    from Cons.IH[OF this] True show ?thesis by fastforce
  next
    case False
    with Cons.prems have "ChooseBestWorker_loop ws (Some b) (worker_score b) = r" by simp
    from Cons.IH[OF this] False show ?thesis by fastforce
  qed
qed auto

lemma ChooseBestWorker_loop_start:
  "ws \<noteq> [] \<Longrightarrow> ChooseBestWorker_loop ws None 0
     = ChooseBestWorker_loop (tl ws) (Some (hd ws)) (worker_score (hd ws))"
  by (cases ws) auto

lemma ChooseBestWorker_loop_best:
  assumes "ws \<noteq> []"
  shows "\<exists>w \<in> set ws. ChooseBestWorker_loop ws None 0 = Some w
    \<and> (\<forall>v \<in> set ws. sint (worker_score v) \<le> sint (worker_score w))"
proof -
  have "set ws = insert (hd ws) (set (tl ws))" using assms by (cases ws) auto
  with ChooseBestWorker_loop_Some[of "tl ws" "hd ws"] show ?thesis
    unfolding ChooseBestWorker_loop_start[OF assms] by auto
qed

interpretation bestworker: best_choice "\<lambda>ws. ChooseBestWorker_loop ws None 0"
  "\<lambda>w. sint (worker_score w)"
proof (unfold_locales, goal_cases)
  case (1 ws)
  then show ?case using ChooseBestWorker_loop_best[of ws] by (cases "ws = []") auto
next
  case (2 ws w)
  then have "ws \<noteq> []" by auto
  then show ?case using ChooseBestWorker_loop_best[of ws] 2 by auto
next
  case (3 ws w v)
  then have "ws \<noteq> []" by auto
  then show ?case using ChooseBestWorker_loop_best[of ws] 3 by auto
qed

lemma set_GetOnlineWorkers:
  "set ks = set (keys (wm_workers wm)) \<Longrightarrow>
   w \<in> set (GetOnlineWorkers now ks wm) \<longleftrightarrow>
     worker_online now w \<and> (\<exists>k. GetWorker k wm = Some w)"
  by (auto simp: GetOnlineWorkers_def GetWorker_def in_map_filter_iff in_keys_iff)

lemma ChooseBestWorker_eq:
  "ChooseBestWorker now ks wm = ChooseBestWorker_loop (GetOnlineWorkers now ks wm) None 0"
  by (simp add: ChooseBestWorker_def Let_def)

text \<open>C27: the worker chosen for a new room. For every iteration order the loop returns nothing exactly
  when no registered worker is online, and otherwise a registered worker that is online and whose
  score no other online worker beats, also when every score is negative.\<close>

theorem ChooseBestWorker_best:
  assumes "set ks = set (keys (wm_workers wm))"
  shows "case ChooseBestWorker now ks wm of
      None \<Rightarrow> \<not> (\<exists>k w. GetWorker k wm = Some w \<and> worker_online now w)
    | Some w \<Rightarrow> (\<exists>k. GetWorker k wm = Some w) \<and> worker_online now w \<and>
        (\<forall>k v. GetWorker k wm = Some v \<and> worker_online now v \<longrightarrow>
           sint (worker_score v) \<le> sint (worker_score w))"
proof (cases "ChooseBestWorker now ks wm")
  case None
  then have "w \<notin> set (GetOnlineWorkers now ks wm)" for w
    by (simp add: ChooseBestWorker_eq bestworker.pick_None)
  then show ?thesis using None by (auto simp: set_GetOnlineWorkers[OF assms])
next
  case (Some w)
  note c = Some[unfolded ChooseBestWorker_eq]
  show ?thesis
    using Some bestworker.pick_mem[OF c] bestworker.pick_max[OF c]
    by (auto simp: set_GetOnlineWorkers[OF assms])
qed

text \<open>The load of the chosen worker does not depend on the order in which the runtime iterates
  over the map of workers.\<close>

lemma ChooseBestWorker_order_independent:
  assumes "set ks = set ks'"
  shows "map_option worker_score (ChooseBestWorker now ks wm) =
    map_option worker_score (ChooseBestWorker now ks' wm)"
proof -
  have "set (GetOnlineWorkers now ks wm) = set (GetOnlineWorkers now ks' wm)"
    using assms by (auto simp: GetOnlineWorkers_def in_map_filter_iff)
  from bestworker.pick_order_independent[OF this] show ?thesis
    unfolding ChooseBestWorker_eq
    by (auto simp: map_option_case split: option.splits dest: signed_word_eqI)
qed

subsection \<open>Heartbeats and cleanup\<close>

lemma map_of_cleanupWorkers_loop:
  "map_of (cleanupWorkers_loop now ks m) k =
     (case map_of m k of
        None \<Rightarrow> None
      | Some w \<Rightarrow> if k \<in> set ks \<and> now - wk_lastHeartbeat w > heartbeatTimeout then None else Some w)"
  by (induction ks arbitrary: m) (auto split: option.splits)

lemma wf_cleanupWorkers_loop: "wf_map m \<Longrightarrow> wf_map (cleanupWorkers_loop now ks m)"
  by (induction ks arbitrary: m) (auto split: option.splits)

text \<open>C29: a tick of the cleanup removes exactly the workers whose last heartbeat is more than the
  timeout ago, in whatever order they are visited.\<close>

theorem cleanupWorkers_exact:
  assumes "set ks = set (keys (wm_workers wm))"
  shows "GetWorker k (cleanupWorkers now ks wm) = Some w \<longleftrightarrow>
    GetWorker k wm = Some w \<and> now - wk_lastHeartbeat w \<le> heartbeatTimeout"
  using assms
  by (auto simp: GetWorker_def cleanupWorkers_def map_of_cleanupWorkers_loop in_keys_iff
      split: option.splits if_splits)

text \<open>A heartbeat keeps a worker. After a heartbeat at time \<open>t\<close> of a worker registered as online,
  it is found online at every later time within the timeout, and no cleanup up to and at the timeout
  removes it.\<close>

lemma Heartbeat_keeps_online:
  assumes "GetWorker k wm = Some w" and "wk_status w = WorkerStatusOnline"
    and "Heartbeat t k wm = (ok, wm')"
  shows "ok \<and> (\<exists>w'. GetWorker k wm' = Some w' \<and> wk_routers w' = wk_routers w
    \<and> (\<forall>now. now < t + heartbeatTimeout \<longrightarrow> worker_online now w')
    \<and> (\<forall>now ks. now \<le> t + heartbeatTimeout \<longrightarrow> GetWorker k (cleanupWorkers now ks wm') = Some w'))"
  using assms
  by (auto simp: Heartbeat_def GetWorker_def worker_online_def cleanupWorkers_def
      map_of_cleanupWorkers_loop)

subsection \<open>Routers of a worker\<close>

text \<open>Closing a room's router undoes opening it: after \<^verbatim>\<open>AddRouter\<close> of a router the worker did not
  have, \<^verbatim>\<open>RemoveRouter\<close> succeeds and restores the manager, the router count included, also when the
  count wraps around.\<close>

lemma RemoveRouter_AddRouter:
  assumes "GetWorker k wm = Some w" and "rid \<notin> set (wk_routers w)"
  shows "fst (AddRouter k rid wm) \<and> RemoveRouter k rid (snd (AddRouter k rid wm)) = (True, wm)"
proof -
  have "AList.update k w (wm_workers wm) = wm_workers wm"
    using assms(1) by (simp add: GetWorker_def update_triv)
  with assms show ?thesis
    by (simp add: AddRouter_def RemoveRouter_def GetWorker_def)
qed

text \<open>The count of routers can wrap below zero. \<^verbatim>\<open>UpdateWorkerStats\<close> overwrites the count with
  the number the worker last reported, so closing a router the worker reported as none makes the
  count 4294967295 and the score fall below -4294000000.\<close>

lemma RemoveRouter_wraps:
  assumes "GetWorker k wm = Some w" and "rid \<in> set (wk_routers w)"
  shows "\<exists>w'. GetWorker k (snd (RemoveRouter k rid (snd (UpdateWorkerStats t k 0 cpu mem wm)))) = Some w'
    \<and> wk_routerCount w' = 4294967295 \<and> sint (worker_score w') < - 4294000000"
proof -
  let ?w = "w\<lparr>wk_routerCount := - 1, wk_cpuUsage := cpu, wk_memoryUsage := mem,
    wk_lastHeartbeat := t, wk_routers := removeAll rid (wk_routers w)\<rparr>"
  have w': "GetWorker k (snd (RemoveRouter k rid (snd (UpdateWorkerStats t k 0 cpu mem wm)))) = Some ?w"
    using assms by (simp add: UpdateWorkerStats_def RemoveRouter_def GetWorker_def)
  have "uint (wk_routerCount ?w * 10) = 4294967286" by simp
  then have "sint (worker_score ?w) = 1000 - 4294967286 - uint cpu - uint mem div 2"
    by (simp add: sint_worker_score)
  moreover have "0 \<le> uint cpu" and "0 \<le> uint mem div 2" by simp_all
  ultimately have "sint (worker_score ?w) < - 4294000000" by linarith
  with w' show ?thesis by auto
qed

subsection \<open>The manager as a state machine\<close>

text \<open>Any interleaving of the manager's atomic methods, from the empty manager.\<close>

inductive wm_step :: "WorkerManager \<Rightarrow> WorkerManager \<Rightarrow> bool" where
  register: "wm_step wm (snd (RegisterWorker now k ip port udp wm))"
| stats: "wm_step wm (snd (UpdateWorkerStats now k rc cpu mem wm))"
| heartbeat: "wm_step wm (snd (Heartbeat now k wm))"
| remove: "wm_step wm (RemoveWorker k wm)"
| cleanup: "wm_step wm (cleanupWorkers now ks wm)"
| add_router: "wm_step wm (snd (AddRouter k rid wm))"
| remove_router: "wm_step wm (snd (RemoveRouter k rid wm))"

definition worker_ok :: "string \<Rightarrow> Worker \<Rightarrow> bool" where
  "worker_ok k w \<longleftrightarrow> wk_workerId w = k \<and> wk_status w = WorkerStatusOnline \<and> distinct (wk_routers w)"

definition wm_ok :: "WorkerManager \<Rightarrow> bool" where
  "wm_ok wm \<longleftrightarrow> wf_map (wm_workers wm) \<and>
     (\<forall>k w. map_of (wm_workers wm) k = Some w \<longrightarrow> worker_ok k w)"

lemma wm_ok_store:
  assumes "wm_ok wm" and "worker_ok k w"
  shows "wm_ok (wm\<lparr>wm_workers := AList.update k w (wm_workers wm)\<rparr>)"
  using assms gm.all_store[of "wm_workers wm" worker_ok k w] by (auto simp: wm_ok_def)

lemma wm_ok_workerD: "wm_ok wm \<Longrightarrow> map_of (wm_workers wm) k = Some w \<Longrightarrow> worker_ok k w"
  by (simp add: wm_ok_def)

lemma worker_ok_simps [simp]:
  "worker_ok k (w\<lparr>wk_lastHeartbeat := t\<rparr>) = worker_ok k w"
  "worker_ok k (w\<lparr>wk_routerCount := a, wk_cpuUsage := b, wk_memoryUsage := c\<rparr>) = worker_ok k w"
  by (simp_all add: worker_ok_def)

lemma wm_ok_RegisterWorker: "wm_ok wm \<Longrightarrow> wm_ok (snd (RegisterWorker now k ip port udp wm))"
  using wm_ok_workerD[of wm k]
  by (auto simp: RegisterWorker_def Let_def worker_ok_def intro!: wm_ok_store split: option.split)

lemma wm_ok_UpdateWorkerStats: "wm_ok wm \<Longrightarrow> wm_ok (snd (UpdateWorkerStats now k rc cpu mem wm))"
  by (auto simp: UpdateWorkerStats_def intro!: wm_ok_store dest: wm_ok_workerD split: option.split)

lemma wm_ok_Heartbeat: "wm_ok wm \<Longrightarrow> wm_ok (snd (Heartbeat now k wm))"
  by (auto simp: Heartbeat_def intro!: wm_ok_store dest: wm_ok_workerD split: option.split)

lemma wm_ok_RemoveWorker: "wm_ok wm \<Longrightarrow> wm_ok (RemoveWorker k wm)"
  by (auto simp: RemoveWorker_def wm_ok_def split: option.split)

lemma wm_ok_cleanupWorkers: "wm_ok wm \<Longrightarrow> wm_ok (cleanupWorkers now ks wm)"
  by (auto simp: cleanupWorkers_def wm_ok_def wf_cleanupWorkers_loop map_of_cleanupWorkers_loop
      split: option.splits if_splits)

lemma wm_ok_AddRouter: "wm_ok wm \<Longrightarrow> wm_ok (snd (AddRouter k rid wm))"
  using wm_ok_workerD[of wm k]
  by (auto simp: AddRouter_def GetWorker_def worker_ok_def intro!: wm_ok_store split: option.split)

lemma wm_ok_RemoveRouter: "wm_ok wm \<Longrightarrow> wm_ok (snd (RemoveRouter k rid wm))"
  using wm_ok_workerD[of wm k]
  by (auto simp: RemoveRouter_def GetWorker_def worker_ok_def distinct_removeAll
      intro!: wm_ok_store split: option.split)

lemmas wm_ok_ops = wm_ok_RegisterWorker wm_ok_UpdateWorkerStats wm_ok_Heartbeat
  wm_ok_RemoveWorker wm_ok_cleanupWorkers wm_ok_AddRouter wm_ok_RemoveRouter

interpretation wmsys: invariant_system "\<lambda>wm. wm = NewWorkerManager" wm_step wm_ok
proof (unfold_locales, goal_cases)
  case (1 wm)
  then show ?case by (simp add: wm_ok_def NewWorkerManager_def)
next
  case (2 wm wm')
  then show ?case by (cases rule: wm_step.cases) (auto intro: wm_ok_ops)
qed

text \<open>C28. In every state the manager can reach by its methods, each worker in the table is stored under its own id and has
  the status online: what is marked offline has left the table. So the workers \<^verbatim>\<open>GetOnlineWorkers\<close> offers are exactly
  those of the table whose last heartbeat is less than the timeout ago.\<close>

theorem WorkerManager_invariant:
  assumes "reach (\<lambda>wm. wm = NewWorkerManager) wm_step wm" and "set ks = set (keys (wm_workers wm))"
  shows "(\<forall>k w. GetWorker k wm = Some w \<longrightarrow> wk_workerId w = k \<and> wk_status w = WorkerStatusOnline) \<and>
    set (GetOnlineWorkers now ks wm) = {w. GetWorker (wk_workerId w) wm = Some w \<and> now - wk_lastHeartbeat w < heartbeatTimeout}"
proof -
  have ok: "wk_workerId w = k \<and> wk_status w = WorkerStatusOnline" if "GetWorker k wm = Some w" for k w
    using wmsys.reach_invar[OF assms(1)] that by (auto simp: wm_ok_def worker_ok_def GetWorker_def)
  then show ?thesis by (auto simp: set_GetOnlineWorkers[OF assms(2)] worker_online_def)
qed

subsection \<open>Witnesses\<close>

definition sample_wm :: WorkerManager where
  "sample_wm = snd (RegisterWorker 0 ''w1'' ''10.0.0.1'' 4000 True
     (snd (RegisterWorker 0 ''w2'' ''10.0.0.2'' 4000 True NewWorkerManager)))"

definition sample_worker :: "string \<Rightarrow> string \<Rightarrow> Worker" where
  "sample_worker k ip = \<lparr>wk_workerId = k, wk_publicIp = ip, wk_publicPort = 4000,
     wk_useUdp = True, wk_status = WorkerStatusOnline, wk_routerCount = 0, wk_cpuUsage = 0,
     wk_memoryUsage = 0, wk_lastHeartbeat = 0, wk_routers = []\<rparr>"

lemma sample_wm_eq:
  "sample_wm = \<lparr>wm_workers = [(''w2'', sample_worker ''w2'' ''10.0.0.2''),
     (''w1'', sample_worker ''w1'' ''10.0.0.1'')]\<rparr>"
  by (simp add: sample_wm_def RegisterWorker_def NewWorkerManager_def sample_worker_def Let_def)

lemma sample_wm_GetWorker: "GetWorker ''w1'' sample_wm = Some (sample_worker ''w1'' ''10.0.0.1'')"
  by (simp add: sample_wm_eq GetWorker_def)

theorem worker_score_exact_witness: "sint (worker_score (sample_worker ''w1'' ''ip'')) = 1000"
  using worker_score_exact[of "sample_worker ''w1'' ''ip''"] by (simp add: sample_worker_def)

theorem ChooseBestWorker_best_witness:
  "ChooseBestWorker 0 [''w1'', ''w2''] sample_wm \<noteq> None"
proof -
  have ks: "set [''w1'', ''w2''] = set (keys (wm_workers sample_wm))"
    by (auto simp: sample_wm_eq keys_def)
  have "worker_online 0 (sample_worker ''w1'' ''10.0.0.1'')"
    by (simp add: worker_online_def sample_worker_def heartbeatTimeout_def)
  with ChooseBestWorker_best[OF ks, of 0] sample_wm_GetWorker show ?thesis
    by (auto split: option.splits)
qed

theorem cleanupWorkers_exact_witness:
  "GetWorker ''w1'' (cleanupWorkers 60000000000 [''w1'', ''w2''] sample_wm)
     = Some (sample_worker ''w1'' ''10.0.0.1'')"
  using cleanupWorkers_exact[of "[''w1'', ''w2'']" sample_wm "''w1''" 60000000000
      "sample_worker ''w1'' ''10.0.0.1''"] sample_wm_GetWorker
  by (auto simp: sample_wm_eq keys_def sample_worker_def heartbeatTimeout_def)

lemma sample_wm_reach: "reach (\<lambda>wm. wm = NewWorkerManager) wm_step sample_wm"
proof -
  have "reach (\<lambda>wm. wm = NewWorkerManager) wm_step NewWorkerManager" by (rule reach_init) simp
  then show ?thesis unfolding sample_wm_def by (blast intro: reach_step wm_step.register)
qed

theorem WorkerManager_invariant_witness:
  "sample_worker ''w1'' ''10.0.0.1'' \<in> set (GetOnlineWorkers 0 [''w1'', ''w2''] sample_wm) \<and>
   set (GetOnlineWorkers 60000000000 [''w1'', ''w2''] sample_wm) = {}"
proof -
  have ks: "set [''w1'', ''w2''] = set (keys (wm_workers sample_wm))" by (auto simp: sample_wm_eq keys_def)
  have beat: "wk_lastHeartbeat w = 0" if "GetWorker k sample_wm = Some w" for k w
    using that by (auto simp: sample_wm_eq GetWorker_def sample_worker_def split: if_splits)
  have "sample_worker ''w1'' ''10.0.0.1'' \<in> set (GetOnlineWorkers 0 [''w1'', ''w2''] sample_wm)"
    using WorkerManager_invariant[OF sample_wm_reach ks, of 0] sample_wm_GetWorker
    by (simp add: sample_worker_def heartbeatTimeout_def)
  moreover have "set (GetOnlineWorkers 60000000000 [''w1'', ''w2''] sample_wm) = {}"
    using WorkerManager_invariant[OF sample_wm_reach ks, of 60000000000] beat by (auto simp: heartbeatTimeout_def)
  ultimately show ?thesis by blast
qed

end
