(* ===== verification/Proto.thy ===== *)
theory Proto
  imports Worker_Manager
begin

section \<open>Messages between the server and the workers (singal.pb.go)\<close>

text \<open>
  One record per message of the protocol with its fields in the order of the generated struct, and
  the two envelopes. A pointer field that the generated code leaves nil is an option; the payload
  of an envelope is a sum whose missing value is the nil interface. The getters of the payload
  return nil for any other kind of payload.
\<close>

datatype TransportDirection = DIRECTION_AUTO | DIRECTION_SEND | DIRECTION_RECV | DIRECTION_BOTH

datatype MediaKind = MEDIA_KIND_AUDIO | MEDIA_KIND_VIDEO

record ListenInfo =
  li_Protocol :: string
  li_Ip :: string
  li_Port :: u32
  li_AnnouncedAddress :: string
  li_AnnouncedIp :: string
  li_AnnouncedPort :: u32
  li_Tcp :: bool
  li_Ipv6Only :: bool
  li_UdpReusePort :: bool
  li_RecvBufferSize :: u32
  li_SendBufferSize :: u32

record RouterRequest =
  rq_WorkerId :: string
  rq_RoomId :: string
  rq_ServerId :: string
  rq_Method :: string
  rq_Info :: "ListenInfo option"

record RouterResponse =
  rs_RouterId :: string
  rs_Success :: bool
  rs_ErrorDetail :: string

record DtlsFingerprint =
  df_Algorithm :: string
  df_Value :: string

record IceCandidate =
  ic_Foundation :: string
  ic_Priority :: u32
  ic_Ip :: string
  ic_Protocol :: string
  ic_Port :: u32
  ic_Type :: string
  ic_TcpType :: string

record CreateTransportRequest =
  tq_WorkerId :: string
  tq_RouterId :: string
  tq_TransportId :: string
  tq_Direction :: TransportDirection
  tq_EnableUdp :: bool
  tq_EnableTcp :: bool
  tq_PreferUdp :: bool
  tq_PreferTcp :: bool

record CreateTransportResponse =
  ts_TransportId :: string
  ts_IceUfrag :: string
  ts_IcePwd :: string
  ts_IceCandidates :: "IceCandidate list"
  ts_DtlsFingerprints :: "DtlsFingerprint list"
  ts_DtlsRole :: string
  ts_Success :: bool
  ts_ErrorDetail :: string

record ConnectTransportRequest =
  xq_WorkerId :: string
  xq_RouterId :: string
  xq_TransportId :: string
  xq_DtlsRole :: string
  xq_DtlsFingerprints :: "DtlsFingerprint list"

record ConnectTransportResponse =
  xs_TransportId :: string
  xs_Success :: bool
  xs_ErrorDetail :: string

record pb_Rtcp =
  pb_Cname :: string
  pb_ReducedSize :: bool

record pb_RtcpFeedback =
  pb_fb_Type :: string
  pb_fb_Parameter :: string

record Codec =
  co_MimeType :: string
  co_PayloadType :: u32
  co_ClockRate :: u32
  co_Channels :: u32
  co_Parameters :: string
  co_RtcpFeedbacks :: "pb_RtcpFeedback list"

record HeadExtension =
  pb_he_Uri :: string
  pb_he_Id :: u32
  pb_he_Encrypt :: bool
  pb_he_Parameters :: string

record Encoding =
  en_Active :: bool
  en_ScalabilityMode :: string
  en_ScaleResolutionDownBy :: u32
  en_MaxBitrate :: u32
  en_Rid :: string
  en_Dtx :: bool
  en_Ssrc :: u32
  en_HasRtx :: bool
  en_RtxSsrc :: u32

record PayloadMap =
  pm_PayloadType :: u32
  pm_MappedPayloadType :: u32

record EncodingMap =
  em_Rid :: string
  em_Ssrc :: u32
  em_MappedSsrc :: u32

record RtpMapping =
  rm_PayloadMap :: "PayloadMap list"
  rm_EncodingMap :: "EncodingMap list"

record RtpParameters =
  rp_Mid :: string
  rp_Msid :: string
  rp_Rtcp :: pb_Rtcp
  rp_Codecs :: "Codec list"
  rp_HeadExtensions :: "HeadExtension list"
  rp_Encodings :: "Encoding list"
  rp_RtpMapping :: RtpMapping

record ProduceRequest =
  dq_RouterId :: string
  dq_TransportId :: string
  dq_ProducerId :: string
  dq_Kind :: string
  dq_AppData :: string
  dq_Method :: string
  dq_RtpParameters :: "RtpParameters option"

record ProduceResponse =
  ds_ProducerId :: string
  ds_Success :: bool
  ds_ErrorDetail :: string

record ConsumeRequest =
  oq_RouterId :: string
  oq_TransportId :: string
  oq_ProducerId :: string
  oq_ConsumerId :: string
  oq_Kind :: string
  oq_AppData :: string
  oq_Method :: string
  oq_RtpParameters :: "RtpParameters option"

record ConsumeResponse =
  os_ConsumerId :: string
  os_ProducerId :: string
  os_Kind :: MediaKind
  os_Success :: bool
  os_ErrorDetail :: string

record WorkerRegister =
  wr_WorkerId :: string
  wr_PublicIp :: string
  wr_PublicPort :: u32
  wr_UseUdp :: bool
  wr_RouterCount :: u32
  wr_CpuUsage :: u32
  wr_MemoryUsage :: u32

record WorkerKeepalive =
  ka_WorkerId :: string
  ka_RouterCount :: u32
  ka_CpuUsage :: u32
  ka_MemoryUsage :: u32

record WorkerRegisterResponse =
  ws_WorkerId :: string
  ws_Success :: bool
  ws_ErrorDetail :: string

record WorkerKeepaliveResponse =
  ks_Success :: bool

datatype w2s_payload =
    CreateRouterRes RouterResponse
  | CreateTransportRes CreateTransportResponse
  | ConnectTransportRes ConnectTransportResponse
  | ProduceRes ProduceResponse
  | ConsumerRes ConsumeResponse
  | WorkerRegisterMsg WorkerRegister
  | WorkerKeepaliveMsg WorkerKeepalive
  | StatsPush string

record WorkerToServer =
  w2s_SeqId :: u64
  w2s_Payload :: "w2s_payload option"

datatype s2w_payload =
    CreateRouterReq RouterRequest
  | CreateTransportReq CreateTransportRequest
  | ConnectTransportReq ConnectTransportRequest
  | ProduceReq ProduceRequest
  | ConsumerReq ConsumeRequest
  | GlobalNotification string
  | WorkerRegisterRes WorkerRegisterResponse
  | WorkerKeepaliveRes WorkerKeepaliveResponse

record ServerToWorker =
  s2w_SeqId :: u64
  s2w_Payload :: s2w_payload

definition GetCreateRouterRes :: "WorkerToServer \<Rightarrow> RouterResponse option" where
  "GetCreateRouterRes x = (case w2s_Payload x of Some (CreateRouterRes r) \<Rightarrow> Some r | _ \<Rightarrow> None)"

definition GetCreateTransportRes :: "WorkerToServer \<Rightarrow> CreateTransportResponse option" where
  "GetCreateTransportRes x = (case w2s_Payload x of Some (CreateTransportRes r) \<Rightarrow> Some r | _ \<Rightarrow> None)"

definition GetConnectTransportRes :: "WorkerToServer \<Rightarrow> ConnectTransportResponse option" where
  "GetConnectTransportRes x = (case w2s_Payload x of Some (ConnectTransportRes r) \<Rightarrow> Some r | _ \<Rightarrow> None)"

definition GetProduceRes :: "WorkerToServer \<Rightarrow> ProduceResponse option" where
  "GetProduceRes x = (case w2s_Payload x of Some (ProduceRes r) \<Rightarrow> Some r | _ \<Rightarrow> None)"

definition GetConsumerRes :: "WorkerToServer \<Rightarrow> ConsumeResponse option" where
  "GetConsumerRes x = (case w2s_Payload x of Some (ConsumerRes r) \<Rightarrow> Some r | _ \<Rightarrow> None)"

text \<open>The five kinds of payload that \<^verbatim>\<open>Sync\<close> hands to a waiting request.\<close>

definition is_reply :: "WorkerToServer \<Rightarrow> bool" where
  "is_reply m = (case w2s_Payload m of
      Some (CreateRouterRes _) \<Rightarrow> True | Some (CreateTransportRes _) \<Rightarrow> True
    | Some (ConnectTransportRes _) \<Rightarrow> True | Some (ProduceRes _) \<Rightarrow> True
    | Some (ConsumerRes _) \<Rightarrow> True | _ \<Rightarrow> False)"

end
