(* ===== verification/Rtc_Server.thy ===== *)
theory Rtc_Server
  imports Proto
begin

section \<open>The gRPC server for the workers (grpcServer.go)\<close>

text \<open>
  State and methods of \<^verbatim>\<open>WebRtcServer\<close>: the table of worker streams, the correlation of requests and
  replies by sequence number, and the requests for routers, transports, producers and consumers.
  A \<^verbatim>\<open>WorkerStream\<close>, a reply channel and a decoded produce request are shared by pointer, so each lives
  in a store under an address. One running call of \<^verbatim>\<open>Sync\<close> is a session: its local variables
  \<^verbatim>\<open>workerID\<close> and \<^verbatim>\<open>ws\<close>, under the number of its stream. What becomes of a message sent on a stream is an answer of the
  environment, \<open>wire\<close>: \<^verbatim>\<open>Send\<close> fails, or it returns and the caller waits, if it is a request, while the streams of the
  workers handle any events, in the order \<open>Sent\<close> lists them. \<^verbatim>\<open>Send\<close> itself may wait until the flow control of gRPC lets the
  message pass; the model goes on from where it returns, and a \<^verbatim>\<open>Send\<close> that never returns is outside of it.
\<close>

record WorkerStream =
  st_stream :: nat
  st_pending :: "(u64, nat) gomap"

record sync_session =
  ses_workerID :: string
  ses_ws :: "nat option"

datatype recv_event = RecvEOF | RecvErr string | RecvMsg WorkerToServer

datatype wire_event = SendFails string | Sent "(nat \<times> recv_event) list"

record rtc_state = env_state +
  rtc_wm :: WorkerManager
  rtc_workers :: "(string, nat) gomap"
  rtc_nextID :: u64
  rtc_streams :: "(nat, WorkerStream) gomap"
  rtc_chans :: "(nat, WorkerToServer list) gomap"
  rtc_sessions :: "(nat, sync_session) gomap"
  rtc_sent :: "(nat \<times> ServerToWorker) list"
  rtc_params :: "(nat, ProduceReqData) gomap"
  wire :: "nat \<Rightarrow> nat \<Rightarrow> ServerToWorker \<Rightarrow> wire_event"

subsection \<open>The worker manager and the streams\<close>

text \<open>\<^verbatim>\<open>NewWebRtcServer\<close> with \<^verbatim>\<open>InitWorkerManager\<close>: a new manager and a server without workers, its counter at zero.\<close>

definition InitWorkerManager :: "'z rtc_state_scheme \<Rightarrow> 'z rtc_state_scheme" where
  "InitWorkerManager s = s\<lparr>rtc_wm := NewWorkerManager\<rparr>"

definition NewWebRtcServer :: "'z rtc_state_scheme \<Rightarrow> 'z rtc_state_scheme" where
  "NewWebRtcServer s = (InitWorkerManager s)\<lparr>rtc_workers := [], rtc_nextID := 0\<rparr>"

definition run_wm :: "(WorkerManager \<Rightarrow> 'a \<times> WorkerManager) \<Rightarrow> ('a, 'z rtc_state_scheme) go" where
  "run_wm f s = Ret (fst (f (rtc_wm s))) (s\<lparr>rtc_wm := snd (f (rtc_wm s))\<rparr>)"

definition stream_Send :: "nat \<Rightarrow> ServerToWorker \<Rightarrow> (wire_event, 'z rtc_state_scheme) go" where
  "stream_Send sid m s =
     (let e = wire s 0 sid m; s' = s\<lparr>wire := \<lambda>i. wire s (Suc i)\<rparr> in
      case e of
        SendFails err \<Rightarrow> Ret e s'
      | _ \<Rightarrow> Ret e (s'\<lparr>rtc_sent := rtc_sent s @ [(sid, m)]\<rparr>))"

definition forget_worker :: "string \<Rightarrow> (unit, 'z rtc_state_scheme) go" where
  "forget_worker workerID =
     (if workerID \<noteq> ''''
      then wr (\<lambda>s. s\<lparr>rtc_wm := RemoveWorker workerID (rtc_wm s),
                    rtc_workers := AList.delete workerID (rtc_workers s)\<rparr>)
      else ret ())"

subsection \<open>Sync\<close>

text \<open>
  Handing a reply to the request that waits for it: send on the buffered channel of capacity one,
  then delete the pending entry, all under the lock of the stream. A send on a full channel blocks.
\<close>

definition deliver_reply :: "nat \<Rightarrow> WorkerToServer \<Rightarrow> (unit, 'z rtc_state_scheme) go" where
  "deliver_reply wsp msg s =
     (case map_of (rtc_streams s) wsp of
        None \<Rightarrow> Panic NilDeref
      | Some ws \<Rightarrow>
          (case map_of (st_pending ws) (w2s_SeqId msg) of
             None \<Rightarrow> Ret () s
           | Some ch \<Rightarrow>
               (case map_of (rtc_chans s) ch of
                  None \<Rightarrow> Stuck s
                | Some buf \<Rightarrow>
                    if buf \<noteq> [] then Stuck s
                    else Ret () (s\<lparr>rtc_chans := AList.update ch (buf @ [msg]) (rtc_chans s),
                           rtc_streams := AList.update wsp
                             (ws\<lparr>st_pending := AList.delete (w2s_SeqId msg) (st_pending ws)\<rparr>)
                             (rtc_streams s)\<rparr>))))"

datatype sync_next = SyncContinue sync_session | SyncReturn "string option"

definition sync_register ::
  "nat \<Rightarrow> sync_session \<Rightarrow> u64 \<Rightarrow> WorkerRegister \<Rightarrow> (sync_next, 'z rtc_state_scheme) go" where
  "sync_register sid ses seq p =
     bnd (forget_worker (ses_workerID ses)) (\<lambda>_.
     bnd time_Now (\<lambda>now.
     bnd (run_wm (RegisterWorker now (wr_WorkerId p) (wr_PublicIp p) (wr_PublicPort p) (wr_UseUdp p))) (\<lambda>worker.
     bnd (rd (\<lambda>s. fresh (rtc_streams s))) (\<lambda>wsp.
     bnd (wr (\<lambda>s. s\<lparr>rtc_streams := AList.update wsp \<lparr>st_stream = sid, st_pending = []\<rparr> (rtc_streams s),
                    rtc_workers := AList.update (wr_WorkerId p) wsp (rtc_workers s)\<rparr>)) (\<lambda>_.
     bnd (stream_Send sid \<lparr>s2w_SeqId = seq, s2w_Payload = WorkerRegisterRes
            \<lparr>ws_WorkerId = wr_WorkerId p, ws_Success = True, ws_ErrorDetail = ''''\<rparr>\<rparr>) (\<lambda>sent.
     case sent of
       SendFails err \<Rightarrow> ret (SyncReturn (Some err))
     | _ \<Rightarrow> ret (SyncContinue \<lparr>ses_workerID = wr_WorkerId p, ses_ws = Some wsp\<rparr>)))))))"

definition sync_keepalive ::
  "sync_session \<Rightarrow> u64 \<Rightarrow> WorkerKeepalive \<Rightarrow> (sync_next, 'z rtc_state_scheme) go" where
  "sync_keepalive ses seq p =
     bnd time_Now (\<lambda>now.
     bnd (run_wm (Heartbeat now (ka_WorkerId p))) (\<lambda>success.
     bnd (if success \<and> ses_ws ses \<noteq> None
          then bnd time_Now (\<lambda>now2. run_wm (UpdateWorkerStats now2 (ka_WorkerId p)
                 (ka_RouterCount p) (ka_CpuUsage p) (ka_MemoryUsage p)))
          else ret False) (\<lambda>_.
     bnd (case ses_ws ses of
            None \<Rightarrow> ret (Sent [])
          | Some wsp \<Rightarrow>
              bnd (rd (\<lambda>s. map_of (rtc_streams s) wsp)) (\<lambda>wso.
              case wso of
                None \<Rightarrow> panic NilDeref
              | Some ws \<Rightarrow> stream_Send (st_stream ws) \<lparr>s2w_SeqId = seq,
                  s2w_Payload = WorkerKeepaliveRes \<lparr>ks_Success = success\<rparr>\<rparr>)) (\<lambda>_.
     ret (SyncContinue (ses\<lparr>ses_workerID := ka_WorkerId p\<rparr>))))))"

definition sync_iteration ::
  "nat \<Rightarrow> sync_session \<Rightarrow> recv_event \<Rightarrow> (sync_next, 'z rtc_state_scheme) go" where
  "sync_iteration sid ses ev =
     (case ev of
        RecvEOF \<Rightarrow> bnd (forget_worker (ses_workerID ses)) (\<lambda>_. ret (SyncReturn None))
      | RecvErr err \<Rightarrow> bnd (forget_worker (ses_workerID ses)) (\<lambda>_. ret (SyncReturn (Some err)))
      | RecvMsg msg \<Rightarrow>
          if is_reply msg
          then bnd (case ses_ws ses of None \<Rightarrow> ret () | Some wsp \<Rightarrow> deliver_reply wsp msg)
                 (\<lambda>_. ret (SyncContinue ses))
          else (case w2s_Payload msg of
                  Some (WorkerRegisterMsg p) \<Rightarrow> sync_register sid ses (w2s_SeqId msg) p
                | Some (WorkerKeepaliveMsg p) \<Rightarrow> sync_keepalive ses (w2s_SeqId msg) p
                | _ \<Rightarrow> ret (SyncContinue ses)))"

text \<open>One turn of the loop of \<^verbatim>\<open>Sync\<close> for the call that serves stream \<open>sid\<close>.\<close>

definition Sync :: "nat \<Rightarrow> recv_event \<Rightarrow> (unit, 'z rtc_state_scheme) go" where
  "Sync sid ev =
     bnd (rd (\<lambda>s. map_of (rtc_sessions s) sid)) (\<lambda>so.
     case so of
       None \<Rightarrow> ret ()
     | Some ses \<Rightarrow>
         bnd (sync_iteration sid ses ev) (\<lambda>nxt.
         case nxt of
           SyncContinue ses' \<Rightarrow> wr (\<lambda>s. s\<lparr>rtc_sessions := AList.update sid ses' (rtc_sessions s)\<rparr>)
         | SyncReturn _ \<Rightarrow> wr (\<lambda>s. s\<lparr>rtc_sessions := AList.delete sid (rtc_sessions s)\<rparr>)))"

definition Sync_start :: "nat \<Rightarrow> (unit, 'z rtc_state_scheme) go" where
  "Sync_start sid =
     wr (\<lambda>s. s\<lparr>rtc_sessions := AList.update sid \<lparr>ses_workerID = '''', ses_ws = None\<rparr> (rtc_sessions s)\<rparr>)"

subsection \<open>sendRequest\<close>

definition getWorkerStream :: "string \<Rightarrow> (string + nat, 'z rtc_state_scheme) go" where
  "getWorkerStream workerId =
     rd (\<lambda>s. case map_of (rtc_workers s) workerId of
               None \<Rightarrow> Inl ''worker offline'' | Some wsp \<Rightarrow> Inr wsp)"

definition set_pending :: "nat \<Rightarrow> ((u64, nat) gomap \<Rightarrow> (u64, nat) gomap) \<Rightarrow> (unit, 'z rtc_state_scheme) go" where
  "set_pending wsp f s =
     (case map_of (rtc_streams s) wsp of
        None \<Rightarrow> Panic NilDeref
      | Some ws \<Rightarrow> Ret () (s\<lparr>rtc_streams :=
          AList.update wsp (ws\<lparr>st_pending := f (st_pending ws)\<rparr>) (rtc_streams s)\<rparr>))"

text \<open>
  Up to the \<^verbatim>\<open>select\<close>, in the steps between which other goroutines run: take the next number, register a new channel under
  the lock of the stream, send the request, and, when that fails, remove the channel under the lock again.
\<close>

definition sendRequest_number :: "(u64, 'z rtc_state_scheme) go" where
  "sendRequest_number = bnd (wr (\<lambda>s. s\<lparr>rtc_nextID := rtc_nextID s + 1\<rparr>)) (\<lambda>_. rd rtc_nextID)"

definition sendRequest_register :: "nat \<Rightarrow> u64 \<Rightarrow> (nat, 'z rtc_state_scheme) go" where
  "sendRequest_register wsp seqID =
     bnd (rd (\<lambda>s. fresh (rtc_chans s))) (\<lambda>resCh.
     bnd (wr (\<lambda>s. s\<lparr>rtc_chans := AList.update resCh [] (rtc_chans s)\<rparr>)) (\<lambda>_.
     bnd (set_pending wsp (AList.update seqID resCh)) (\<lambda>_.
     ret resCh)))"

definition sendRequest_send :: "nat \<Rightarrow> u64 \<Rightarrow> s2w_payload \<Rightarrow> (wire_event, 'z rtc_state_scheme) go" where
  "sendRequest_send wsp seqID payload =
     bnd (rd (\<lambda>s. map_of (rtc_streams s) wsp)) (\<lambda>wso.
     case wso of
       None \<Rightarrow> panic NilDeref
     | Some ws \<Rightarrow> stream_Send (st_stream ws) \<lparr>s2w_SeqId = seqID, s2w_Payload = payload\<rparr>)"

definition sendRequest_begin ::
  "nat \<Rightarrow> s2w_payload \<Rightarrow> (u64 \<times> nat \<times> wire_event, 'z rtc_state_scheme) go" where
  "sendRequest_begin wsp payload =
     bnd sendRequest_number (\<lambda>seqID.
     bnd (sendRequest_register wsp seqID) (\<lambda>resCh.
     bnd (sendRequest_send wsp seqID payload) (\<lambda>sent.
     bnd (case sent of
            SendFails _ \<Rightarrow> set_pending wsp (AList.delete seqID)
          | Sent _ \<Rightarrow> ret ()) (\<lambda>_.
     ret (seqID, resCh, sent)))))"

lemmas sendRequest_begin_parts = sendRequest_begin_def sendRequest_number_def sendRequest_register_def sendRequest_send_def

text \<open>The two cases of the \<^verbatim>\<open>select\<close>: the reply is in the channel, or the timer fires.\<close>

definition sendRequest_take :: "nat \<Rightarrow> (WorkerToServer option, 'z rtc_state_scheme) go" where
  "sendRequest_take resCh s =
     (case map_of (rtc_chans s) resCh of
        Some (m # buf) \<Rightarrow> Ret (Some m) (s\<lparr>rtc_chans := AList.update resCh buf (rtc_chans s)\<rparr>)
      | _ \<Rightarrow> Ret None s)"

definition sendRequest_timeout :: "nat \<Rightarrow> u64 \<Rightarrow> (unit, 'z rtc_state_scheme) go" where
  "sendRequest_timeout wsp seqID = set_pending wsp (AList.delete seqID)"

definition sendRequest :: "string \<Rightarrow> s2w_payload \<Rightarrow> (string + WorkerToServer, 'z rtc_state_scheme) go" where
  "sendRequest workerId payload =
     bnd (getWorkerStream workerId) (\<lambda>r.
     case r of
       Inl err \<Rightarrow> ret (Inl err)
     | Inr wsp \<Rightarrow>
         bnd (sendRequest_begin wsp payload) (\<lambda>(seqID, resCh, sent).
         case sent of
           SendFails err \<Rightarrow> ret (Inl err)
         | Sent evs \<Rightarrow>
             bnd (for_each (\<lambda>(sid, ev). Sync sid ev) evs) (\<lambda>_.
             bnd (sendRequest_take resCh) (\<lambda>got.
             case got of
               Some resMsg \<Rightarrow> ret (Inr resMsg)
             | None \<Rightarrow> bnd (sendRequest_timeout wsp seqID) (\<lambda>_. ret (Inl ''request timeout''))))))"

subsection \<open>The invariant of streams and channels\<close>

text \<open>
  Every registered stream and every session refers to a stream object, and the channel of a pending
  request is empty: it was made for that request and a reply removes the pending entry.
\<close>

definition streams_ok :: "'z rtc_state_scheme \<Rightarrow> bool" where
  "streams_ok s \<longleftrightarrow>
     (\<forall>w wsp. map_of (rtc_workers s) w = Some wsp \<longrightarrow> map_of (rtc_streams s) wsp \<noteq> None) \<and>
     (\<forall>sid ses wsp. map_of (rtc_sessions s) sid = Some ses \<longrightarrow> ses_ws ses = Some wsp \<longrightarrow>
        map_of (rtc_streams s) wsp \<noteq> None) \<and>
     (\<forall>wsp ws q ch. map_of (rtc_streams s) wsp = Some ws \<longrightarrow> map_of (st_pending ws) q = Some ch \<longrightarrow>
        map_of (rtc_chans s) ch = Some []) \<and>
     (\<forall>wsp ws q ch wsp' ws' q'. map_of (rtc_streams s) wsp = Some ws \<longrightarrow>
        map_of (st_pending ws) q = Some ch \<longrightarrow> map_of (rtc_streams s) wsp' = Some ws' \<longrightarrow>
        map_of (st_pending ws') q' = Some ch \<longrightarrow> wsp' = wsp \<and> q' = q)"

lemma streams_ok_workerD:
  "streams_ok s \<Longrightarrow> map_of (rtc_workers s) w = Some wsp \<Longrightarrow> \<exists>ws. map_of (rtc_streams s) wsp = Some ws"
  by (auto simp: streams_ok_def)

lemma streams_ok_sessionD:
  "streams_ok s \<Longrightarrow> map_of (rtc_sessions s) sid = Some ses \<Longrightarrow> ses_ws ses = Some wsp \<Longrightarrow>
   \<exists>ws. map_of (rtc_streams s) wsp = Some ws"
  by (auto simp: streams_ok_def)

lemma streams_ok_pendingD:
  "streams_ok s \<Longrightarrow> map_of (rtc_streams s) wsp = Some ws \<Longrightarrow> map_of (st_pending ws) q = Some ch \<Longrightarrow>
   map_of (rtc_chans s) ch = Some []"
  by (simp add: streams_ok_def)

lemma streams_ok_channelD:
  "streams_ok s \<Longrightarrow> map_of (rtc_streams s) wsp = Some ws \<Longrightarrow> map_of (st_pending ws) q = Some ch \<Longrightarrow>
   map_of (rtc_streams s) wsp' = Some ws' \<Longrightarrow> map_of (st_pending ws') q' = Some ch \<Longrightarrow>
   wsp' = wsp \<and> q' = q"
  unfolding streams_ok_def by blast

lemma streams_okI:
  assumes "\<And>w wsp. map_of (rtc_workers s) w = Some wsp \<Longrightarrow> map_of (rtc_streams s) wsp \<noteq> None"
    and "\<And>sid ses wsp. map_of (rtc_sessions s) sid = Some ses \<Longrightarrow> ses_ws ses = Some wsp \<Longrightarrow>
      map_of (rtc_streams s) wsp \<noteq> None"
    and "\<And>wsp ws q ch. map_of (rtc_streams s) wsp = Some ws \<Longrightarrow> map_of (st_pending ws) q = Some ch \<Longrightarrow>
      map_of (rtc_chans s) ch = Some []"
    and "\<And>wsp ws q ch wsp' ws' q'. map_of (rtc_streams s) wsp = Some ws \<Longrightarrow>
      map_of (st_pending ws) q = Some ch \<Longrightarrow> map_of (rtc_streams s) wsp' = Some ws' \<Longrightarrow>
      map_of (st_pending ws') q' = Some ch \<Longrightarrow> wsp' = wsp \<and> q' = q"
  shows "streams_ok s"
  unfolding streams_ok_def using assms by blast

lemma streams_ok_frame [simp]:
  "streams_ok (s\<lparr>rnd := a\<rparr>) = streams_ok s"
  "streams_ok (s\<lparr>clock := b\<rparr>) = streams_ok s"
  "streams_ok (s\<lparr>order := c\<rparr>) = streams_ok s"
  "streams_ok (s\<lparr>rtc_wm := d\<rparr>) = streams_ok s"
  "streams_ok (s\<lparr>rtc_nextID := e\<rparr>) = streams_ok s"
  "streams_ok (s\<lparr>rtc_sent := f\<rparr>) = streams_ok s"
  "streams_ok (s\<lparr>rtc_params := g\<rparr>) = streams_ok s"
  "streams_ok (s\<lparr>wire := h\<rparr>) = streams_ok s"
  by (simp_all add: streams_ok_def)

text \<open>
  \<open>sync_rel ev s s'\<close>: what handling a message of a worker may change. No stream object disappears, no
  request becomes pending, and a channel is filled only by a reply to the pending request it belongs to.
\<close>

definition pending_sub :: "'z rtc_state_scheme \<Rightarrow> 'z rtc_state_scheme \<Rightarrow> bool" where
  "pending_sub s s' \<longleftrightarrow> (\<forall>a v q c. map_of (rtc_streams s') a = Some v \<longrightarrow> map_of (st_pending v) q = Some c \<longrightarrow>
     (\<exists>w. map_of (rtc_streams s) a = Some w \<and> map_of (st_pending w) q = Some c))"

definition pending_kept :: "'z rtc_state_scheme \<Rightarrow> 'z rtc_state_scheme \<Rightarrow> bool" where
  "pending_kept s s' \<longleftrightarrow> (\<forall>a w q c. map_of (rtc_streams s) a = Some w \<longrightarrow> map_of (st_pending w) q = Some c \<longrightarrow>
     (\<exists>v. map_of (rtc_streams s') a = Some v \<and> map_of (st_pending v) q = Some c) \<or>
     (\<exists>m. map_of (rtc_chans s') c = Some [m]))"

definition chans_rel :: "recv_event \<Rightarrow> 'z rtc_state_scheme \<Rightarrow> 'z rtc_state_scheme \<Rightarrow> bool" where
  "chans_rel ev s s' \<longleftrightarrow> (\<forall>c. map_of (rtc_chans s') c = map_of (rtc_chans s) c \<or>
     (\<exists>m a w. ev = RecvMsg m \<and> is_reply m \<and> map_of (rtc_streams s) a = Some w \<and>
        map_of (st_pending w) (w2s_SeqId m) = Some c \<and> map_of (rtc_chans s') c = Some [m]))"

definition sync_rel :: "recv_event \<Rightarrow> 'z rtc_state_scheme \<Rightarrow> 'z rtc_state_scheme \<Rightarrow> bool" where
  "sync_rel ev s s' \<longleftrightarrow> streams_ok s' \<and> rtc_nextID s' = rtc_nextID s \<and>
     (\<forall>a. map_of (rtc_streams s) a \<noteq> None \<longrightarrow> map_of (rtc_streams s') a \<noteq> None) \<and>
     pending_sub s s' \<and> pending_kept s s' \<and> chans_rel ev s s'"

lemma streams_ok_shrink:
  assumes ok: "streams_ok s"
    and dom: "\<And>a. map_of (rtc_streams s) a \<noteq> None \<Longrightarrow> map_of (rtc_streams s') a \<noteq> None"
    and wk: "\<And>w a. map_of (rtc_workers s') w = Some a \<Longrightarrow>
      map_of (rtc_workers s) w = Some a \<or> map_of (rtc_streams s') a \<noteq> None"
    and se: "\<And>sid ses a. map_of (rtc_sessions s') sid = Some ses \<Longrightarrow> ses_ws ses = Some a \<Longrightarrow>
      map_of (rtc_streams s') a \<noteq> None \<or> (\<exists>ses0. map_of (rtc_sessions s) sid = Some ses0 \<and> ses_ws ses0 = Some a)"
    and pend: "pending_sub s s'"
    and ch: "\<And>a v q c. map_of (rtc_streams s') a = Some v \<Longrightarrow> map_of (st_pending v) q = Some c \<Longrightarrow>
      map_of (rtc_chans s') c = map_of (rtc_chans s) c"
  shows "streams_ok s'"
proof (rule streams_okI, goal_cases)
  case (1 w a)
  then show ?case using wk[of w a] streams_ok_workerD[OF ok, of w a] dom[of a] by auto
next
  case (2 sid ses a)
  then show ?case using se[of sid ses a] streams_ok_sessionD[OF ok, of sid _ a] dom[of a] by auto
next
  case (3 a v q c)
  then obtain w where "map_of (rtc_streams s) a = Some w" "map_of (st_pending w) q = Some c"
    using pend unfolding pending_sub_def by blast
  from streams_ok_pendingD[OF ok this] ch[OF 3] show ?case by simp
next
  case (4 a v q c a' v' q')
  obtain w where "map_of (rtc_streams s) a = Some w" "map_of (st_pending w) q = Some c"
    using pend 4(1,2) unfolding pending_sub_def by blast
  moreover obtain w' where "map_of (rtc_streams s) a' = Some w'" "map_of (st_pending w') q' = Some c"
    using pend 4(3,4) unfolding pending_sub_def by blast
  ultimately show ?case by (rule streams_ok_channelD[OF ok])
qed

lemma pending_sub_same: "rtc_streams s' = rtc_streams s \<Longrightarrow> pending_sub s s'"
  by (simp add: pending_sub_def)

lemma sync_rel_calm:
  assumes "streams_ok s" and "rtc_streams s' = rtc_streams s" and "rtc_chans s' = rtc_chans s"
    and "rtc_nextID s' = rtc_nextID s"
    and "\<And>w a. map_of (rtc_workers s') w = Some a \<Longrightarrow> map_of (rtc_workers s) w = Some a"
    and "\<And>sid ses a. map_of (rtc_sessions s') sid = Some ses \<Longrightarrow> ses_ws ses = Some a \<Longrightarrow>
      (\<exists>ses0. map_of (rtc_sessions s) sid = Some ses0 \<and> ses_ws ses0 = Some a)"
  shows "sync_rel ev s s'"
proof -
  have "streams_ok s'"
    by (rule streams_ok_shrink[OF assms(1)]) (use assms in \<open>auto intro: pending_sub_same\<close>)
  with assms(2-4) show ?thesis by (simp add: sync_rel_def pending_sub_same pending_kept_def chans_rel_def)
qed

lemma sync_rel_new_stream:
  assumes "streams_ok s"
    and st: "rtc_streams s' = AList.update (fresh (rtc_streams s)) \<lparr>st_stream = sid, st_pending = []\<rparr> (rtc_streams s)"
    and "rtc_chans s' = rtc_chans s" and "rtc_nextID s' = rtc_nextID s"
    and "\<And>w a. map_of (rtc_workers s') w = Some a \<Longrightarrow>
      map_of (rtc_workers s) w = Some a \<or> a = fresh (rtc_streams s)"
    and "\<And>sid ses a. map_of (rtc_sessions s') sid = Some ses \<Longrightarrow> ses_ws ses = Some a \<Longrightarrow>
      a = fresh (rtc_streams s) \<or> (\<exists>ses0. map_of (rtc_sessions s) sid = Some ses0 \<and> ses_ws ses0 = Some a)"
  shows "sync_rel ev s s'"
proof -
  have p: "pending_sub s s'"
    using st fresh_new[of "rtc_streams s"] by (auto simp: pending_sub_def split: if_splits)
  have "streams_ok s'"
  proof (rule streams_ok_shrink[OF assms(1) _ _ _ p], goal_cases)
    case (3 sid ses a)
    then show ?case using assms(6)[OF 3] st by auto
  qed (use assms in \<open>auto split: if_splits\<close>)
  moreover have "pending_kept s s'"
    using st fresh_new[of "rtc_streams s"] by (auto simp: pending_kept_def)
  ultimately show ?thesis using assms(3,4) p st by (auto simp: sync_rel_def chans_rel_def)
qed

lemma sync_rel_delivered:
  assumes ok: "streams_ok s" and ws: "map_of (rtc_streams s) wsp = Some ws"
    and ch: "map_of (st_pending ws) (w2s_SeqId m) = Some ch" and m: "is_reply m"
    and st: "rtc_streams s' = AList.update wsp
      (ws\<lparr>st_pending := AList.delete (w2s_SeqId m) (st_pending ws)\<rparr>) (rtc_streams s)"
    and cs: "rtc_chans s' = AList.update ch [m] (rtc_chans s)" and "rtc_nextID s' = rtc_nextID s"
    and "rtc_workers s' = rtc_workers s"
    and "\<And>sid ses a. map_of (rtc_sessions s') sid = Some ses \<Longrightarrow> ses_ws ses = Some a \<Longrightarrow>
      (\<exists>ses0. map_of (rtc_sessions s) sid = Some ses0 \<and> ses_ws ses0 = Some a)"
  shows "sync_rel (RecvMsg m) s s'"
proof -
  have p: "pending_sub s s'"
    using st ws by (auto simp: pending_sub_def split: if_splits)
  have free: "c \<noteq> ch" if "map_of (rtc_streams s') a = Some v" "map_of (st_pending v) q = Some c" for a v q c
    using that st ws streams_ok_channelD[OF ok ws ch, of a] by (auto split: if_splits)
  have "streams_ok s'"
    by (rule streams_ok_shrink[OF ok _ _ _ p]) (use assms free in \<open>auto split: if_splits\<close>)
  moreover have "chans_rel (RecvMsg m) s s'"
    using ws ch m cs by (auto simp: chans_rel_def)
  moreover have "pending_kept s s'"
    using ws ch st cs by (auto simp: pending_kept_def)
  ultimately show ?thesis using assms(7) p st by (auto simp: sync_rel_def)
qed

lemma streams_ok_new_pending:
  assumes ok: "streams_ok s" and ws: "map_of (rtc_streams s) wsp = Some ws"
  shows "streams_ok (s\<lparr>rtc_chans := AList.update (fresh (rtc_chans s)) [] (rtc_chans s), rtc_streams :=
    AList.update wsp (ws\<lparr>st_pending := AList.update q (fresh (rtc_chans s)) (st_pending ws)\<rparr>) (rtc_streams s)\<rparr>)"
proof -
  let ?ch = "fresh (rtc_chans s)"
  let ?st = "AList.update wsp (ws\<lparr>st_pending := AList.update q ?ch (st_pending ws)\<rparr>) (rtc_streams s)"
  have old: "a = wsp \<and> r = q \<and> c = ?ch \<or>
      c \<noteq> ?ch \<and> (\<exists>w. map_of (rtc_streams s) a = Some w \<and> map_of (st_pending w) r = Some c)"
    if "map_of ?st a = Some v" and "map_of (st_pending v) r = Some c" for a v r c
  proof -
    have "c \<noteq> ?ch" if "map_of (rtc_streams s) a = Some w" and "map_of (st_pending w) r = Some c" for w
      using streams_ok_pendingD[OF ok that] fresh_new[of "rtc_chans s"] by auto
    with that ws show ?thesis by (auto split: if_splits)
  qed
  show ?thesis
  proof (rule streams_okI, goal_cases)
    case (1 w' a)
    then show ?case using streams_ok_workerD[OF ok, of w' a] by auto
  next
    case (2 sid' ses a)
    then show ?case using streams_ok_sessionD[OF ok, of sid' ses a] by auto
  next
    case (3 a v r c)
    then show ?case using old[of a v r c] streams_ok_pendingD[OF ok, of a _ r c] by auto
  next
    case (4 a v r c a' v' r')
    then have "map_of ?st a = Some v" and "map_of ?st a' = Some v'" by simp_all
    then show ?case
      using old[of a v r c] old[of a' v' r' c] 4(2,4) streams_ok_channelD[OF ok, of a _ r c a' _ r'] by blast
  qed
qed

subsection \<open>Weakest preconditions of the server's primitives\<close>

definition sent_after :: "wire_event \<Rightarrow> nat \<Rightarrow> ServerToWorker \<Rightarrow> (nat \<times> ServerToWorker) list \<Rightarrow> (nat \<times> ServerToWorker) list" where
  "sent_after e sid m log = (case e of SendFails _ \<Rightarrow> log | _ \<Rightarrow> log @ [(sid, m)])"

lemma stream_Send_eq:
  "stream_Send sid m s = Ret (wire s 0 sid m) (s\<lparr>rtc_sent := sent_after (wire s 0 sid m) sid m (rtc_sent s),
     wire := \<lambda>i. wire s (Suc i)\<rparr>)"
  by (simp add: stream_Send_def sent_after_def Let_def split: wire_event.split)

lemma wp_stream_Send [simp, wp_rules]:
  "wp (stream_Send sid m) Q F R s \<longleftrightarrow> Q (wire s 0 sid m)
     (s\<lparr>rtc_sent := sent_after (wire s 0 sid m) sid m (rtc_sent s), wire := \<lambda>i. wire s (Suc i)\<rparr>)"
  by (simp add: wp_def stream_Send_eq)

lemma wp_run_wm [simp, wp_rules]:
  "wp (run_wm f) Q F R s \<longleftrightarrow> Q (fst (f (rtc_wm s))) (s\<lparr>rtc_wm := snd (f (rtc_wm s))\<rparr>)"
  by (simp add: wp_def run_wm_def)

lemma wp_forget_worker [simp, wp_rules]:
  "wp (forget_worker w) Q F R s \<longleftrightarrow> (if w = '''' then Q () s else
     Q () (s\<lparr>rtc_wm := RemoveWorker w (rtc_wm s), rtc_workers := AList.delete w (rtc_workers s)\<rparr>))"
  by (simp add: forget_worker_def)

lemma wp_set_pending:
  "map_of (rtc_streams s) wsp = Some ws \<Longrightarrow> wp (set_pending wsp f) Q F R s \<longleftrightarrow>
     Q () (s\<lparr>rtc_streams := AList.update wsp (ws\<lparr>st_pending := f (st_pending ws)\<rparr>) (rtc_streams s)\<rparr>)"
  by (simp add: wp_def set_pending_def)

lemma wp_deliver_reply:
  "streams_ok s \<Longrightarrow> map_of (rtc_streams s) wsp = Some ws \<Longrightarrow> wp (deliver_reply wsp msg) Q F R s \<longleftrightarrow>
     (case map_of (st_pending ws) (w2s_SeqId msg) of
        None \<Rightarrow> Q () s
      | Some ch \<Rightarrow> Q () (s\<lparr>rtc_chans := AList.update ch [msg] (rtc_chans s), rtc_streams := AList.update wsp
            (ws\<lparr>st_pending := AList.delete (w2s_SeqId msg) (st_pending ws)\<rparr>) (rtc_streams s)\<rparr>))"
  using streams_ok_pendingD[of s wsp ws "w2s_SeqId msg"]
  by (simp add: wp_def deliver_reply_def split: option.split)

lemma wp_case_wire [wp_rules]:
  "wp (case e of SendFails x \<Rightarrow> f x | Sent y \<Rightarrow> h y) Q F R s \<longleftrightarrow>
     (case e of SendFails x \<Rightarrow> wp (f x) Q F R s | Sent y \<Rightarrow> wp (h y) Q F R s)"
  by (simp split: wire_event.split)

lemma wp_case_next [wp_rules]:
  "wp (case n of SyncContinue x \<Rightarrow> f x | SyncReturn y \<Rightarrow> g y) Q F R s \<longleftrightarrow>
     (case n of SyncContinue x \<Rightarrow> wp (f x) Q F R s | SyncReturn y \<Rightarrow> wp (g y) Q F R s)"
  by (simp split: sync_next.split)

text \<open>
  Handling any message of any worker terminates without panic and without blocking on a reply
  channel, and changes the streams only as \<^const>\<open>sync_rel\<close> says.
\<close>

lemma Sync_spec:
  assumes ok: "streams_ok s"
  shows "wp (Sync sid ev) (\<lambda>_ s'. sync_rel ev s s') (\<lambda>_. False) (\<lambda>_. False) s"
proof (cases "map_of (rtc_sessions s) sid")
  case None
  then show ?thesis using ok by (simp add: Sync_def sync_rel_calm)
next
  case (Some ses)
  note ses = Some
  show ?thesis
  proof (cases ev)
    case RecvEOF
    with ses show ?thesis
      by (auto simp: Sync_def sync_iteration_def intro!: sync_rel_calm[OF ok] split: if_splits)
  next
    case (RecvErr e)
    with ses show ?thesis
      by (auto simp: Sync_def sync_iteration_def intro!: sync_rel_calm[OF ok] split: if_splits)
  next
    case (RecvMsg m)
    show ?thesis
    proof (cases "is_reply m")
      case True
      show ?thesis
      proof (cases "ses_ws ses")
        case None
        with True RecvMsg ses show ?thesis
          by (auto simp: Sync_def sync_iteration_def intro!: sync_rel_calm[OF ok] split: if_splits)
      next
        case (Some wsp)
        obtain ws where ws: "map_of (rtc_streams s) wsp = Some ws"
          using streams_ok_sessionD[OF ok ses Some] by blast
        note facts = True RecvMsg ses Some ws
        show ?thesis
        proof (cases "map_of (st_pending ws) (w2s_SeqId m)")
          case None
          with facts show ?thesis
            by (auto simp: Sync_def sync_iteration_def wp_deliver_reply[OF ok ws]
                intro!: sync_rel_calm[OF ok] split: if_splits)
        next
          case (Some ch)
          with facts show ?thesis
            by (auto simp: Sync_def sync_iteration_def wp_deliver_reply[OF ok ws]
                intro!: sync_rel_delivered[OF ok ws] split: if_splits)
        qed
      qed
    next
      case False
      then consider p where "w2s_Payload m = Some (WorkerRegisterMsg p)"
        | p where "w2s_Payload m = Some (WorkerKeepaliveMsg p)"
        | "w2s_Payload m = None" | x where "w2s_Payload m = Some (StatsPush x)"
        by (cases "w2s_Payload m") (auto simp: is_reply_def split: w2s_payload.splits)
      then show ?thesis
      proof cases
        case (1 p)
        with False RecvMsg ses show ?thesis
          by (auto simp: Sync_def sync_iteration_def sync_register_def wp_case_wire wp_case_next
              split: wire_event.split if_splits intro!: sync_rel_new_stream[OF ok])
      next
        case (2 p)
        have "\<exists>ws. map_of (rtc_streams s) wsp = Some ws" if "ses_ws ses = Some wsp" for wsp
          using streams_ok_sessionD[OF ok ses that] .
        with 2 False RecvMsg ses show ?thesis
          by (auto simp: Sync_def sync_iteration_def sync_keepalive_def wp_rules
              split: option.split if_splits intro!: sync_rel_calm[OF ok])
      qed (use False RecvMsg ses in \<open>auto simp: Sync_def sync_iteration_def
            intro!: sync_rel_calm[OF ok] split: if_splits\<close>)
    qed
  qed
qed

subsection \<open>sendRequest: numbering, correlation, no leaks\<close>

definition pending_after :: "wire_event \<Rightarrow> u64 \<Rightarrow> nat \<Rightarrow> (u64, nat) gomap \<Rightarrow> (u64, nat) gomap" where
  "pending_after e q ch pend =
     (case e of SendFails _ \<Rightarrow> AList.delete q (AList.update q ch pend) | _ \<Rightarrow> AList.update q ch pend)"

lemma sendRequest_begin_eq:
  fixes payload :: s2w_payload and s :: "'z rtc_state_scheme"
  assumes "map_of (rtc_streams s) wsp = Some ws"
  defines "q \<equiv> rtc_nextID s + 1" and "ch \<equiv> fresh (rtc_chans s)"
  defines "msg \<equiv> \<lparr>s2w_SeqId = q, s2w_Payload = payload\<rparr>"
  defines "e \<equiv> wire s 0 (st_stream ws) msg"
  shows "sendRequest_begin wsp payload s = Ret (q, ch, e)
    (s\<lparr>rtc_nextID := q, rtc_chans := AList.update ch [] (rtc_chans s),
       rtc_streams := AList.update wsp (ws\<lparr>st_pending := pending_after e q ch (st_pending ws)\<rparr>) (rtc_streams s),
       rtc_sent := sent_after e (st_stream ws) msg (rtc_sent s), wire := \<lambda>i. wire s (Suc i)\<rparr>)"
  using assms(1)
  by (simp add: sendRequest_begin_parts go_eval set_pending_def stream_Send_eq pending_after_def
      q_def ch_def msg_def e_def split: wire_event.split)

lemma streams_ok_begin:
  assumes ok: "streams_ok s" and ws: "map_of (rtc_streams s) wsp = Some ws"
    and ch: "ch = fresh (rtc_chans s)"
  shows "streams_ok (s\<lparr>rtc_nextID := q, rtc_chans := AList.update ch [] (rtc_chans s),
       rtc_streams := AList.update wsp (ws\<lparr>st_pending := pending_after e q ch (st_pending ws)\<rparr>) (rtc_streams s),
       rtc_sent := l, wire := w\<rparr>)" (is "streams_ok ?s'")
proof -
  let ?t = "s\<lparr>rtc_chans := AList.update ch [] (rtc_chans s), rtc_streams :=
    AList.update wsp (ws\<lparr>st_pending := AList.update q ch (st_pending ws)\<rparr>) (rtc_streams s)\<rparr>"
  have t: "streams_ok ?t" unfolding ch by (rule streams_ok_new_pending[OF ok ws])
  have "pending_sub ?t ?s'"
    by (auto simp: pending_sub_def pending_after_def split: if_splits wire_event.splits)
  then show ?thesis
    by (rule streams_ok_shrink[OF t, rotated 3]) (auto split: if_splits)
qed

lemma streams_ok_timeout:
  assumes ok: "streams_ok s" and ws: "map_of (rtc_streams s) wsp = Some ws"
  shows "streams_ok (s\<lparr>rtc_streams :=
    AList.update wsp (ws\<lparr>st_pending := AList.delete q (st_pending ws)\<rparr>) (rtc_streams s)\<rparr>)"
  by (rule streams_ok_shrink[OF ok]) (use ws in \<open>auto simp: pending_sub_def split: if_splits\<close>)

lemma streams_ok_taken:
  assumes ok: "streams_ok s" and c: "map_of (rtc_chans s) ch = Some (m # buf)"
  shows "streams_ok (s\<lparr>rtc_chans := AList.update ch buf (rtc_chans s)\<rparr>)"
proof (rule streams_ok_shrink[OF ok], goal_cases)
  case (5 a v q c')
  then show ?case using streams_ok_pendingD[OF ok, of a v q c'] c by auto
qed (auto simp: pending_sub_def)

lemma wp_sendRequest_begin:
  assumes "streams_ok s" and "map_of (rtc_streams s) wsp = Some ws"
    and "\<And>e s'. streams_ok s' \<Longrightarrow> rtc_nextID s' = rtc_nextID s + 1 \<Longrightarrow>
      rtc_workers s' = rtc_workers s \<Longrightarrow> rtc_sessions s' = rtc_sessions s \<Longrightarrow>
      rtc_chans s' = AList.update (fresh (rtc_chans s)) [] (rtc_chans s) \<Longrightarrow>
      rtc_streams s' = AList.update wsp (ws\<lparr>st_pending :=
        pending_after e (rtc_nextID s + 1) (fresh (rtc_chans s)) (st_pending ws)\<rparr>) (rtc_streams s) \<Longrightarrow>
      e = wire s 0 (st_stream ws) \<lparr>s2w_SeqId = rtc_nextID s + 1, s2w_Payload = payload\<rparr> \<Longrightarrow>
      rtc_wm s' = rtc_wm s \<Longrightarrow>
      Q (rtc_nextID s + 1, fresh (rtc_chans s), e) s'"
  shows "wp (sendRequest_begin wsp payload) Q F R s"
  unfolding wp_def sendRequest_begin_eq[OF assms(2)]
  using streams_ok_begin[OF assms(1,2) refl] by (auto intro!: assms(3))

lemma wp_timeout:
  assumes "streams_ok s" and "map_of (rtc_streams s) wsp = Some ws"
    and "Q () (s\<lparr>rtc_streams :=
      AList.update wsp (ws\<lparr>st_pending := AList.delete q (st_pending ws)\<rparr>) (rtc_streams s)\<rparr>)"
  shows "wp (sendRequest_timeout wsp q) Q F R s"
  using assms(3) by (simp add: sendRequest_timeout_def wp_set_pending[OF assms(2)])

text \<open>\<open>received s workerId payload m\<close>: some stream receives \<open>m\<close> while the request waits.\<close>

definition received :: "'z rtc_state_scheme \<Rightarrow> string \<Rightarrow> s2w_payload \<Rightarrow> WorkerToServer \<Rightarrow> bool" where
  "received s workerId payload m \<longleftrightarrow> (\<exists>wsp ws evs sid. map_of (rtc_workers s) workerId = Some wsp \<and>
     map_of (rtc_streams s) wsp = Some ws \<and>
     wire s 0 (st_stream ws) \<lparr>s2w_SeqId = rtc_nextID s + 1, s2w_Payload = payload\<rparr> = Sent evs \<and> (sid, RecvMsg m) \<in> set evs)"

definition request_post ::
  "'z rtc_state_scheme \<Rightarrow> string \<Rightarrow> s2w_payload \<Rightarrow> string + WorkerToServer \<Rightarrow> 'z rtc_state_scheme \<Rightarrow> bool" where
  "request_post s workerId payload r s' \<longleftrightarrow> streams_ok s' \<and> pending_sub s s' \<and>
     rtc_nextID s' = (if map_of (rtc_workers s) workerId = None then rtc_nextID s else rtc_nextID s + 1) \<and>
     (map_of (rtc_workers s) workerId = None \<longrightarrow> r = Inl ''worker offline'') \<and>
     (\<forall>m. r = Inr m \<longrightarrow> is_reply m \<and> w2s_SeqId m = rtc_nextID s + 1 \<and> received s workerId payload m)"

text \<open>
  What the events of the wait leave to the request \<open>q\<close> with channel \<open>ch\<close>: the channel is empty, or it holds one reply of that
  number, received in one of the events.
\<close>

definition waited :: "(nat \<times> recv_event) list \<Rightarrow> nat \<Rightarrow> u64 \<Rightarrow> nat \<Rightarrow> 'z rtc_state_scheme \<Rightarrow> 'z rtc_state_scheme \<Rightarrow> bool" where
  "waited evs wsp q ch s t \<longleftrightarrow> streams_ok t \<and> rtc_nextID t = rtc_nextID s \<and> pending_sub s t \<and> map_of (rtc_streams t) wsp \<noteq> None \<and>
     (map_of (rtc_chans t) ch = Some [] \<or> (\<exists>m sid. map_of (rtc_chans t) ch = Some [m] \<and> is_reply m \<and> w2s_SeqId m = q \<and>
        (sid, RecvMsg m) \<in> set evs))"

lemma pending_sub_trans: "pending_sub s t \<Longrightarrow> pending_sub t v \<Longrightarrow> pending_sub s v"
  unfolding pending_sub_def by metis

lemma waited_event:
  assumes ok: "streams_ok s" and ws: "map_of (rtc_streams s) wsp = Some ws" and q: "map_of (st_pending ws) q = Some ch"
    and t: "waited evs wsp q ch s t" and ev: "(sid, ev) \<in> set evs" and rel: "sync_rel ev t v"
  shows "waited evs wsp q ch s v"
proof -
  have sub: "pending_sub s t" using t by (simp add: waited_def)
  have "chans_rel ev t v" using rel by (simp add: sync_rel_def)
  then have "map_of (rtc_chans v) ch = map_of (rtc_chans t) ch \<or>
      (\<exists>m a w. ev = RecvMsg m \<and> is_reply m \<and> map_of (rtc_streams t) a = Some w \<and> map_of (st_pending w) (w2s_SeqId m) = Some ch \<and>
        map_of (rtc_chans v) ch = Some [m])"
    unfolding chans_rel_def by (rule spec)
  moreover have "w2s_SeqId m = q"
    if w: "map_of (rtc_streams t) a = Some w" "map_of (st_pending w) (w2s_SeqId m) = Some ch" for m a w
  proof -
    obtain w' where "map_of (rtc_streams s) a = Some w'" "map_of (st_pending w') (w2s_SeqId m) = Some ch"
      using sub w unfolding pending_sub_def by blast
    from streams_ok_channelD[OF ok ws q this] show ?thesis by blast
  qed
  ultimately have "map_of (rtc_chans v) ch = Some [] \<or> (\<exists>m sid. map_of (rtc_chans v) ch = Some [m] \<and> is_reply m \<and>
      w2s_SeqId m = q \<and> (sid, RecvMsg m) \<in> set evs)"
    using t ev unfolding waited_def by metis
  with t rel pending_sub_trans[OF sub] show ?thesis by (simp add: waited_def sync_rel_def)
qed

lemma wait_events:
  assumes ok: "streams_ok s" and ws: "map_of (rtc_streams s) wsp = Some ws" and q: "map_of (st_pending ws) q = Some ch"
  shows "wp (for_each (\<lambda>(sid, ev). Sync sid ev) evs) (\<lambda>_. waited evs wsp q ch s) (\<lambda>_. False) (\<lambda>_. False) s"
proof (rule wp_for_each)
  show "waited evs wsp q ch s s"
    using ok ws streams_ok_pendingD[OF ok ws q] by (simp add: waited_def pending_sub_same)
  fix x t assume x: "x \<in> set evs" and t: "waited evs wsp q ch s t"
  obtain sid ev where sid: "x = (sid, ev)" by fastforce
  have "streams_ok t" using t by (simp add: waited_def)
  from wp_mono[OF Sync_spec[OF this, of sid ev] waited_event[OF ok ws q t]] x sid
  show "wp (case x of (sid, ev) \<Rightarrow> Sync sid ev) (\<lambda>_. waited evs wsp q ch s) (\<lambda>_. False) (\<lambda>_. False) t" by auto
qed

lemma sendRequest_answer:
  assumes ok: "streams_ok s" and ws: "map_of (rtc_streams s) wsp = Some ws"
    and q: "map_of (st_pending ws) q = Some ch"
  shows "wp (bnd (for_each (\<lambda>(sid, ev). Sync sid ev) evs) (\<lambda>_.
      bnd (sendRequest_take ch) (\<lambda>got.
      case got of
        Some resMsg \<Rightarrow> ret (Inr resMsg)
      | None \<Rightarrow> bnd (sendRequest_timeout wsp q) (\<lambda>_. ret (Inl ''request timeout'')))))
    (\<lambda>r s'. streams_ok s' \<and> rtc_nextID s' = rtc_nextID s \<and> pending_sub s s' \<and>
       (\<forall>v. map_of (rtc_streams s') wsp = Some v \<longrightarrow> map_of (st_pending v) q = None) \<and>
       (\<forall>m. r = Inr m \<longrightarrow> is_reply m \<and> w2s_SeqId m = q \<and> (\<exists>sid. (sid, RecvMsg m) \<in> set evs)))
    (\<lambda>_. False) (\<lambda>_. False) s" (is "wp (bnd ?w (\<lambda>_. ?rest)) ?Q _ _ s")
proof -
  have step: "wp ?rest ?Q (\<lambda>_. False) (\<lambda>_. False) t" if t: "waited evs wsp q ch s t" for t
  proof -
    have st: "streams_ok t" "rtc_nextID t = rtc_nextID s" "pending_sub s t" using t by (simp_all add: waited_def)
    obtain wt where wt: "map_of (rtc_streams t) wsp = Some wt" using t by (auto simp: waited_def)
    consider (empty) "map_of (rtc_chans t) ch = Some []"
      | (reply) m sid where "map_of (rtc_chans t) ch = Some [m]" "is_reply m" "w2s_SeqId m = q" "(sid, RecvMsg m) \<in> set evs"
      using t unfolding waited_def by blast
    then show ?thesis
    proof cases
      case empty
      have "sendRequest_take ch t = Ret None t" using empty by (simp add: sendRequest_take_def)
      then show ?thesis
        using streams_ok_timeout[OF st(1) wt] st(2,3) wt
        by (simp add: wp_def bnd_def sendRequest_timeout_def set_pending_def ret_def pending_sub_def
            split: if_splits)
    next
      case reply
      have "sendRequest_take ch t = Ret (Some m) (t\<lparr>rtc_chans := AList.update ch [] (rtc_chans t)\<rparr>)"
        using reply by (simp add: sendRequest_take_def)
      moreover have "map_of (st_pending wt) q = None"
      proof (rule ccontr)
        assume "map_of (st_pending wt) q \<noteq> None"
        then obtain c where c: "map_of (st_pending wt) q = Some c" by blast
        then have "c = ch" using st(3) wt ws q unfolding pending_sub_def by fastforce
        then show False using streams_ok_pendingD[OF st(1) wt c] reply(1) by simp
      qed
      ultimately show ?thesis
        using streams_ok_taken[OF st(1) reply(1)] st(2,3) reply wt
        by (auto simp: wp_def bnd_def ret_def pending_sub_def)
    qed
  qed
  show ?thesis
    unfolding wp_bnd[of ?w] by (rule wp_mono[OF wait_events[OF ok ws q]]) (use step in auto)
qed

lemma pending_sub_settled:
  assumes ws: "map_of (rtc_streams s) wsp = Some ws"
    and t: "rtc_streams t = AList.update wsp (ws\<lparr>st_pending := AList.update q ch (st_pending ws)\<rparr>) (rtc_streams s)"
    and sub: "pending_sub t s'"
    and gone: "\<And>v. map_of (rtc_streams s') wsp = Some v \<Longrightarrow> map_of (st_pending v) q = None"
  shows "pending_sub s s'"
  unfolding pending_sub_def
proof (intro allI impI)
  fix a v r c
  assume v: "map_of (rtc_streams s') a = Some v" and r: "map_of (st_pending v) r = Some c"
  have "\<not> (a = wsp \<and> r = q)" using gone v r by auto
  moreover obtain w where "map_of (rtc_streams t) a = Some w" "map_of (st_pending w) r = Some c"
    using sub v r unfolding pending_sub_def by blast
  ultimately show "\<exists>w. map_of (rtc_streams s) a = Some w \<and> map_of (st_pending w) r = Some c"
    using ws t by (auto split: if_splits)
qed

lemma sendRequest_post:
  assumes ok: "streams_ok s"
  shows "wp (sendRequest workerId payload) (request_post s workerId payload) (\<lambda>_. False) (\<lambda>_. False) s"
proof (cases "map_of (rtc_workers s) workerId")
  case None
  with ok show ?thesis
    by (simp add: sendRequest_def getWorkerStream_def request_post_def pending_sub_same)
next
  case (Some wsp)
  obtain ws where ws: "map_of (rtc_streams s) wsp = Some ws" using streams_ok_workerD[OF ok Some] by blast
  let ?q = "rtc_nextID s + 1" and ?ch = "fresh (rtc_chans s)"
  have post: "request_post s workerId payload r s'"
    if "rtc_streams t = AList.update wsp (ws\<lparr>st_pending := AList.update ?q ?ch (st_pending ws)\<rparr>) (rtc_streams s)"
      and "rtc_nextID t = ?q" and "streams_ok s'" and "rtc_nextID s' = rtc_nextID t" and "pending_sub t s'"
      and "\<And>v. map_of (rtc_streams s') wsp = Some v \<Longrightarrow> map_of (st_pending v) ?q = None"
      and "\<And>m. r = Inr m \<Longrightarrow> is_reply m \<and> w2s_SeqId m = ?q \<and> received s workerId payload m" for r s' t
    using that pending_sub_settled[OF ws that(1) that(5)] Some by (simp add: request_post_def)
  show ?thesis
    unfolding sendRequest_def getWorkerStream_def wp_bnd wp_rd Some
  proof (simp, rule wp_sendRequest_begin[OF ok ws], goal_cases)
    case (1 e t)
    note t = 1
    show ?case
    proof (cases e)
      case (SendFails err)
      have "pending_sub s t"
        using t(6) SendFails ws by (auto simp: pending_sub_def pending_after_def split: if_splits)
      then show ?thesis using SendFails t(1,2) Some by (simp add: request_post_def)
    next
      case (Sent evs)
      let ?w = "ws\<lparr>st_pending := AList.update ?q ?ch (st_pending ws)\<rparr>"
      have st: "rtc_streams t = AList.update wsp ?w (rtc_streams s)" and tw: "map_of (rtc_streams t) wsp = Some ?w"
        using t(6) Sent by (simp_all add: pending_after_def)
      have rec: "received s workerId payload m" if "(sid, RecvMsg m) \<in> set evs" for sid m
        using that t(7) Sent Some ws unfolding received_def by metis
      have "wp (bnd (for_each (\<lambda>(sid, ev). Sync sid ev) evs) (\<lambda>_. bnd (sendRequest_take ?ch) (\<lambda>got.
          case got of Some resMsg \<Rightarrow> ret (Inr resMsg)
          | None \<Rightarrow> bnd (sendRequest_timeout wsp ?q) (\<lambda>_. ret (Inl ''request timeout'')))))
          (request_post s workerId payload) (\<lambda>_. False) (\<lambda>_. False) t"
        by (rule wp_mono[OF sendRequest_answer[OF t(1) tw, of ?q ?ch]]) (auto intro!: post[OF st t(2)] dest: rec)
      with Sent show ?thesis by simp
    qed
  qed
qed

subsection \<open>What the server's operations leave alone\<close>

lemma keeps_case_wire [keeps_intros]:
  "(\<And>e. keeps f (m e)) \<Longrightarrow> (\<And>y. keeps f (k y)) \<Longrightarrow> keeps f (case x of SendFails e \<Rightarrow> m e | Sent y \<Rightarrow> k y)"
  by (simp split: wire_event.split)

lemma keeps_case_next [keeps_intros]:
  "(\<And>e. keeps f (m e)) \<Longrightarrow> (\<And>y. keeps f (k y)) \<Longrightarrow>
   keeps f (case x of SyncContinue e \<Rightarrow> m e | SyncReturn y \<Rightarrow> k y)"
  by (simp split: sync_next.split)

lemma keeps_run_wm [keeps_intros]: "(\<And>s w. f (s\<lparr>rtc_wm := w\<rparr>) = f s) \<Longrightarrow> keeps f (run_wm g)"
  by (simp add: keeps_def)

lemma keeps_stream_Send [keeps_intros]:
  "(\<And>s l w. f (s\<lparr>rtc_sent := l, wire := w\<rparr>) = f s) \<Longrightarrow> keeps f (stream_Send sid m)"
  by (simp add: keeps_def)

lemma keeps_set_pending [keeps_intros]:
  "(\<And>s st. f (s\<lparr>rtc_streams := st\<rparr>) = f s) \<Longrightarrow> keeps f (set_pending a g)"
  by (simp add: keeps_def wp_def set_pending_def split: option.split)

lemma keeps_deliver_reply [keeps_intros]:
  "(\<And>s st c. f (s\<lparr>rtc_chans := c, rtc_streams := st\<rparr>) = f s) \<Longrightarrow> keeps f (deliver_reply a m)"
  by (simp add: keeps_def wp_def deliver_reply_def split: option.split)

lemma keeps_take [keeps_intros]:
  "(\<And>s c. f (s\<lparr>rtc_chans := c\<rparr>) = f s) \<Longrightarrow> keeps f (sendRequest_take ch)"
  by (simp add: keeps_def wp_def sendRequest_take_def split: option.split list.split)

lemma keeps_case_payload [keeps_intros]:
  "(\<And>p. keeps f (a p)) \<Longrightarrow> (\<And>p. keeps f (b p)) \<Longrightarrow> (\<And>p. keeps f (c p)) \<Longrightarrow> (\<And>p. keeps f (d p)) \<Longrightarrow>
   (\<And>p. keeps f (e p)) \<Longrightarrow> (\<And>p. keeps f (g p)) \<Longrightarrow> (\<And>p. keeps f (h p)) \<Longrightarrow> (\<And>p. keeps f (i p)) \<Longrightarrow>
   keeps f (case x of CreateRouterRes p \<Rightarrow> a p | CreateTransportRes p \<Rightarrow> b p | ConnectTransportRes p \<Rightarrow> c p
     | ProduceRes p \<Rightarrow> d p | ConsumerRes p \<Rightarrow> e p | WorkerRegisterMsg p \<Rightarrow> g p
     | WorkerKeepaliveMsg p \<Rightarrow> h p | StatsPush p \<Rightarrow> i p)"
  by (simp split: w2s_payload.split)

lemma keeps_case_recv [keeps_intros]:
  "keeps f a \<Longrightarrow> (\<And>e. keeps f (b e)) \<Longrightarrow> (\<And>m. keeps f (c m)) \<Longrightarrow>
   keeps f (case x of RecvEOF \<Rightarrow> a | RecvErr e \<Rightarrow> b e | RecvMsg m \<Rightarrow> c m)"
  by (simp split: recv_event.split)

text \<open>
  The operations change fields of the server only: what an extension of the record adds stays, and
  so do the decoded produce requests and the iteration orders still to come.
\<close>

definition rtc_outer :: "'z rtc_state_scheme \<Rightarrow> (nat \<Rightarrow> string list \<Rightarrow> string list) \<times> (nat, ProduceReqData) gomap \<times> 'z"
  where "rtc_outer s = (order s, rtc_params s, rtc_state.more s)"

lemma keeps_sync_register [keeps_intros]: "keeps rtc_outer (sync_register sid ses q p)"
  unfolding sync_register_def forget_worker_def by (intro keeps_intros) (simp_all add: rtc_outer_def)

lemma keeps_sync_keepalive [keeps_intros]: "keeps rtc_outer (sync_keepalive ses q p)"
  unfolding sync_keepalive_def by (intro keeps_intros) (simp_all add: rtc_outer_def)

lemma keeps_Sync [keeps_intros]: "keeps rtc_outer (Sync sid ev)"
  unfolding Sync_def sync_iteration_def forget_worker_def
  by (intro keeps_intros) (simp_all add: rtc_outer_def)

lemma keeps_sendRequest_begin [keeps_intros]: "keeps rtc_outer (sendRequest_begin wsp p)"
  unfolding sendRequest_begin_parts by (intro keeps_intros) (simp_all add: rtc_outer_def)

lemma keeps_sendRequest_timeout [keeps_intros]: "keeps rtc_outer (sendRequest_timeout wsp p)"
  unfolding sendRequest_timeout_def by (intro keeps_intros) (simp_all add: rtc_outer_def)

lemma keeps_sendRequest [keeps_intros]: "keeps rtc_outer (sendRequest w p)"
  unfolding sendRequest_def getWorkerStream_def
  by (intro keeps_intros) (simp_all add: rtc_outer_def)


lemma sendRequest_answered:
  assumes "map_of (rtc_workers s) w = Some wsp" and ws: "map_of (rtc_streams s) wsp = Some ws"
    and "map_of (rtc_sessions s) (st_stream ws) = Some ses" and "ses_ws ses = Some wsp"
    and "wire s 0 (st_stream ws) \<lparr>s2w_SeqId = rtc_nextID s + 1, s2w_Payload = payload\<rparr> = Sent [(st_stream ws, RecvMsg m)]"
    and "is_reply m" and "w2s_SeqId m = rtc_nextID s + 1"
  shows "\<exists>s'. sendRequest w payload s = Ret (Inr m) s'"
  using assms
  by (simp add: sendRequest_def getWorkerStream_def go_eval sendRequest_begin_eq[OF ws] pending_after_def
      Sync_def sync_iteration_def deliver_reply_def sendRequest_take_def)

lemma keeps_wp: "keeps f m \<Longrightarrow> f t = c \<Longrightarrow> wp m (\<lambda>_ u. f u = c) (\<lambda>_. True) (\<lambda>_. True) t"
  unfolding keeps_def by (elim allE[of _ t] wp_mono) auto

text \<open>When nothing but replies arrives while a request waits, it leaves the table of workers alone.\<close>

definition reply_wire :: "'z rtc_state_scheme \<Rightarrow> bool" where
  "reply_wire s \<longleftrightarrow> (\<forall>i sid m evs sid' ev. wire s i sid m = Sent evs \<longrightarrow> (sid', ev) \<in> set evs \<longrightarrow> (\<exists>a. ev = RecvMsg a \<and> is_reply a))"

lemma keeps_wm_Sync: "is_reply m \<Longrightarrow> keeps rtc_wm (Sync sid (RecvMsg m))"
  unfolding Sync_def sync_iteration_def by (simp, intro keeps_intros) simp_all

lemma keeps_wm_timeout: "keeps rtc_wm (sendRequest_timeout wsp q)"
  unfolding sendRequest_timeout_def by (intro keeps_intros) simp_all

lemma sendRequest_keeps_wm:
  assumes ok: "streams_ok s" and w: "reply_wire s"
  shows "wp (sendRequest workerId payload) (\<lambda>_ t. rtc_wm t = rtc_wm s) (\<lambda>_. True) (\<lambda>_. True) s"
proof (cases "map_of (rtc_workers s) workerId")
  case None
  then show ?thesis by (simp add: sendRequest_def getWorkerStream_def)
next
  case (Some wsp)
  obtain ws where ws: "map_of (rtc_streams s) wsp = Some ws" using streams_ok_workerD[OF ok Some] by blast
  show ?thesis
    unfolding sendRequest_def getWorkerStream_def wp_bnd wp_rd Some
  proof (simp, rule wp_sendRequest_begin[OF ok ws], goal_cases)
    case (1 e t)
    have replies: "keeps rtc_wm (for_each (\<lambda>(sid, ev). Sync sid ev) evs)" if e: "e = Sent evs" for evs
    proof (rule keeps_for_each_set)
      fix x assume x: "x \<in> set evs"
      obtain sid ev where sid: "x = (sid, ev)" by fastforce
      then obtain a where "ev = RecvMsg a" "is_reply a" using e 1(7) w x unfolding reply_wire_def by metis
      with sid show "keeps rtc_wm (case x of (sid, ev) \<Rightarrow> Sync sid ev)" by (simp add: keeps_wm_Sync)
    qed
    with 1(8) show ?case
      unfolding wp_bnd[symmetric]
      by (cases e) (auto intro!: keeps_wp keeps_intros replies keeps_wm_timeout simp del: wp_bnd wp_rd wp_ret)
  qed
qed

subsection \<open>Correctness of sendRequest\<close>

text \<open>
  C24. Once \<^verbatim>\<open>Send\<close> has returned, a request ends: whatever events the streams of the workers handle during the wait,
  \<^verbatim>\<open>sendRequest\<close> neither panics nor blocks. It leaves no pending entry behind, takes one sequence number when the worker
  is online and none when it is not, and a reply it returns was received by a stream during the wait, is of one of the
  five reply kinds and carries the request's own number. (A \<^verbatim>\<open>Send\<close> that waits for ever on flow control is not in the model.)
\<close>

theorem sendRequest_correlated:
  assumes "streams_ok s"
  shows "\<exists>r s'. sendRequest workerId payload s = Ret r s' \<and> streams_ok s' \<and> pending_sub s s' \<and>
     rtc_nextID s' = (if map_of (rtc_workers s) workerId = None then rtc_nextID s else rtc_nextID s + 1) \<and>
     (map_of (rtc_workers s) workerId = None \<longrightarrow> r = Inl ''worker offline'') \<and>
     (\<forall>m. r = Inr m \<longrightarrow> is_reply m \<and> w2s_SeqId m = rtc_nextID s + 1 \<and> received s workerId payload m)"
  using sendRequest_post[OF assms, of workerId payload] by (simp add: wp_total request_post_def)

text \<open>
  When the worker's stream is served by its \<^verbatim>\<open>Sync\<close> call and a reply of the request's number is all that arrives,
  \<^verbatim>\<open>sendRequest\<close> returns that very reply.
\<close>

lemma sendRequest_delivers:
  assumes "map_of (rtc_workers s) workerId = Some wsp" and "map_of (rtc_streams s) wsp = Some ws"
    and "map_of (rtc_sessions s) (st_stream ws) = Some ses" and "ses_ws ses = Some wsp"
    and "wire s 0 (st_stream ws) \<lparr>s2w_SeqId = rtc_nextID s + 1, s2w_Payload = payload\<rparr> = Sent [(st_stream ws, RecvMsg m)]"
    and "is_reply m" and "w2s_SeqId m = rtc_nextID s + 1"
  shows "\<exists>s'. sendRequest workerId payload s = Ret (Inr m) s'"
  by (rule sendRequest_answered[OF assms])

text \<open>A server with two workers, the first of them connected on stream 5.\<close>

definition sample_rtc ::
  "(nat \<Rightarrow> nat \<Rightarrow> ServerToWorker \<Rightarrow> wire_event) \<Rightarrow> 'z \<Rightarrow> 'z rtc_state_scheme" where
  "sample_rtc w ext = \<lparr>rnd = \<lambda>_. 0, clock = \<lambda>_. 0, order = \<lambda>_ ks. ks, rtc_wm = sample_wm,
     rtc_workers = [(''w1'', 0)], rtc_nextID = 0, rtc_streams = [(0, \<lparr>st_stream = 5, st_pending = []\<rparr>)],
     rtc_chans = [], rtc_sessions = [(5, \<lparr>ses_workerID = ''w1'', ses_ws = Some 0\<rparr>)], rtc_sent = [],
     rtc_params = [], wire = w, \<dots> = ext\<rparr>"

definition router_reply :: "u64 \<Rightarrow> bool \<Rightarrow> WorkerToServer" where
  "router_reply q ok = \<lparr>w2s_SeqId = q, w2s_Payload = Some (CreateRouterRes
     \<lparr>rs_RouterId = ''r'', rs_Success = ok, rs_ErrorDetail = ''refused''\<rparr>)\<rparr>"

lemma sample_rtc_ok: "streams_ok (sample_rtc w ext)"
  by (simp add: streams_ok_def sample_rtc_def)

lemma router_reply_simps [simp]:
  "is_reply (router_reply q ok)" "w2s_SeqId (router_reply q ok) = q"
  by (simp_all add: router_reply_def is_reply_def)

theorem sendRequest_correlated_witness:
  "\<exists>r s'. sendRequest ''w1'' (GlobalNotification ''x'') (sample_rtc (\<lambda>_ _ _. Sent []) ()) = Ret r s' \<and>
     rtc_nextID s' = 1"
  using sendRequest_correlated[OF sample_rtc_ok, of "''w1''" "GlobalNotification ''x''" "\<lambda>_ _ _. Sent []" "()"]
  by (auto simp: sample_rtc_def)

end
