(* ===== verification/Rtc_Requests.thy ===== *)
theory Rtc_Requests
  imports Rtc_Server
begin

section \<open>Requests to the workers (grpcServer.go)\<close>

text \<open>
  The methods of \<^verbatim>\<open>WebRtcServer\<close> that ask a worker for a router, a transport, a producer or a consumer.
  Each builds the protobuf message from the server's own data, sends it with \<^verbatim>\<open>sendRequest\<close> and reads
  the reply. An error is the left value of a sum, as the second result of the Go method; a read
  through a nil pointer is a panic.
\<close>

text \<open>
  The common end of the methods: hand on the error of \<^verbatim>\<open>sendRequest\<close>, otherwise read the expected
  payload, whose getter returns nil for a reply of another kind, and turn a refusal into an error.
\<close>

definition expect_reply ::
  "(WorkerToServer \<Rightarrow> 'r option) \<Rightarrow> ('r \<Rightarrow> bool) \<Rightarrow> ('r \<Rightarrow> string) \<Rightarrow> string + WorkerToServer
     \<Rightarrow> (string + 'r, 's) go" where
  "expect_reply getRes success errorDetail r =
     (case r of
        Inl err \<Rightarrow> ret (Inl err)
      | Inr resMsg \<Rightarrow>
          (case getRes resMsg of
             None \<Rightarrow> panic NilDeref
           | Some res \<Rightarrow> if success res then ret (Inr res) else ret (Inl (errorDetail res))))"

definition invalid_router :: "Router option \<Rightarrow> bool" where
  "invalid_router router = (case router of None \<Rightarrow> True | Some r \<Rightarrow> rt_workerId r = '''')"

definition new_router :: "string \<Rightarrow> Worker \<Rightarrow> Router" where
  "new_router rid w = \<lparr>routerId = rid, rt_publicIp = wk_publicIp w, rt_minPort = 0,
     rt_port = wk_publicPort w, rt_maxPort = 0, rt_preferenceUdp = wk_useUdp w,
     rt_sendBufSize = 1024, rt_recvBufSize = 1024, rt_workerId = wk_workerId w,
     producers = [], consumers = [], produceTransportIds = [], consumeTransportIds = []\<rparr>"

definition create_router_req :: "Worker \<Rightarrow> Router \<Rightarrow> string \<Rightarrow> s2w_payload" where
  "create_router_req w router serverId = CreateRouterReq
     \<lparr>rq_WorkerId = wk_workerId w, rq_RoomId = routerId router, rq_ServerId = serverId,
      rq_Method = ''create'', rq_Info = Some
        \<lparr>li_Protocol = ''UDP'', li_Ip = ''0.0.0.0'', li_Port = rt_port router,
         li_AnnouncedAddress = rt_publicIp router, li_AnnouncedIp = rt_publicIp router,
         li_AnnouncedPort = rt_port router, li_Tcp = False, li_Ipv6Only = False,
         li_UdpReusePort = False, li_RecvBufferSize = rt_recvBufSize router,
         li_SendBufferSize = rt_sendBufSize router\<rparr>\<rparr>"

definition choose_worker :: "(Worker option, 'z rtc_state_scheme) go" where
  "choose_worker =
     bnd time_Now (\<lambda>now.
     bnd (rd (\<lambda>s. keys (wm_workers (rtc_wm s)))) (\<lambda>ks.
     bnd (range_keys ks) (\<lambda>ks'.
     rd (\<lambda>s. ChooseBestWorker now ks' (rtc_wm s)))))"

definition CreateRouterOnWorker :: "(string + Router, 'z rtc_state_scheme) go" where
  "CreateRouterOnWorker =
     bnd choose_worker (\<lambda>wo.
     case wo of
       None \<Rightarrow> ret (Inl ''no available worker'')
     | Some worker \<Rightarrow>
         bnd (RandString 36) (\<lambda>rid.
         bnd (RandString 10) (\<lambda>serverId.
         let router = new_router rid worker in
         bnd (sendRequest (wk_workerId worker) (create_router_req worker router serverId)) (\<lambda>r.
         bnd (expect_reply GetCreateRouterRes rs_Success rs_ErrorDetail r) (\<lambda>res.
         case res of
           Inl err \<Rightarrow> ret (Inl err)
         | Inr _ \<Rightarrow>
             bnd (run_wm (AddRouter (wk_workerId worker) (routerId router))) (\<lambda>_.
             ret (Inr router)))))))"

definition CloseRouterOnWorker :: "Router \<Rightarrow> (string option, 'z rtc_state_scheme) go" where
  "CloseRouterOnWorker router =
     bnd (RandString 10) (\<lambda>serverId.
     bnd (sendRequest (rt_workerId router) (CreateRouterReq
            \<lparr>rq_WorkerId = rt_workerId router, rq_RoomId = routerId router, rq_ServerId = serverId,
             rq_Method = ''close'', rq_Info = None\<rparr>)) (\<lambda>r.
     bnd (expect_reply GetCreateRouterRes rs_Success rs_ErrorDetail r) (\<lambda>res.
     case res of
       Inl err \<Rightarrow> ret (Some err)
     | Inr _ \<Rightarrow>
         bnd (run_wm (RemoveRouter (rt_workerId router) (routerId router))) (\<lambda>_.
         ret None))))"

definition rtc_CreateWebrtcTransport ::
  "Router option \<Rightarrow> (string + CreateTransportResponse, 'z rtc_state_scheme) go" where
  "rtc_CreateWebrtcTransport router =
     (if invalid_router router then ret (Inl ''invalid router'') else
      case router of
        None \<Rightarrow> ret (Inl ''invalid router'')
      | Some r \<Rightarrow>
          bnd (RandString 36) (\<lambda>tid.
          bnd (sendRequest (rt_workerId r) (CreateTransportReq
                 \<lparr>tq_WorkerId = rt_workerId r, tq_RouterId = routerId r, tq_TransportId = tid,
                  tq_Direction = DIRECTION_AUTO, tq_EnableUdp = False, tq_EnableTcp = False,
                  tq_PreferUdp = False, tq_PreferTcp = False\<rparr>)) (\<lambda>res.
          expect_reply GetCreateTransportRes ts_Success ts_ErrorDetail res)))"

definition rtc_ConnectWebrtcTransport ::
  "Router option \<Rightarrow> ConnectTransportReqData \<Rightarrow> (string option, 'z rtc_state_scheme) go" where
  "rtc_ConnectWebrtcTransport router req =
     (if invalid_router router then ret (Some ''invalid router'') else
      case router of
        None \<Rightarrow> ret (Some ''invalid router'')
      | Some r \<Rightarrow>
          bnd (sendRequest (rt_workerId r) (ConnectTransportReq
                 \<lparr>xq_WorkerId = rt_workerId r, xq_RouterId = routerId r,
                  xq_TransportId = cn_TransportId req,
                  xq_DtlsRole = dtls_Role (cn_DTLSParameters req),
                  xq_DtlsFingerprints =
                    map (\<lambda>v. \<lparr>df_Algorithm = fp_Algorithm v, df_Value = fp_Value v\<rparr>)
                      (dtls_Fingerprints (cn_DTLSParameters req))\<rparr>)) (\<lambda>res.
          bnd (expect_reply GetConnectTransportRes xs_Success xs_ErrorDetail res) (\<lambda>rr.
          case rr of Inl err \<Rightarrow> ret (Some err) | Inr _ \<Rightarrow> ret None)))"

subsection \<open>RTP parameters of a producer and of a consumer\<close>

definition pb_feedback :: "RtcpFeedback \<Rightarrow> pb_RtcpFeedback" where
  "pb_feedback f = \<lparr>pb_fb_Type = fb_Type f, pb_fb_Parameter = fb_Parameter f\<rparr>"

definition pb_codec :: "(RtcpFeedback \<Rightarrow> bool) \<Rightarrow> CodecCapabilities \<Rightarrow> Codec" where
  "pb_codec keep v = \<lparr>co_MimeType = cc_MimeType v, co_PayloadType = ucast (cc_PayloadType v),
     co_ClockRate = ucast (cc_ClockRate v), co_Channels = ucast (cc_Channels v),
     co_Parameters = '''', co_RtcpFeedbacks = map pb_feedback (filter keep (cc_Feedbacks v))\<rparr>"

definition pb_extension :: "ProducerHeadExtension \<Rightarrow> HeadExtension" where
  "pb_extension v = \<lparr>pb_he_Uri = he_Uri v, pb_he_Id = ucast (he_Id v),
     pb_he_Encrypt = he_Encrypt v, pb_he_Parameters = ''''\<rparr>"

definition pb_encoding :: "Encodings \<Rightarrow> Encoding" where
  "pb_encoding v = \<lparr>en_Active = enc_Active v, en_ScalabilityMode = enc_ScalabilityMode v,
     en_ScaleResolutionDownBy = ucast (enc_ScaleResolutionDownBy v),
     en_MaxBitrate = ucast (enc_MaxBitrate v), en_Rid = enc_Rid v, en_Dtx = enc_Dtx v,
     en_Ssrc = enc_Ssrc v, en_HasRtx = False, en_RtxSsrc = 0\<rparr>"

definition rtp_mapping :: "string \<Rightarrow> Encoding list \<Rightarrow> Codec list \<Rightarrow> RtpMapping" where
  "rtp_mapping kind encodings codecs =
     \<lparr>rm_PayloadMap = map (\<lambda>v. \<lparr>pm_PayloadType = co_PayloadType v,
         pm_MappedPayloadType = (if kind = ''video'' then co_PayloadType v + 5
                                 else co_PayloadType v - 11)\<rparr>) codecs,
      rm_EncodingMap = map (\<lambda>v. \<lparr>em_Rid = en_Rid v, em_Ssrc = en_Ssrc v,
         em_MappedSsrc = en_Ssrc v\<rparr>) encodings\<rparr>"

definition pb_rtp_parameters :: "string \<Rightarrow> RtpCapabilities \<Rightarrow> Codec list \<Rightarrow> Encoding list \<Rightarrow> RtpParameters" where
  "pb_rtp_parameters kind p codecs encodings =
     \<lparr>rp_Mid = rc_Mid p, rp_Msid = rc_Msid p,
      rp_Rtcp = \<lparr>pb_Cname = rtcp_CName (rc_Rtcp p), pb_ReducedSize = rtcp_ReducedSize (rc_Rtcp p)\<rparr>,
      rp_Codecs = codecs, rp_HeadExtensions = map pb_extension (rc_HeaderExtensions p),
      rp_Encodings = encodings, rp_RtpMapping = rtp_mapping kind encodings codecs\<rparr>"

text \<open>
  The loop over the encodings of a producer. For video an encoding without retransmission gets a
  random ssrc, written back through the pointer, so the loop returns the new encodings too.
\<close>

fun producer_encodings ::
  "string \<Rightarrow> Encodings option list \<Rightarrow> (Encoding list \<times> Encodings option list, 'z env_state_scheme) go" where
  "producer_encodings kind [] = ret ([], [])"
| "producer_encodings kind (None # vs) = panic NilDeref"
| "producer_encodings kind (Some v # vs) =
     bnd (if kind = ''video''
          then bnd (case enc_Rtx v of
                      None \<Rightarrow> bnd draw (\<lambda>x. let ssrc = of_nat x in
                                ret (v\<lparr>enc_Ssrc := ssrc, enc_Rtx := Some \<lparr>rtx_Ssrc = ssrc + 1\<rparr>\<rparr>))
                    | Some _ \<Rightarrow> ret v) (\<lambda>v'.
               ret ((pb_encoding v)\<lparr>en_Ssrc := enc_Ssrc v',
                      en_RtxSsrc := (case enc_Rtx v' of None \<Rightarrow> 0 | Some x \<Rightarrow> rtx_Ssrc x),
                      en_HasRtx := True\<rparr>, v'))
          else ret (pb_encoding v, v)) (\<lambda>(e, v').
     bnd (producer_encodings kind vs) (\<lambda>(es, vs').
     ret (e # es, Some v' # vs')))"

definition CreateProducer ::
  "Router option \<Rightarrow> Producer \<Rightarrow> (string + ProduceResponse, 'z rtc_state_scheme) go" where
  "CreateProducer router producer =
     (if invalid_router router then ret (Inl ''invalid router'') else
      case router of
        None \<Rightarrow> ret (Inl ''invalid router'')
      | Some r \<Rightarrow>
          bnd (rd (\<lambda>s. map_of (rtc_params s) (prod_parameters producer))) (\<lambda>po.
          case po of
            None \<Rightarrow> panic NilDeref
          | Some parameters \<Rightarrow>
              let rtp = pq_RtpParameters parameters;
                  codecs = map (pb_codec (\<lambda>f. \<not> (prod_kind producer = ''audio'' \<and> fb_Type f = ''nack'')))
                    (rc_MediaCodecs rtp) in
              bnd (producer_encodings (prod_kind producer) (rc_Encodings rtp)) (\<lambda>(encodings, encs').
              bnd (wr (\<lambda>s. s\<lparr>rtc_params := AList.update (prod_parameters producer)
                     (parameters\<lparr>pq_RtpParameters := rtp\<lparr>rc_Encodings := encs'\<rparr>\<rparr>) (rtc_params s)\<rparr>)) (\<lambda>_.
              bnd (sendRequest (rt_workerId r) (ProduceReq
                     \<lparr>dq_RouterId = routerId r, dq_TransportId = prod_transportId producer,
                      dq_ProducerId = prod_producerId producer, dq_Kind = prod_kind producer,
                      dq_AppData = '''', dq_Method = ''create'',
                      dq_RtpParameters = Some (pb_rtp_parameters (prod_kind producer) rtp codecs encodings)\<rparr>)) (\<lambda>res.
              expect_reply GetProduceRes ds_Success ds_ErrorDetail res)))))"

definition rtc_CloseProducer ::
  "Router option \<Rightarrow> Producer \<Rightarrow> (string + ProduceResponse, 'z rtc_state_scheme) go" where
  "rtc_CloseProducer router producer =
     (if invalid_router router then ret (Inl ''invalid router'') else
      case router of
        None \<Rightarrow> ret (Inl ''invalid router'')
      | Some r \<Rightarrow>
          bnd (sendRequest (rt_workerId r) (ProduceReq
                 \<lparr>dq_RouterId = routerId r, dq_TransportId = prod_transportId producer,
                  dq_ProducerId = prod_producerId producer, dq_Kind = prod_kind producer,
                  dq_AppData = '''', dq_Method = ''close'', dq_RtpParameters = None\<rparr>)) (\<lambda>res.
          expect_reply GetProduceRes ds_Success ds_ErrorDetail res))"

text \<open>For a consumer the loop reads \<^verbatim>\<open>v.Rtx.Ssrc\<close> of a video encoding without a nil check.\<close>

fun consumer_encodings :: "string \<Rightarrow> Encodings option list \<Rightarrow> Encoding list option" where
  "consumer_encodings kind [] = Some []"
| "consumer_encodings kind (None # vs) = None"
| "consumer_encodings kind (Some v # vs) =
     (if kind = ''video''
      then (case enc_Rtx v of
              None \<Rightarrow> None
            | Some x \<Rightarrow> map_option ((#) ((pb_encoding v)\<lparr>en_HasRtx := True, en_RtxSsrc := rtx_Ssrc x\<rparr>))
                (consumer_encodings kind vs))
      else map_option ((#) (pb_encoding v)) (consumer_encodings kind vs))"

definition CreateConsumer ::
  "Router option \<Rightarrow> NewConsumerReqData \<Rightarrow> (string + ConsumeResponse, 'z rtc_state_scheme) go" where
  "CreateConsumer router consumerReq =
     (if invalid_router router then ret (Inl ''invalid router'') else
      case router of
        None \<Rightarrow> ret (Inl ''invalid router'')
      | Some r \<Rightarrow>
          let rtp = nc_RtpParameters consumerReq;
              codecs = map (pb_codec (\<lambda>_. True)) (rc_MediaCodecs rtp) in
          (case consumer_encodings (nc_Kind consumerReq) (rc_Encodings rtp) of
             None \<Rightarrow> panic NilDeref
           | Some encodings \<Rightarrow>
               bnd (sendRequest (rt_workerId r) (ConsumerReq
                      \<lparr>oq_RouterId = routerId r, oq_TransportId = nc_TransportId consumerReq,
                       oq_ProducerId = nc_ProducerId consumerReq,
                       oq_ConsumerId = nc_ConsumerId consumerReq, oq_Kind = nc_Kind consumerReq,
                       oq_AppData = '''', oq_Method = ''create'',
                       oq_RtpParameters = Some (pb_rtp_parameters (nc_Kind consumerReq) rtp codecs encodings)\<rparr>)) (\<lambda>res.
               expect_reply GetConsumerRes os_Success os_ErrorDetail res)))"

definition CloseConsumer ::
  "Router option \<Rightarrow> Consumer \<Rightarrow> (string + ConsumeResponse, 'z rtc_state_scheme) go" where
  "CloseConsumer router consumer =
     (if invalid_router router then ret (Inl ''invalid router'') else
      case router of
        None \<Rightarrow> ret (Inl ''invalid router'')
      | Some r \<Rightarrow>
          bnd (sendRequest (rt_workerId r) (ConsumerReq
                 \<lparr>oq_RouterId = routerId r, oq_TransportId = cons_transportId consumer,
                  oq_ProducerId = cons_producerId consumer, oq_ConsumerId = cons_consumerId consumer,
                  oq_Kind = cons_kind consumer, oq_AppData = '''', oq_Method = ''close'',
                  oq_RtpParameters = None\<rparr>)) (\<lambda>res.
          expect_reply GetConsumerRes os_Success os_ErrorDetail res))"

subsection \<open>Every request ends, and what it leaves alone\<close>

text \<open>
  A request to a worker returns or panics on a reply of the wrong kind; it never blocks, keeps the
  invariant of the streams and changes nothing outside the server's own tables.
\<close>

definition quiet :: "'z rtc_state_scheme \<Rightarrow> ('a, 'z rtc_state_scheme) go \<Rightarrow> bool" where
  "quiet s m \<longleftrightarrow> wp m (\<lambda>_ t. streams_ok t \<and> rtc_outer t = rtc_outer s) (\<lambda>e. e = NilDeref) (\<lambda>_. False) s"

lemma wp_sendRequest_quiet:
  assumes "streams_ok s"
    and "\<And>r t. streams_ok t \<Longrightarrow> rtc_outer t = rtc_outer s \<Longrightarrow> Q r t"
  shows "wp (sendRequest w p) Q F R s"
  by (rule wp_mono[OF wp_keeps[OF sendRequest_post[OF assms(1)] keeps_sendRequest]])
    (use assms(2) in \<open>auto simp: request_post_def\<close>)

lemma wp_expect_reply:
  assumes "\<And>r. Q r s" and "F NilDeref"
  shows "wp (expect_reply g ok det r) Q F R s"
  using assms by (simp add: expect_reply_def split: sum.split option.split)

text \<open>
  Workers keep to the protocol for routers: a reply with the number of a router request is of the router kind.
\<close>

definition router_replies :: "'z rtc_state_scheme \<Rightarrow> bool" where
  "router_replies s \<longleftrightarrow> (\<forall>i sid q req evs sid' a.
     wire s i sid \<lparr>s2w_SeqId = q, s2w_Payload = CreateRouterReq req\<rparr> = Sent evs \<longrightarrow> (sid', RecvMsg a) \<in> set evs \<longrightarrow>
     is_reply a \<longrightarrow> w2s_SeqId a = q \<longrightarrow> GetCreateRouterRes a \<noteq> None)"

lemma router_replies_frame [simp]:
  "router_replies (s\<lparr>rnd := a\<rparr>) = router_replies s" "router_replies (s\<lparr>clock := b\<rparr>) = router_replies s"
  "router_replies (s\<lparr>order := c\<rparr>) = router_replies s" "router_replies (s\<lparr>rtc_wm := d\<rparr>) = router_replies s"
  by (simp_all add: router_replies_def)

lemma request_post_router:
  "request_post s w (CreateRouterReq req) (Inr m) t \<Longrightarrow> router_replies s \<Longrightarrow> GetCreateRouterRes m \<noteq> None"
  unfolding request_post_def received_def router_replies_def by blast

lemma request_post_streams: "request_post s w p r t \<Longrightarrow> streams_ok t"
  by (simp add: request_post_def)

lemma wp_sendRequest_router:
  assumes "streams_ok s"
    and "\<And>r t. streams_ok t \<Longrightarrow> rtc_outer t = rtc_outer s \<Longrightarrow>
      (\<And>m. r = Inr m \<Longrightarrow> router_replies s \<Longrightarrow> GetCreateRouterRes m \<noteq> None) \<Longrightarrow> Q r t"
  shows "wp (sendRequest w (CreateRouterReq req)) Q F R s"
  by (rule wp_mono[OF wp_keeps[OF sendRequest_post[OF assms(1)] keeps_sendRequest]])
    (auto intro!: assms(2) dest: request_post_router simp: request_post_streams)

lemma wp_expect_router:
  assumes "\<And>r. Q r s" and "\<And>m. r = Inr m \<Longrightarrow> ok \<Longrightarrow> GetCreateRouterRes m \<noteq> None" and "\<not> ok \<Longrightarrow> F NilDeref"
  shows "wp (expect_reply GetCreateRouterRes success det r) Q F R s"
  using assms by (cases ok) (auto simp: expect_reply_def split: sum.split option.split)

lemma rtc_outer_rnd [simp]: "rtc_outer (s\<lparr>rnd := r\<rparr>) = rtc_outer s"
  by (simp add: rtc_outer_def)

lemma rtc_outer_clock [simp]: "rtc_outer (s\<lparr>clock := r\<rparr>) = rtc_outer s"
  by (simp add: rtc_outer_def)

lemma rtc_outer_wm [simp]: "rtc_outer (s\<lparr>rtc_wm := r\<rparr>) = rtc_outer s"
  by (simp add: rtc_outer_def)

lemma quiet_CloseRouterOnWorker: "streams_ok s \<Longrightarrow> quiet s (CloseRouterOnWorker router)"
  unfolding quiet_def CloseRouterOnWorker_def wp_bnd wp_RandString
  by (rule wp_sendRequest_quiet) (auto intro!: wp_expect_reply simp: wp_case_sum split: sum.split)

text \<open>Closing a router on workers that keep to the protocol does not panic.\<close>

lemma wp_CloseRouterOnWorker:
  assumes "streams_ok s" and "router_replies s" and "\<And>r t. rtc_outer t = rtc_outer s \<Longrightarrow> Q r t"
  shows "wp (CloseRouterOnWorker router) Q F R s"
  using assms(1,2) unfolding CloseRouterOnWorker_def wp_bnd wp_RandString
  by (intro wp_sendRequest_router)
    (auto intro!: wp_expect_router[where ok = True] assms(3) simp: wp_case_sum split: sum.split)

lemma quiet_CreateWebrtcTransport: "streams_ok s \<Longrightarrow> quiet s (rtc_CreateWebrtcTransport router)"
  unfolding quiet_def rtc_CreateWebrtcTransport_def wp_if wp_case_option wp_bnd wp_RandString
  by (auto intro!: wp_sendRequest_quiet wp_expect_reply split: option.split)

lemma quiet_ConnectWebrtcTransport: "streams_ok s \<Longrightarrow> quiet s (rtc_ConnectWebrtcTransport router req)"
  unfolding quiet_def rtc_ConnectWebrtcTransport_def wp_if wp_case_option wp_bnd
  by (auto intro!: wp_sendRequest_quiet wp_expect_reply simp: wp_case_sum split: option.split sum.split)

lemma quiet_CloseProducer: "streams_ok s \<Longrightarrow> quiet s (rtc_CloseProducer router producer)"
  unfolding quiet_def rtc_CloseProducer_def wp_if wp_case_option wp_bnd
  by (auto intro!: wp_sendRequest_quiet wp_expect_reply split: option.split)

lemma quiet_CreateConsumer: "streams_ok s \<Longrightarrow> quiet s (CreateConsumer router req)"
  unfolding quiet_def CreateConsumer_def Let_def wp_if wp_case_option wp_bnd
  by (auto intro!: wp_sendRequest_quiet wp_expect_reply split: option.split)

lemma quiet_CloseConsumer: "streams_ok s \<Longrightarrow> quiet s (CloseConsumer router consumer)"
  unfolding quiet_def CloseConsumer_def wp_if wp_case_option wp_bnd
  by (auto intro!: wp_sendRequest_quiet wp_expect_reply split: option.split)

text \<open>
  The encodings of a producer: the loop returns unless an entry is nil, and what it stores makes the
  later loop over the same encodings for a consumer return the same list.
\<close>

lemma producer_encodings_total:
  "None \<notin> set vs \<Longrightarrow> \<exists>es vs' r. producer_encodings kind vs s = Ret (es, vs') (s\<lparr>rnd := r\<rparr>) \<and>
     consumer_encodings kind vs' = Some es \<and> None \<notin> set vs'"
proof (induction kind vs arbitrary: s rule: producer_encodings.induct)
  case (1 kind)
  show ?case by (simp add: ret_def) (rule exI[of _ "rnd s"], simp)
next
  case (3 kind v vs)
  obtain e v' r where step: "(if kind = ''video''
          then bnd (case enc_Rtx v of
                      None \<Rightarrow> bnd draw (\<lambda>x. let ssrc = of_nat x in
                                ret (v\<lparr>enc_Ssrc := ssrc, enc_Rtx := Some \<lparr>rtx_Ssrc = ssrc + 1\<rparr>\<rparr>))
                    | Some _ \<Rightarrow> ret v) (\<lambda>v'.
               ret ((pb_encoding v)\<lparr>en_Ssrc := enc_Ssrc v',
                      en_RtxSsrc := (case enc_Rtx v' of None \<Rightarrow> 0 | Some x \<Rightarrow> rtx_Ssrc x),
                      en_HasRtx := True\<rparr>, v'))
          else ret (pb_encoding v, v)) s = Ret (e, v') (s\<lparr>rnd := r\<rparr>)"
    and ev: "\<And>vs'. consumer_encodings kind (Some v' # vs') = map_option ((#) e) (consumer_encodings kind vs')"
  proof (cases "kind = ''video''")
    case False
    then show ?thesis using that[of "pb_encoding v" v "rnd s"] by (simp add: ret_def)
  next
    case True
    show ?thesis
    proof (cases "enc_Rtx v")
      case None
      with True show ?thesis
        using that[of "(pb_encoding v)\<lparr>en_Ssrc := of_nat (rnd s 0), en_HasRtx := True, en_RtxSsrc := of_nat (rnd s 0) + 1\<rparr>"
          "v\<lparr>enc_Ssrc := of_nat (rnd s 0), enc_Rtx := Some \<lparr>rtx_Ssrc = of_nat (rnd s 0) + 1\<rparr>\<rparr>" "\<lambda>i. rnd s (Suc i)"]
        by (simp add: go_eval draw_def pb_encoding_def Let_def)
    next
      case (Some x)
      with True show ?thesis
        using that[of "(pb_encoding v)\<lparr>en_HasRtx := True, en_RtxSsrc := rtx_Ssrc x\<rparr>" v "rnd s"]
        by (simp add: go_eval pb_encoding_def)
    qed
  qed
  obtain es vs' r' where "producer_encodings kind vs (s\<lparr>rnd := r\<rparr>) = Ret (es, vs') (s\<lparr>rnd := r\<rparr>\<lparr>rnd := r'\<rparr>)"
    "consumer_encodings kind vs' = Some es" "None \<notin> set vs'"
    using "3.IH"[of "s\<lparr>rnd := r\<rparr>"] "3.prems" by auto
  with step ev[of vs'] show ?case by (simp add: bnd_def ret_def del: consumer_encodings.simps) auto
qed simp

lemma keeps_producer_encodings [keeps_intros]:
  "(\<And>s r. f (s\<lparr>rnd := r\<rparr>) = f s) \<Longrightarrow> keeps f (producer_encodings kind vs)"
proof (induction kind vs rule: producer_encodings.induct)
  case (3 kind v vs)
  then show ?case by (auto simp: Let_def intro!: keeps_intros)
qed (auto intro: keeps_ret keeps_panic)

text \<open>What \<^verbatim>\<open>CreateProducer\<close> may change of the decoded request: its encodings, and so that a consumer can read them.\<close>

definition encoded_params :: "string \<Rightarrow> ProduceReqData \<Rightarrow> ProduceReqData \<Rightarrow> bool" where
  "encoded_params kind p p' \<longleftrightarrow> (\<exists>vs es. p' = p\<lparr>pq_RtpParameters := (pq_RtpParameters p)\<lparr>rc_Encodings := vs\<rparr>\<rparr> \<and>
     consumer_encodings kind vs = Some es)"

lemma wp_CreateProducer:
  assumes ok: "streams_ok s" and p: "map_of (rtc_params s) (prod_parameters producer) = Some p"
    and nonil: "None \<notin> set (rc_Encodings (pq_RtpParameters p))"
    and router: "\<not> invalid_router (Some r)"
    and Q: "\<And>res t p'. streams_ok t \<Longrightarrow> encoded_params (prod_kind producer) p p' \<Longrightarrow>
      rtc_outer t = (order s, AList.update (prod_parameters producer) p' (rtc_params s), rtc_state.more s) \<Longrightarrow> Q res t"
    and "F NilDeref"
  shows "wp (CreateProducer (Some r) producer) Q F R s"
proof -
  let ?rtp = "pq_RtpParameters p" and ?k = "prod_kind producer"
  obtain es vs u where enc: "producer_encodings ?k (rc_Encodings ?rtp) s = Ret (es, vs) (s\<lparr>rnd := u\<rparr>)"
    and c: "consumer_encodings ?k vs = Some es"
    using producer_encodings_total[OF nonil, of ?k s] by blast
  have enc': "encoded_params ?k p (p\<lparr>pq_RtpParameters := ?rtp\<lparr>rc_Encodings := vs\<rparr>\<rparr>)"
    using c unfolding encoded_params_def by blast
  have run: "wp (producer_encodings ?k (rc_Encodings ?rtp)) Q' F R s \<longleftrightarrow> Q' (es, vs) (s\<lparr>rnd := u\<rparr>)" for Q'
    by (simp add: wp_def enc)
  show ?thesis
    using router ok p assms(6)
    unfolding CreateProducer_def Let_def wp_if wp_bnd wp_rd
    by (auto simp: run rtc_outer_def intro!: wp_sendRequest_quiet wp_expect_reply Q[OF _ enc'])
qed

lemma CreateProducer_invalid:
  "invalid_router (Some r) \<Longrightarrow> CreateProducer (Some r) producer s = Ret (Inl ''invalid router'') s"
  by (simp add: CreateProducer_def ret_def)

text \<open>The choice of a worker reads the clock and one iteration order.\<close>

lemma wp_choose_worker [simp, wp_rules]:
  "wp choose_worker Q F R s \<longleftrightarrow>
     Q (ChooseBestWorker (clock s 0) (order s 0 (keys (wm_workers (rtc_wm s)))) (rtc_wm s))
       (s\<lparr>clock := \<lambda>i. clock s (Suc i), order := \<lambda>i. order s (Suc i)\<rparr>)"
  by (simp add: choose_worker_def)

lemma wp_CreateRouterOnWorker:
  assumes ok: "streams_ok s"
    and Q: "\<And>r t. streams_ok t \<Longrightarrow> rtc_outer t = (\<lambda>i. order s (Suc i), rtc_params s, rtc_state.more s) \<Longrightarrow>
      (\<And>router. r = Inr router \<Longrightarrow> producers router = [] \<and> consumers router = []) \<Longrightarrow> Q r t"
    and "F NilDeref"
  shows "wp CreateRouterOnWorker Q F R s"
  using ok assms(3) unfolding CreateRouterOnWorker_def Let_def wp_bnd wp_choose_worker wp_case_option wp_RandString
  by (auto simp: wp_case_sum rtc_outer_def new_router_def split: option.split sum.split
      intro!: Q wp_sendRequest_quiet wp_expect_reply)

subsection \<open>Correctness of the requests\<close>

text \<open>
  C37. The encodings of a producer: unless the client sent a null entry, the loop of \<^verbatim>\<open>CreateProducer\<close>
  returns, and it leaves the encodings in a state in which the loop of \<^verbatim>\<open>CreateConsumer\<close> neither meets a
  missing retransmission entry nor a null entry and announces the very same encodings to the worker.
\<close>

theorem producer_consumer_encodings:
  assumes "None \<notin> set vs"
  shows "\<exists>es vs' r. producer_encodings kind vs s = Ret (es, vs') (s\<lparr>rnd := r\<rparr>) \<and>
    consumer_encodings kind vs' = Some es \<and> None \<notin> set vs'"
  by (rule producer_encodings_total[OF assms])

theorem producer_consumer_encodings_witness:
  "\<exists>es vs' r. producer_encodings ''video'' [Some \<lparr>enc_Active = True, enc_ScalabilityMode = ''L1T3'', enc_ScaleResolutionDownBy = 1,
       enc_MaxBitrate = 1000, enc_Rid = ''h'', enc_Dtx = False, enc_Ssrc = 0, enc_Rtx = None\<rparr>] (sample_rtc (\<lambda>_ _ _. Sent []) ()) =
       Ret (es, vs') ((sample_rtc (\<lambda>_ _ _. Sent []) ())\<lparr>rnd := r\<rparr>) \<and> consumer_encodings ''video'' vs' = Some es"
  using producer_consumer_encodings[of "[Some \<lparr>enc_Active = True, enc_ScalabilityMode = ''L1T3'', enc_ScaleResolutionDownBy = 1,
       enc_MaxBitrate = 1000, enc_Rid = ''h'', enc_Dtx = False, enc_Ssrc = 0, enc_Rtx = None\<rparr>]" "''video''" "sample_rtc (\<lambda>_ _ _. Sent []) ()"]
  by (auto simp del: producer_encodings.simps consumer_encodings.simps)

lemma wp_sendRequest_wm:
  assumes "streams_ok s" and "reply_wire s"
    and "\<And>r t. rtc_wm t = rtc_wm s \<Longrightarrow> (\<And>m. r = Inr m \<Longrightarrow> router_replies s \<Longrightarrow> GetCreateRouterRes m \<noteq> None) \<Longrightarrow> Q r t"
  shows "wp (sendRequest w (CreateRouterReq req)) Q F R s"
  by (rule wp_mono[OF wp_conj[OF sendRequest_keeps_wm[OF assms(1,2)] sendRequest_post[OF assms(1)]]])
    (auto intro!: assms(3) dest: request_post_router)

lemma reply_wire_frame [simp]:
  "reply_wire (s\<lparr>rnd := a\<rparr>) = reply_wire s" "reply_wire (s\<lparr>clock := b\<rparr>) = reply_wire s"
  "reply_wire (s\<lparr>order := c\<rparr>) = reply_wire s" "reply_wire (s\<lparr>rtc_wm := d\<rparr>) = reply_wire s"
  by (simp_all add: reply_wire_def)

lemma CreateRouterOnWorker_wp:
  assumes "streams_ok s" and "reply_wire s"
  shows "wp CreateRouterOnWorker (\<lambda>r t.
      case r of
        Inl err \<Rightarrow> rtc_wm t = rtc_wm s
      | Inr router \<Rightarrow>
          (\<exists>w. ChooseBestWorker (clock s 0) (order s 0 (keys (wm_workers (rtc_wm s)))) (rtc_wm s) = Some w \<and>
            rt_workerId router = wk_workerId w \<and> producers router = [] \<and> consumers router = [] \<and>
            rtc_wm t = snd (AddRouter (wk_workerId w) (routerId router) (rtc_wm s))))
    (\<lambda>e. e = NilDeref \<and> \<not> router_replies s) (\<lambda>_. False) s"
  using assms unfolding CreateRouterOnWorker_def Let_def wp_bnd wp_choose_worker wp_case_option wp_RandString create_router_req_def
  by (auto simp: wp_case_sum new_router_def split: option.split sum.split
      intro!: wp_sendRequest_wm wp_expect_router[where ok = "router_replies s"])

text \<open>
  C25. A router is counted exactly when a worker confirmed it, provided that nothing but replies arrives on the worker
  streams while the request waits (no registration, keepalive or disconnection). If \<^verbatim>\<open>CreateRouterOnWorker\<close> returns a router, the
  router is new and empty, belongs to the worker that \<^verbatim>\<open>ChooseBestWorker\<close> picks, and is added to that worker's list; if it
  returns an error (no worker, send failure, timeout or refusal) the table of workers is unchanged. Once the request is
  sent it does not block, and it panics only when a worker answers the router request with a reply of another kind.
\<close>

theorem CreateRouterOnWorker_counts:
  assumes "streams_ok s" and "reply_wire s"
  shows "case CreateRouterOnWorker s of
      Ret (Inl err) t \<Rightarrow> rtc_wm t = rtc_wm s
    | Ret (Inr router) t \<Rightarrow>
        (\<exists>w. ChooseBestWorker (clock s 0) (order s 0 (keys (wm_workers (rtc_wm s)))) (rtc_wm s) = Some w \<and>
          rt_workerId router = wk_workerId w \<and> producers router = [] \<and> consumers router = [] \<and>
          rtc_wm t = snd (AddRouter (wk_workerId w) (routerId router) (rtc_wm s)))
    | Panic e \<Rightarrow> e = NilDeref \<and> \<not> router_replies s
    | Stuck t \<Rightarrow> False"
  using CreateRouterOnWorker_wp[OF assms] by (simp add: wp_def split: outcome.splits sum.splits)

definition one_worker :: WorkerManager where
  "one_worker = \<lparr>wm_workers = [(''w1'', sample_worker ''w1'' ''10.0.0.1'')]\<rparr>"

definition confirming :: "unit rtc_state_scheme" where
  "confirming = (sample_rtc (\<lambda>_ sid m. Sent [(sid, RecvMsg (router_reply (s2w_SeqId m) True))]) ())\<lparr>rtc_wm := one_worker\<rparr>"

lemma confirming_ok: "streams_ok confirming" "reply_wire confirming" "rtc_wm confirming = one_worker"
  by (simp_all add: confirming_def streams_ok_def sample_rtc_def reply_wire_def router_reply_def is_reply_def)

lemma confirming_creates: "\<exists>router t. CreateRouterOnWorker confirming = Ret (Inr router) t"
  by (simp add: confirming_def sample_rtc_def CreateRouterOnWorker_def choose_worker_def range_keys_def time_Now_def RandString_eq
      sendRequest_def getWorkerStream_def sendRequest_begin_parts set_pending_def stream_Send_eq deliver_reply_def sendRequest_take_def
      expect_reply_def GetCreateRouterRes_def is_reply_def fresh_def go_eval ChooseBestWorker_def GetOnlineWorkers_def
      worker_online_def List.map_filter_simps heartbeatTimeout_def worker_score_def new_router_def create_router_req_def
      router_reply_def keys_def run_wm_def one_worker_def sample_worker_def Let_def Sync_def sync_iteration_def)

theorem CreateRouterOnWorker_counts_witness:
  "\<exists>router t. CreateRouterOnWorker confirming = Ret (Inr router) t \<and> rt_workerId router = ''w1'' \<and>
     rtc_wm t = snd (AddRouter ''w1'' (routerId router) one_worker)"
proof -
  obtain router t where run: "CreateRouterOnWorker confirming = Ret (Inr router) t" using confirming_creates by blast
  have "ChooseBestWorker (clock confirming 0) (order confirming 0 (keys (wm_workers one_worker))) one_worker =
      Some (sample_worker ''w1'' ''10.0.0.1'')"
    by (simp add: confirming_def sample_rtc_def ChooseBestWorker_def GetOnlineWorkers_def worker_online_def List.map_filter_simps
        heartbeatTimeout_def one_worker_def sample_worker_def keys_def Let_def)
  with CreateRouterOnWorker_counts[OF confirming_ok(1,2)] run show ?thesis by (auto simp: confirming_ok(3) sample_worker_def)
qed

text \<open>
  C26. The kind of a reply is not checked: when a worker answers the request for a transport with a reply
  of another kind under the right number, the getter returns nil and the server panics on it.
\<close>

theorem wrong_reply_kind_panics:
  assumes "map_of (rtc_workers s) (rt_workerId r) = Some wsp" and "map_of (rtc_streams s) wsp = Some ws"
    and "map_of (rtc_sessions s) (st_stream ws) = Some ses" and "ses_ws ses = Some wsp"
    and "\<forall>p. wire s 0 (st_stream ws) \<lparr>s2w_SeqId = rtc_nextID s + 1, s2w_Payload = p\<rparr> = Sent [(st_stream ws, RecvMsg m)]"
    and "is_reply m" and "w2s_SeqId m = rtc_nextID s + 1"
    and "GetCreateTransportRes m = None" and "rt_workerId r \<noteq> ''''"
  shows "rtc_CreateWebrtcTransport (Some r) s = Panic NilDeref"
proof -
  let ?t = "s\<lparr>rnd := \<lambda>i. rnd s (i + 36)\<rparr>"
  have "\<exists>s'. sendRequest (rt_workerId r) p ?t = Ret (Inr m) s'" for p
    by (rule sendRequest_answered[where wsp = wsp and ws = ws and ses = ses]) (use assms in simp_all)
  then obtain f where "sendRequest (rt_workerId r) p ?t = Ret (Inr m) (f p)" for p by metis
  with assms(8,9) show ?thesis
    by (simp add: rtc_CreateWebrtcTransport_def invalid_router_def RandString_eq bnd_def expect_reply_def panic_def)
qed

theorem wrong_reply_kind_panics_witness:
  "rtc_CreateWebrtcTransport (Some (empty_router ''r1'' ''w1''))
     (sample_rtc (\<lambda>_ sid m. Sent [(sid, RecvMsg (router_reply (s2w_SeqId m) True))]) ()) = Panic NilDeref"
  by (rule wrong_reply_kind_panics[where wsp = 0 and ws = "\<lparr>st_stream = 5, st_pending = []\<rparr>"
        and ses = "\<lparr>ses_workerID = ''w1'', ses_ws = Some 0\<rparr>" and m = "router_reply 1 True"])
    (simp_all add: sample_rtc_def empty_router_def router_reply_def is_reply_def GetCreateTransportRes_def)

end
