(* ===== verification/Json.thy ===== *)
theory Json
  imports Rtp
begin

section \<open>Decoding of requests (encoding/json into the structs of reqResData.go)\<close>

text \<open>
  A handler turns the \<^verbatim>\<open>Data\<close> of a message into a request struct by \<^verbatim>\<open>json.Marshal\<close> and
  \<^verbatim>\<open>json.Unmarshal\<close>. The theory models \<^verbatim>\<open>Unmarshal\<close> on the value that \<^verbatim>\<open>Marshal\<close> wrote, an object whose
  keys are distinct and in ascending order: a key selects the field of its name, exactly or else up to the
  case of ASCII letters; a key without field is skipped; a field without key keeps its zero value; null
  leaves a value as it is and makes a pointer, a slice or an interface nil; a value of the wrong type or
  out of the range of the integer type makes the decoding fail. A decoder takes the value decoded so far.
\<close>

type_synonym 'a dec = "json \<Rightarrow> 'a \<Rightarrow> 'a option"

definition dec_string :: "string dec" where
  "dec_string j v = (case j of JString s \<Rightarrow> Some s | JNull \<Rightarrow> Some v | _ \<Rightarrow> None)"

definition dec_bool :: "bool dec" where
  "dec_bool j v = (case j of JBool b \<Rightarrow> Some b | JNull \<Rightarrow> Some v | _ \<Rightarrow> None)"

definition dec_int :: "go_int dec" where
  "dec_int j v = (case j of
      JInt i \<Rightarrow> if - (2 ^ 63) \<le> i \<and> i < 2 ^ 63 then Some (word_of_int i) else None
    | JNull \<Rightarrow> Some v | _ \<Rightarrow> None)"

definition dec_uint32 :: "u32 dec" where
  "dec_uint32 j v = (case j of
      JInt i \<Rightarrow> if 0 \<le> i \<and> i < 2 ^ 32 then Some (word_of_int i) else None
    | JNull \<Rightarrow> Some v | _ \<Rightarrow> None)"

definition dec_any :: "json dec" where
  "dec_any j v = Some j"

definition dec_ptr :: "'a \<Rightarrow> 'a dec \<Rightarrow> 'a option dec" where
  "dec_ptr zero d j v = (if j = JNull then Some None
     else map_option Some (d j (case v of None \<Rightarrow> zero | Some x \<Rightarrow> x)))"

definition dec_slice :: "'a \<Rightarrow> 'a dec \<Rightarrow> 'a list dec" where
  "dec_slice zero d j v = (case j of
      JArray xs \<Rightarrow> those (map (\<lambda>x. d x zero) xs) | JNull \<Rightarrow> Some [] | _ \<Rightarrow> None)"

definition lower :: "char \<Rightarrow> char" where
  "lower c = (if 65 \<le> (of_char c :: nat) \<and> (of_char c :: nat) \<le> 90 then char_of ((of_char c :: nat) + 32) else c)"

definition equal_fold :: "string \<Rightarrow> string \<Rightarrow> bool" where
  "equal_fold a b \<longleftrightarrow> map lower a = map lower b"

type_synonym 'a field = "string \<times> (json \<Rightarrow> 'a \<Rightarrow> 'a option)"

definition fld :: "string \<Rightarrow> 'b dec \<Rightarrow> ('a \<Rightarrow> 'b) \<Rightarrow> (('b \<Rightarrow> 'b) \<Rightarrow> 'a \<Rightarrow> 'a) \<Rightarrow> 'a field" where
  "fld name d get upd = (name, \<lambda>j v. map_option (\<lambda>x. upd (\<lambda>_. x) v) (d j (get v)))"

definition field_of :: "'a field list \<Rightarrow> string \<Rightarrow> (json \<Rightarrow> 'a \<Rightarrow> 'a option) option" where
  "field_of fs k = (case map_of fs k of
      Some f \<Rightarrow> Some f
    | None \<Rightarrow> map_option snd (find (\<lambda>(n, _). equal_fold n k) fs))"

fun dec_entries :: "'a field list \<Rightarrow> (string \<times> json) list \<Rightarrow> 'a \<Rightarrow> 'a option" where
  "dec_entries fs [] v = Some v"
| "dec_entries fs ((k, j) # kvs) v =
     (case field_of fs k of
        None \<Rightarrow> dec_entries fs kvs v
      | Some f \<Rightarrow> Option.bind (f j v) (dec_entries fs kvs))"

definition dec_struct :: "'a field list \<Rightarrow> 'a dec" where
  "dec_struct fs j v = (case j of JObject kvs \<Rightarrow> dec_entries fs kvs v | JNull \<Rightarrow> Some v | _ \<Rightarrow> None)"

subsection \<open>The structs of the requests\<close>

definition zero_NumStreams :: NumStreams where
  "zero_NumStreams = \<lparr>ns_OS = 0, ns_MIS = 0\<rparr>"

definition dec_NumStreams :: "NumStreams dec" where
  "dec_NumStreams = dec_struct [fld ''OS'' dec_int ns_OS ns_OS_update, fld ''MIS'' dec_int ns_MIS ns_MIS_update]"

definition dec_SCTPCapabilities :: "SCTPCapabilities dec" where
  "dec_SCTPCapabilities = dec_struct [fld ''numStreams'' dec_NumStreams sc_NumStreams sc_NumStreams_update]"

definition zero_AppData :: AppData where
  "zero_AppData = \<lparr>ad_Direction = '''', ad_Channel = '''', ad_Source = '''', ad_PeerId = ''''\<rparr>"

definition dec_AppData :: "AppData dec" where
  "dec_AppData = dec_struct
     [fld ''direction'' dec_string ad_Direction ad_Direction_update,
      fld ''channel'' dec_string ad_Channel ad_Channel_update,
      fld ''source'' dec_string ad_Source ad_Source_update,
      fld ''peerId'' dec_string ad_PeerId ad_PeerId_update]"

definition zero_CreateTransportReqData :: CreateTransportReqData where
  "zero_CreateTransportReqData = \<lparr>ct_SCTPCapabilities = \<lparr>sc_NumStreams = zero_NumStreams\<rparr>,
     ct_ForceTCP = False, ct_AppData = zero_AppData\<rparr>"

definition dec_CreateTransportReqData :: "CreateTransportReqData dec" where
  "dec_CreateTransportReqData = dec_struct
     [fld ''sctpCapabilities'' dec_SCTPCapabilities ct_SCTPCapabilities ct_SCTPCapabilities_update,
      fld ''forceTcp'' dec_bool ct_ForceTCP ct_ForceTCP_update,
      fld ''appData'' dec_AppData ct_AppData ct_AppData_update]"

definition zero_Fingerprint :: Fingerprint where
  "zero_Fingerprint = \<lparr>fp_Algorithm = '''', fp_Value = ''''\<rparr>"

definition dec_Fingerprint :: "Fingerprint dec" where
  "dec_Fingerprint = dec_struct
     [fld ''algorithm'' dec_string fp_Algorithm fp_Algorithm_update,
      fld ''value'' dec_string fp_Value fp_Value_update]"

definition dec_DTLSParameters :: "DTLSParameters dec" where
  "dec_DTLSParameters = dec_struct
     [fld ''fingerprints'' (dec_slice zero_Fingerprint dec_Fingerprint) dtls_Fingerprints dtls_Fingerprints_update,
      fld ''role'' dec_string dtls_Role dtls_Role_update]"

definition zero_ConnectTransportReqData :: ConnectTransportReqData where
  "zero_ConnectTransportReqData = \<lparr>cn_TransportId = '''',
     cn_DTLSParameters = \<lparr>dtls_Fingerprints = [], dtls_Role = ''''\<rparr>\<rparr>"

definition dec_ConnectTransportReqData :: "ConnectTransportReqData dec" where
  "dec_ConnectTransportReqData = dec_struct
     [fld ''transportId'' dec_string cn_TransportId cn_TransportId_update,
      fld ''dtlsParameters'' dec_DTLSParameters cn_DTLSParameters cn_DTLSParameters_update]"

definition zero_Device :: Device where
  "zero_Device = \<lparr>dev_Flag = '''', dev_Name = '''', dev_Version = ''''\<rparr>"

definition dec_Device :: "Device dec" where
  "dec_Device = dec_struct
     [fld ''flag'' dec_string dev_Flag dev_Flag_update,
      fld ''name'' dec_string dev_Name dev_Name_update,
      fld ''version'' dec_string dev_Version dev_Version_update]"

definition zero_RtcpFeedback :: RtcpFeedback where
  "zero_RtcpFeedback = \<lparr>fb_Type = '''', fb_Parameter = ''''\<rparr>"

definition dec_RtcpFeedback :: "RtcpFeedback dec" where
  "dec_RtcpFeedback = dec_struct
     [fld ''type'' dec_string fb_Type fb_Type_update,
      fld ''parameter'' dec_string fb_Parameter fb_Parameter_update]"

definition zero_CodecParameters :: CodecParameters where
  "zero_CodecParameters = \<lparr>cp_PacketizationMode = 0, cp_ProfileLevelId = '''', cp_LevelAsymmetryAllowed = 0,
     cp_XGoogleStartBitrate = 0, cp_Apt = 0, cp_MinPTime = 0, cp_UseInBandFec = 0, cp_SpropStereo = 0,
     cp_UseDtx = 0\<rparr>"

definition dec_CodecParameters :: "CodecParameters dec" where
  "dec_CodecParameters = dec_struct
     [fld ''packetization-mode'' dec_int cp_PacketizationMode cp_PacketizationMode_update,
      fld ''profile-level-id'' dec_string cp_ProfileLevelId cp_ProfileLevelId_update,
      fld ''level-asymmetry-allowed'' dec_int cp_LevelAsymmetryAllowed cp_LevelAsymmetryAllowed_update,
      fld ''x-google-start-bitrate'' dec_int cp_XGoogleStartBitrate cp_XGoogleStartBitrate_update,
      fld ''apt'' dec_int cp_Apt cp_Apt_update,
      fld ''minptime'' dec_int cp_MinPTime cp_MinPTime_update,
      fld ''useinbandfec'' dec_int cp_UseInBandFec cp_UseInBandFec_update,
      fld ''sprop-stereo'' dec_int cp_SpropStereo cp_SpropStereo_update,
      fld ''usedtx'' dec_int cp_UseDtx cp_UseDtx_update]"

definition zero_CodecCapabilities :: CodecCapabilities where
  "zero_CodecCapabilities = \<lparr>cc_Kind = '''', cc_MimeType = '''', cc_ClockRate = 0, cc_Channels = 0,
     cc_Parameters = None, cc_Feedbacks = [], cc_PreferredPayloadType = 0, cc_PayloadType = 0\<rparr>"

definition dec_CodecCapabilities :: "CodecCapabilities dec" where
  "dec_CodecCapabilities = dec_struct
     [fld ''kind'' dec_string cc_Kind cc_Kind_update,
      fld ''mimeType'' dec_string cc_MimeType cc_MimeType_update,
      fld ''clockRate'' dec_int cc_ClockRate cc_ClockRate_update,
      fld ''channels'' dec_int cc_Channels cc_Channels_update,
      fld ''parameters'' (dec_ptr zero_CodecParameters dec_CodecParameters) cc_Parameters cc_Parameters_update,
      fld ''rtcpFeedback'' (dec_slice zero_RtcpFeedback dec_RtcpFeedback) cc_Feedbacks cc_Feedbacks_update,
      fld ''preferredPayloadType'' dec_int cc_PreferredPayloadType cc_PreferredPayloadType_update,
      fld ''payloadType'' dec_int cc_PayloadType cc_PayloadType_update]"

definition zero_ProducerHeadExtension :: ProducerHeadExtension where
  "zero_ProducerHeadExtension = \<lparr>he_Uri = '''', he_Id = 0, he_Encrypt = False, he_Parameters = JNull\<rparr>"

definition dec_ProducerHeadExtension :: "ProducerHeadExtension dec" where
  "dec_ProducerHeadExtension = dec_struct
     [fld ''uri'' dec_string he_Uri he_Uri_update,
      fld ''id'' dec_int he_Id he_Id_update,
      fld ''encrypt'' dec_bool he_Encrypt he_Encrypt_update,
      fld ''parameters'' dec_any he_Parameters he_Parameters_update]"

definition dec_Rtx :: "Rtx dec" where
  "dec_Rtx = dec_struct [fld ''ssrc'' dec_uint32 rtx_Ssrc rtx_Ssrc_update]"

definition zero_Encodings :: Encodings where
  "zero_Encodings = \<lparr>enc_Active = False, enc_ScalabilityMode = '''', enc_ScaleResolutionDownBy = 0,
     enc_MaxBitrate = 0, enc_Rid = '''', enc_Dtx = False, enc_Ssrc = 0, enc_Rtx = None\<rparr>"

definition dec_Encodings :: "Encodings dec" where
  "dec_Encodings = dec_struct
     [fld ''active'' dec_bool enc_Active enc_Active_update,
      fld ''scalabilityMode'' dec_string enc_ScalabilityMode enc_ScalabilityMode_update,
      fld ''scaleResolutionDownBy'' dec_int enc_ScaleResolutionDownBy enc_ScaleResolutionDownBy_update,
      fld ''maxBitrate'' dec_int enc_MaxBitrate enc_MaxBitrate_update,
      fld ''rid'' dec_string enc_Rid enc_Rid_update,
      fld ''dtx'' dec_bool enc_Dtx enc_Dtx_update,
      fld ''ssrc'' dec_uint32 enc_Ssrc enc_Ssrc_update,
      fld ''rtx'' (dec_ptr \<lparr>rtx_Ssrc = 0\<rparr> dec_Rtx) enc_Rtx enc_Rtx_update]"

definition zero_Rtcp :: Rtcp where
  "zero_Rtcp = \<lparr>rtcp_CName = '''', rtcp_ReducedSize = False\<rparr>"

definition dec_Rtcp :: "Rtcp dec" where
  "dec_Rtcp = dec_struct
     [fld ''cname'' dec_string rtcp_CName rtcp_CName_update,
      fld ''reducedSize'' dec_bool rtcp_ReducedSize rtcp_ReducedSize_update]"

definition zero_RtpCapabilities :: RtpCapabilities where
  "zero_RtpCapabilities = \<lparr>rc_Mid = '''', rc_MediaCodecs = [], rc_HeaderExtensions = [], rc_Encodings = [],
     rc_Rtcp = zero_Rtcp, rc_Msid = ''''\<rparr>"

definition dec_RtpCapabilities :: "RtpCapabilities dec" where
  "dec_RtpCapabilities = dec_struct
     [fld ''mid'' dec_string rc_Mid rc_Mid_update,
      fld ''codecs'' (dec_slice zero_CodecCapabilities dec_CodecCapabilities) rc_MediaCodecs rc_MediaCodecs_update,
      fld ''headerExtensions'' (dec_slice zero_ProducerHeadExtension dec_ProducerHeadExtension)
        rc_HeaderExtensions rc_HeaderExtensions_update,
      fld ''encodings'' (dec_slice None (dec_ptr zero_Encodings dec_Encodings)) rc_Encodings rc_Encodings_update,
      fld ''rtcp'' dec_Rtcp rc_Rtcp rc_Rtcp_update,
      fld ''msid'' dec_string rc_Msid rc_Msid_update]"

definition zero_JoinReqData :: JoinReqData where
  "zero_JoinReqData = \<lparr>jq_DisplayName = '''', jq_Device = None, jq_RtpCapabilities = zero_RtpCapabilities\<rparr>"

definition dec_JoinReqData :: "JoinReqData dec" where
  "dec_JoinReqData = dec_struct
     [fld ''displayName'' dec_string jq_DisplayName jq_DisplayName_update,
      fld ''device'' (dec_ptr zero_Device dec_Device) jq_Device jq_Device_update,
      fld ''rtpCapabilities'' dec_RtpCapabilities jq_RtpCapabilities jq_RtpCapabilities_update]"

definition zero_SCTPStreamParameters :: SCTPStreamParameters where
  "zero_SCTPStreamParameters = \<lparr>ss_StreamId = 0, ss_Orderd = False\<rparr>"

definition dec_SCTPStreamParameters :: "SCTPStreamParameters dec" where
  "dec_SCTPStreamParameters = dec_struct
     [fld ''streamId'' dec_int ss_StreamId ss_StreamId_update,
      fld ''orderd'' dec_bool ss_Orderd ss_Orderd_update]"

definition zero_ProduceDataReqData :: ProduceDataReqData where
  "zero_ProduceDataReqData = \<lparr>pdq_TransportId = '''', pdq_SCTPStreamParameters = zero_SCTPStreamParameters,
     pdq_Label = '''', pdq_AppData = zero_AppData\<rparr>"

definition dec_ProduceDataReqData :: "ProduceDataReqData dec" where
  "dec_ProduceDataReqData = dec_struct
     [fld ''transportId'' dec_string pdq_TransportId pdq_TransportId_update,
      fld ''sctpStreamParameters'' dec_SCTPStreamParameters pdq_SCTPStreamParameters pdq_SCTPStreamParameters_update,
      fld ''label'' dec_string pdq_Label pdq_Label_update,
      fld ''appData'' dec_AppData pdq_AppData pdq_AppData_update]"

definition zero_ProduceReqData :: ProduceReqData where
  "zero_ProduceReqData = \<lparr>pq_TransportId = '''', pq_Kind = '''', pq_RtpParameters = zero_RtpCapabilities\<rparr>"

definition dec_ProduceReqData :: "ProduceReqData dec" where
  "dec_ProduceReqData = dec_struct
     [fld ''transportId'' dec_string pq_TransportId pq_TransportId_update,
      fld ''kind'' dec_string pq_Kind pq_Kind_update,
      fld ''rtpParameters'' dec_RtpCapabilities pq_RtpParameters pq_RtpParameters_update]"

definition dec_ProduceResData :: "ProduceResData dec" where
  "dec_ProduceResData = dec_struct [fld ''producerId'' dec_string pr_ProducerId pr_ProducerId_update]"

subsection \<open>Properties of the decoder\<close>

lemma dec_entries_append:
  "dec_entries fs (xs @ ys) v = Option.bind (dec_entries fs xs v) (dec_entries fs ys)"
proof (induction xs arbitrary: v)
  case (Cons kj xs)
  obtain k j where "kj = (k, j)" by force
  with Cons.IH show ?case by (auto split: option.split intro!: Option.bind_cong)
qed simp

lemma dec_entries_skip: "field_of fs k = None \<Longrightarrow> dec_entries fs (xs @ (k, j) # ys) v = dec_entries fs (xs @ ys) v"
  by (auto simp: dec_entries_append intro!: Option.bind_cong)

lemma those_Some_set: "those xs = Some ys \<Longrightarrow> y \<in> set ys \<Longrightarrow> Some y \<in> set xs"
  by (induction xs arbitrary: ys) (auto split: option.splits)

lemma dec_ptr_None: "dec_ptr zero d j v = Some None \<Longrightarrow> j = JNull"
  by (auto simp: dec_ptr_def split: if_splits)

lemma dec_slice_ptr_nonnull:
  assumes "dec_slice None (dec_ptr zero d) j v = Some xs" and "None \<in> set xs"
  shows "\<exists>js. j = JArray js \<and> JNull \<in> set js"
proof (cases j)
  case (JArray js)
  then have "Some None \<in> set (map (\<lambda>x. dec_ptr zero d x None) js)"
    using assms by (auto simp: dec_slice_def dest: those_Some_set)
  with JArray show ?thesis by (auto dest: sym dec_ptr_None)
qed (use assms in \<open>auto simp: dec_slice_def\<close>)

end
