(* ===== verification/Room.thy ===== *)
theory Room
  imports Rtc_Requests Json
begin

section \<open>Rooms and their members (room.go, roomManager.go, the records of user.go)\<close>

text \<open>
  The state of the signalling server: it extends the state of \<^verbatim>\<open>WebRtcServer\<close> by the users, shared by
  pointer and so in a store under an address, the rooms of \<^verbatim>\<open>RoomManager\<close>, the set of users of \<^verbatim>\<open>WsServer\<close>
  and the configuration. A room is found under its id during a handler, which stands for the pointer the
  handler holds.

  The channel \<^verbatim>\<open>sendMsg\<close> of a user is unbuffered and drained by the goroutine \<^verbatim>\<open>WriteMessage\<close>. The field
  \<open>us_out\<close> is the sequence of messages that goroutine has received, \<open>us_writer\<close> says whether it still runs,
  \<open>us_closed\<close> whether the channel is closed, \<open>us_conn\<close> whether the server has not yet closed the connection. A send on a
  closed channel panics. A send that nobody receives blocks the sender; the blocked goroutine is not followed
  further (should \<^verbatim>\<open>Run\<close> close the channel later, its send would panic). Each handler runs as one step: the code holds no lock on rooms and users,
  and unsynchronised interleavings of handlers are outside the model.

  \<open>gRtcServer\<close> says whether \<^verbatim>\<open>StartGrpcServer\<close> has set the globals \<^verbatim>\<open>gRtcServer\<close> and \<^verbatim>\<open>gWorkerManager\<close>. The first call
  through them is that of \<^verbatim>\<open>NewRoom\<close>, and it dereferences nil before; all other calls need a room.
\<close>

datatype ws_data =
    NoData
  | JsonData json
  | ConfigData Config
  | CreateTransportResD CreateTransportResData
  | JoinResD JoinResData
  | ProduceDataResD ProduceDataResData
  | ProduceResD ProduceResData
  | NewDataConsumerD NewDataConsumerReqData
  | NewConsumerD NewConsumerReqData
  | PeerDataD PeerData
  | PeerD Peer
  | ConsumeResD ConsumeResData

record WsMessage =
  msg_Request :: bool
  msg_Response :: bool
  msg_Notification :: bool
  msg_Ok :: bool
  msg_Id :: go_int
  msg_Method :: string
  msg_Data :: ws_data

definition blank_message :: WsMessage where
  "blank_message = \<lparr>msg_Request = False, msg_Response = False, msg_Notification = False, msg_Ok = False,
     msg_Id = 0, msg_Method = '''', msg_Data = NoData\<rparr>"

record User =
  us_userId :: string
  us_PeerId :: string
  us_DisplayName :: string
  us_createTs :: int
  us_roomId :: string
  us_Device :: "Device option"
  us_RemoteAddress :: string
  us_reqId :: go_int
  us_newDataConsumerReq :: bool
  us_closed :: bool
  us_writer :: bool
  us_conn :: bool
  us_out :: "WsMessage list"

record Room =
  rm_roomId :: string
  rm_createTs :: int
  rm_router :: Router
  rm_users :: "(string, nat) gomap"

record srv_state = rtc_state +
  srv_users :: "(nat, User) gomap"
  srv_rooms :: "(string, Room) gomap"
  ws_users :: "nat list"
  gRtcServer :: bool
  gConfig :: Config

subsection \<open>Users, rooms and channels\<close>

definition get_user :: "nat \<Rightarrow> (User, 'z srv_state_scheme) go" where
  "get_user u s = (case map_of (srv_users s) u of None \<Rightarrow> Panic NilDeref | Some usr \<Rightarrow> Ret usr s)"

definition upd_user :: "nat \<Rightarrow> (User \<Rightarrow> User) \<Rightarrow> (unit, 'z srv_state_scheme) go" where
  "upd_user u f s = (case map_of (srv_users s) u of
      None \<Rightarrow> Panic NilDeref
    | Some usr \<Rightarrow> Ret () (s\<lparr>srv_users := AList.update u (f usr) (srv_users s)\<rparr>))"

definition get_room :: "string \<Rightarrow> (Room, 'z srv_state_scheme) go" where
  "get_room rid s = (case map_of (srv_rooms s) rid of None \<Rightarrow> Panic NilDeref | Some room \<Rightarrow> Ret room s)"

definition upd_room :: "string \<Rightarrow> (Room \<Rightarrow> Room) \<Rightarrow> (unit, 'z srv_state_scheme) go" where
  "upd_room rid f s = (case map_of (srv_rooms s) rid of
      None \<Rightarrow> Panic NilDeref
    | Some room \<Rightarrow> Ret () (s\<lparr>srv_rooms := AList.update rid (f room) (srv_rooms s)\<rparr>))"

definition send_msg :: "nat \<Rightarrow> WsMessage \<Rightarrow> (unit, 'z srv_state_scheme) go" where
  "send_msg u m s = (case map_of (srv_users s) u of
      None \<Rightarrow> Panic NilDeref
    | Some usr \<Rightarrow>
        if us_closed usr then Panic SendOnClosedChan
        else if \<not> us_writer usr then Stuck s
        else Ret () (s\<lparr>srv_users := AList.update u (usr\<lparr>us_out := us_out usr @ [m]\<rparr>) (srv_users s)\<rparr>))"

subsection \<open>Messages to a user (user.go)\<close>

definition NotifyNewPeer :: "nat \<Rightarrow> PeerData \<Rightarrow> (unit, 'z srv_state_scheme) go" where
  "NotifyNewPeer u d = send_msg u (blank_message\<lparr>msg_Notification := True, msg_Method := ''newPeer'',
     msg_Data := PeerDataD d\<rparr>)"

definition NotifyPeerClosed :: "nat \<Rightarrow> Peer \<Rightarrow> (unit, 'z srv_state_scheme) go" where
  "NotifyPeerClosed u p = send_msg u (blank_message\<lparr>msg_Notification := True, msg_Method := ''peerClosed'',
     msg_Data := PeerD p\<rparr>)"

definition NotifyConsumerClosed :: "nat \<Rightarrow> ConsumeResData \<Rightarrow> (unit, 'z srv_state_scheme) go" where
  "NotifyConsumerClosed u d = send_msg u (blank_message\<lparr>msg_Notification := True,
     msg_Method := ''consumerClosed'', msg_Data := ConsumeResD d\<rparr>)"

definition send_request :: "nat \<Rightarrow> string \<Rightarrow> ws_data \<Rightarrow> (unit, 'z srv_state_scheme) go" where
  "send_request u method d =
     bnd (get_user u) (\<lambda>usr.
     bnd (upd_user u (\<lambda>v. v\<lparr>us_reqId := us_reqId v + 1\<rparr>)) (\<lambda>_.
     send_msg u (blank_message\<lparr>msg_Request := True, msg_Id := us_reqId usr, msg_Method := method,
       msg_Data := d\<rparr>)))"

definition RequestNewDataConsumer :: "nat \<Rightarrow> NewDataConsumerReqData \<Rightarrow> (unit, 'z srv_state_scheme) go" where
  "RequestNewDataConsumer u d = send_request u ''newDataConsumer'' (NewDataConsumerD d)"

definition RequestNewConsumer :: "nat \<Rightarrow> NewConsumerReqData \<Rightarrow> (unit, 'z srv_state_scheme) go" where
  "RequestNewConsumer u d = send_request u ''newConsumer'' (NewConsumerD d)"

subsection \<open>The room manager (roomManager.go)\<close>

definition NewRoom :: "string \<Rightarrow> (Room option, 'z srv_state_scheme) go" where
  "NewRoom rid =
     bnd (rd gRtcServer) (\<lambda>set_up.
     if \<not> set_up then panic NilDeref
     else
       bnd CreateRouterOnWorker (\<lambda>r.
       case r of
         Inl err \<Rightarrow> ret None
       | Inr route \<Rightarrow>
           bnd time_Now (\<lambda>now.
           ret (Some \<lparr>rm_roomId = rid, rm_createTs = now div 1000000000, rm_router = route, rm_users = []\<rparr>))))"

definition GetOrCreateRoom :: "string \<Rightarrow> (bool, 'z srv_state_scheme) go" where
  "GetOrCreateRoom rid =
     bnd (rd (\<lambda>s. map_of (srv_rooms s) rid)) (\<lambda>ro.
     case ro of
       None \<Rightarrow>
         bnd (NewRoom rid) (\<lambda>no.
         case no of
           None \<Rightarrow> ret False
         | Some room \<Rightarrow>
             bnd (wr (\<lambda>s. s\<lparr>srv_rooms := AList.update rid room (srv_rooms s)\<rparr>)) (\<lambda>_. ret True))
     | Some _ \<Rightarrow> ret True)"

definition DeleteRoom :: "string \<Rightarrow> (unit, 'z srv_state_scheme) go" where
  "DeleteRoom rid = wr (\<lambda>s. s\<lparr>srv_rooms := AList.delete rid (srv_rooms s)\<rparr>)"

subsection \<open>Members of a room (room.go)\<close>

definition AddUser :: "string \<Rightarrow> nat \<Rightarrow> (unit, 'z srv_state_scheme) go" where
  "AddUser rid u =
     bnd (get_user u) (\<lambda>usr.
     upd_room rid (\<lambda>room. if map_of (rm_users room) (us_userId usr) = None
       then room\<lparr>rm_users := AList.update (us_userId usr) u (rm_users room)\<rparr> else room))"

definition GetUserNums :: "string \<Rightarrow> (nat, 'z srv_state_scheme) go" where
  "GetUserNums rid = bnd (get_room rid) (\<lambda>room. ret (length (rm_users room)))"

text \<open>
  The loop over \<^verbatim>\<open>r.users\<close>, in the order the runtime picks; the body reads the map at each turn.
\<close>

definition range_users :: "string \<Rightarrow> (string \<Rightarrow> nat \<Rightarrow> (unit, 'z srv_state_scheme) go) \<Rightarrow> (unit, 'z srv_state_scheme) go" where
  "range_users rid body =
     bnd (get_room rid) (\<lambda>room.
     bnd (range_keys (keys (rm_users room))) (\<lambda>ks.
     for_each (\<lambda>k. bnd (get_room rid) (\<lambda>room'.
       case map_of (rm_users room') k of None \<Rightarrow> ret () | Some v \<Rightarrow> body k v)) ks))"

definition DeleteUser :: "string \<Rightarrow> nat \<Rightarrow> (unit, 'z srv_state_scheme) go" where
  "DeleteUser rid u =
     bnd (get_user u) (\<lambda>usr.
     bnd (upd_room rid (\<lambda>room. room\<lparr>rm_users := AList.delete (us_userId usr) (rm_users room)\<rparr>)) (\<lambda>_.
     range_users rid (\<lambda>k v. NotifyPeerClosed v
       \<lparr>peer_PeerId = us_PeerId usr, peer_DisplayName = '''', peer_Device = None, peer_RemoteAddress = ''''\<rparr>)))"

definition peer_of :: "User \<Rightarrow> Peer" where
  "peer_of usr = \<lparr>peer_PeerId = us_PeerId usr, peer_DisplayName = us_DisplayName usr,
     peer_Device = us_Device usr, peer_RemoteAddress = us_RemoteAddress usr\<rparr>"

fun GetOtherUsers_loop :: "string \<Rightarrow> (string, nat) gomap \<Rightarrow> string list \<Rightarrow> (Peer list, 'z srv_state_scheme) go" where
  "GetOtherUsers_loop userId users [] = ret []"
| "GetOtherUsers_loop userId users (k # ks) =
     (if k = userId then GetOtherUsers_loop userId users ks
      else case map_of users k of
          None \<Rightarrow> GetOtherUsers_loop userId users ks
        | Some v \<Rightarrow>
            bnd (get_user v) (\<lambda>usr.
            bnd (GetOtherUsers_loop userId users ks) (\<lambda>userLst.
            ret (peer_of usr # userLst))))"

definition GetOtherUsers :: "string \<Rightarrow> nat \<Rightarrow> (Peer list, 'z srv_state_scheme) go" where
  "GetOtherUsers rid u =
     bnd (get_user u) (\<lambda>usr.
     bnd (get_room rid) (\<lambda>room.
     bnd (range_keys (keys (rm_users room))) (\<lambda>ks.
     GetOtherUsers_loop (us_userId usr) (rm_users room) ks)))"

definition NotifyOtherUsers :: "string \<Rightarrow> nat \<Rightarrow> (unit, 'z srv_state_scheme) go" where
  "NotifyOtherUsers rid u =
     bnd (get_user u) (\<lambda>usr.
     range_users rid (\<lambda>k v.
       if k = us_userId usr then ret ()
       else bnd (get_user u) (\<lambda>usr'. NotifyNewPeer v \<lparr>pd_Peer = peer_of usr'\<rparr>)))"

definition chat_parameters :: SCTPStreamParameters where
  "chat_parameters = \<lparr>ss_StreamId = 0, ss_Orderd = True\<rparr>"

definition ReqOtherNewDataConsumer :: "string \<Rightarrow> nat \<Rightarrow> (unit, 'z srv_state_scheme) go" where
  "ReqOtherNewDataConsumer rid u =
     bnd (get_user u) (\<lambda>usr.
     range_users rid (\<lambda>k v.
       if k = us_userId usr then ret ()
       else
         bnd (get_room rid) (\<lambda>room.
         bnd (RandString 36) (\<lambda>producerId.
         bnd (RandString 36) (\<lambda>consumerId.
         RequestNewDataConsumer v
           \<lparr>nd_PeerId = us_PeerId usr, nd_TransportId = getConsumerTransportId (rm_router room) (us_userId usr),
            nd_DataProducerId = producerId, nd_DataConsumerId = consumerId,
            nd_SCTPStreamParameters = chat_parameters, nd_Label = ''chat'',
            nd_AppData = zero_AppData\<lparr>ad_PeerId := us_PeerId usr, ad_Channel := ''chat''\<rparr>\<rparr>)))))"

subsection \<open>Consumers and producers of a room (room.go)\<close>

text \<open>
  \<^verbatim>\<open>CreateNewConsumerData\<close> copies the struct \<^verbatim>\<open>RtpParameters\<close> of the producer's request; its slices are
  shared, so the payload types and extension ids it writes change the producer's own parameters too. A
  video producer must offer two codecs and the second must have parameters, an audio producer one codec.
\<close>

definition retype_codecs :: "string \<Rightarrow> CodecCapabilities list \<Rightarrow> go_panic + CodecCapabilities list" where
  "retype_codecs kind cs =
     (if kind = ''video''
      then (case cs of
              c0 # c1 # rest \<Rightarrow>
                (case cc_Parameters c1 of
                   None \<Rightarrow> Inl NilDeref
                 | Some p \<Rightarrow> Inr (c0\<lparr>cc_PayloadType := 101\<rparr> #
                     c1\<lparr>cc_PayloadType := 102, cc_Parameters := Some (p\<lparr>cp_Apt := 101\<rparr>)\<rparr> # rest))
            | _ \<Rightarrow> Inl IndexOutOfRange)
      else (case cs of
              c0 # rest \<Rightarrow> Inr (c0\<lparr>cc_PayloadType := 100\<rparr> # rest)
            | [] \<Rightarrow> Inl IndexOutOfRange))"

definition upd_params :: "nat \<Rightarrow> (ProduceReqData \<Rightarrow> ProduceReqData) \<Rightarrow> (unit, 'z srv_state_scheme) go" where
  "upd_params a f s = (case map_of (rtc_params s) a of
      None \<Rightarrow> Panic NilDeref
    | Some p \<Rightarrow> Ret () (s\<lparr>rtc_params := AList.update a (f p) (rtc_params s)\<rparr>))"

definition set_codecs :: "CodecCapabilities list \<Rightarrow> ProduceReqData \<Rightarrow> ProduceReqData" where
  "set_codecs cs p = p\<lparr>pq_RtpParameters := (pq_RtpParameters p)\<lparr>rc_MediaCodecs := cs\<rparr>\<rparr>"

definition set_extensions :: "ProducerHeadExtension list \<Rightarrow> ProduceReqData \<Rightarrow> ProduceReqData" where
  "set_extensions xs p = p\<lparr>pq_RtpParameters := (pq_RtpParameters p)\<lparr>rc_HeaderExtensions := xs\<rparr>\<rparr>"

definition consumer_data ::
  "Consumer \<Rightarrow> RtpCapabilities \<Rightarrow> string \<Rightarrow> NewConsumerReqData" where
  "consumer_data consumer rtp peerId =
     \<lparr>nc_PeerId = peerId, nc_TransportId = cons_transportId consumer,
      nc_ConsumerId = cons_consumerId consumer, nc_ProducerId = cons_producerId consumer,
      nc_Kind = cons_kind consumer, nc_RtpParameters = rtp, nc_Type = ''simple'',
      nc_ProducerPaused = False,
      nc_AppData = zero_AppData\<lparr>ad_PeerId := peerId,
        ad_Source := (if cons_kind consumer = ''video'' then ''video'' else ''audio'')\<rparr>,
      nc_ConsumerScore = \<lparr>cs_Score = 10, cs_ProducerScore = 0,
        cs_ProducerScores = (if cons_kind consumer = ''video'' then [0, 0, 0] else [0])\<rparr>\<rparr>"

definition CreateNewConsumerData ::
  "string \<Rightarrow> Consumer \<Rightarrow> Producer \<Rightarrow> string \<Rightarrow> string \<Rightarrow> (NewConsumerReqData, 'z srv_state_scheme) go" where
  "CreateNewConsumerData rid consumer producer peerId userId =
     bnd (rd (\<lambda>s. map_of (rtc_params s) (prod_parameters producer))) (\<lambda>po.
     case po of
       None \<Rightarrow> panic NilDeref
     | Some parameters \<Rightarrow>
         bnd (get_room rid) (\<lambda>room.
         bnd (if cons_kind consumer = ''video'' then RandString 20
              else ret (rtcp_CName (rc_Rtcp (pq_RtpParameters parameters)))) (\<lambda>cname.
         case retype_codecs (cons_kind consumer) (rc_MediaCodecs (pq_RtpParameters parameters)) of
           Inl e \<Rightarrow> panic e
         | Inr codecs \<Rightarrow>
             bnd (upd_params (prod_parameters producer) (set_codecs codecs)) (\<lambda>_.
             let rtp = (pq_RtpParameters parameters)\<lparr>
                   rc_Mid := getConsumerStreamMid (rm_router room) userId,
                   rc_Rtcp := (rc_Rtcp (pq_RtpParameters parameters))\<lparr>rtcp_CName := cname\<rparr>,
                   rc_MediaCodecs := codecs\<rparr>;
                 extensions = ChangeExtensionId (rc_HeaderExtensions rtp) in
             bnd (CreateConsumer (Some (rm_router room)) (consumer_data consumer rtp peerId)) (\<lambda>_.
             bnd (upd_params (prod_parameters producer) (set_extensions extensions)) (\<lambda>_.
             ret (consumer_data consumer (rtp\<lparr>rc_HeaderExtensions := extensions\<rparr>) peerId)))))))"

definition room_addConsumer :: "string \<Rightarrow> string \<Rightarrow> Consumer \<Rightarrow> (bool, 'z srv_state_scheme) go" where
  "room_addConsumer rid userId consumer =
     bnd (get_room rid) (\<lambda>room.
     case addConsumer (rm_router room) userId (Some consumer) of
       (success, router) \<Rightarrow> bnd (upd_room rid (\<lambda>r. r\<lparr>rm_router := router\<rparr>)) (\<lambda>_. ret success))"

definition new_consumer :: "string \<Rightarrow> string \<Rightarrow> string \<Rightarrow> string \<Rightarrow> Consumer" where
  "new_consumer cid transportId kind producerId = \<lparr>cons_consumerId = cid, cons_transportId = transportId,
     cons_producerId = producerId, cons_kind = kind, cons_originSsrc = 0, cons_newSsrc = 0\<rparr>"

definition ReqPullOtherNewProducer :: "string \<Rightarrow> nat \<Rightarrow> Producer \<Rightarrow> (unit, 'z srv_state_scheme) go" where
  "ReqPullOtherNewProducer rid u producer =
     bnd (get_user u) (\<lambda>usr.
     range_users rid (\<lambda>k v.
       if k = us_userId usr then ret ()
       else
         bnd (get_room rid) (\<lambda>room.
         for_each (\<lambda>producer1.
           if prod_kind producer1 \<noteq> prod_kind producer then ret ()
           else
             bnd (RandString 36) (\<lambda>cid.
             let consumer = new_consumer cid (getConsumerTransportId (rm_router room) (us_userId usr))
                   (prod_kind producer) (prod_producerId producer1) in
             bnd (room_addConsumer rid (us_userId usr) consumer) (\<lambda>success.
             if success
             then bnd (get_user v) (\<lambda>vusr.
                  bnd (CreateNewConsumerData rid consumer producer1 (us_PeerId vusr) (us_userId usr)) (\<lambda>newConsumerData.
                  RequestNewConsumer u newConsumerData))
             else ret ())))
           (getProducerById (rm_router room) k))))"

definition ReqOtherNewConsumer :: "string \<Rightarrow> nat \<Rightarrow> Producer \<Rightarrow> (unit, 'z srv_state_scheme) go" where
  "ReqOtherNewConsumer rid u producer =
     bnd (get_user u) (\<lambda>usr.
     range_users rid (\<lambda>k v.
       if k = us_userId usr then ret ()
       else
         bnd (RandString 36) (\<lambda>cid.
         bnd (get_room rid) (\<lambda>room.
         bnd (get_user v) (\<lambda>vusr.
         let consumer = new_consumer cid (getConsumerTransportId (rm_router room) (us_userId vusr))
               (prod_kind producer) (prod_producerId producer) in
         bnd (room_addConsumer rid (us_userId vusr) consumer) (\<lambda>_.
         bnd (CreateNewConsumerData rid consumer producer (us_PeerId usr) (us_userId vusr)) (\<lambda>newConsumerData.
         RequestNewConsumer v newConsumerData)))))))"

definition transport_data :: "CreateTransportResponse \<Rightarrow> CreateTransportResData" where
  "transport_data res =
     \<lparr>tr_TransportID = ts_TransportId res,
      tr_ICEParameters = \<lparr>ice_UsernameFragment = ts_IceUfrag res, ice_Password = ts_IcePwd res, ice_ICELite = True\<rparr>,
      tr_ICECandidates = map (\<lambda>v. \<lparr>cand_Foundation = ic_Foundation v, cand_Priority = ucast (ic_Priority v),
        cand_IP = ic_Ip v, cand_Address = ic_Ip v, cand_Protocol = ic_Protocol v, cand_Port = ucast (ic_Port v),
        cand_Type = ''host'', cand_TCPType = ''''\<rparr>) (ts_IceCandidates res),
      tr_DTLSParameters = \<lparr>dtls_Fingerprints = map (\<lambda>v. \<lparr>fp_Algorithm = df_Algorithm v, fp_Value = df_Value v\<rparr>)
        (ts_DtlsFingerprints res), dtls_Role = ''auto''\<rparr>,
      tr_SCTPParameters = \<lparr>sp_Port = 5000, sp_OS = 1024, sp_MIS = 1024, sp_MaxMessageSize = 262144,
        sp_SendBufferSize = 262144, sp_SCTPBufferedAmount = 0, sp_IsDataChannel = True\<rparr>\<rparr>"

definition CreateWebrtcTransport ::
  "string \<Rightarrow> CreateTransportReqData \<Rightarrow> nat \<Rightarrow> (string + CreateTransportResData, 'z srv_state_scheme) go" where
  "CreateWebrtcTransport rid req u =
     bnd (get_room rid) (\<lambda>room.
     bnd (rtc_CreateWebrtcTransport (Some (rm_router room))) (\<lambda>r.
     case r of
       Inl err \<Rightarrow> ret (Inl ''not res from peer'')
     | Inr res \<Rightarrow>
         bnd (get_user u) (\<lambda>usr.
         let direction = ad_Direction (ct_AppData req) in
         if direction = ''producer''
         then bnd (upd_room rid (\<lambda>r. r\<lparr>rm_router := saveProducerTransportId (rm_router r) (us_userId usr) (ts_TransportId res)\<rparr>))
                (\<lambda>_. ret (Inr (transport_data res)))
         else if direction = ''consumer''
         then bnd (upd_room rid (\<lambda>r. r\<lparr>rm_router := saveConsumeTransportId (rm_router r) (us_userId usr) (ts_TransportId res)\<rparr>))
                (\<lambda>_. ret (Inr (transport_data res)))
         else ret (Inl ''bad AppData direction''))))"

definition CreateNewDataConsumer ::
  "string \<Rightarrow> nat \<Rightarrow> string \<Rightarrow> (NewDataConsumerReqData option, 'z srv_state_scheme) go" where
  "CreateNewDataConsumer rid u transportId =
     bnd (get_user u) (\<lambda>usr.
     bnd (get_room rid) (\<lambda>room.
     if getConsumerTransportId (rm_router room) (us_userId usr) = transportId then ret None
     else
       bnd (RandString 36) (\<lambda>producerId.
       bnd (RandString 36) (\<lambda>consumerId.
       ret (Some \<lparr>nd_PeerId = '''', nd_TransportId = getConsumerTransportId (rm_router room) (us_userId usr),
         nd_DataProducerId = producerId, nd_DataConsumerId = consumerId,
         nd_SCTPStreamParameters = chat_parameters, nd_Label = ''bot'',
         nd_AppData = zero_AppData\<lparr>ad_Channel := ''bot''\<rparr>\<rparr>)))))"

definition ConnectWebrtcTransport ::
  "string \<Rightarrow> ConnectTransportReqData \<Rightarrow> (string option, 'z srv_state_scheme) go" where
  "ConnectWebrtcTransport rid req =
     bnd (get_room rid) (\<lambda>room. rtc_ConnectWebrtcTransport (Some (rm_router room)) req)"

definition remove_remb :: "ProduceReqData \<Rightarrow> ProduceReqData" where
  "remove_remb p = set_codecs (map (\<lambda>c. c\<lparr>cc_Feedbacks := RemoveFeedbackRemb (cc_Feedbacks c)\<rparr>)
     (rc_MediaCodecs (pq_RtpParameters p))) p"

definition Produce :: "string \<Rightarrow> nat \<Rightarrow> ProduceReqData \<Rightarrow> (string, 'z srv_state_scheme) go" where
  "Produce rid u req =
     bnd (RandString 36) (\<lambda>pid.
     bnd (rd (\<lambda>s. fresh (rtc_params s))) (\<lambda>a.
     bnd (wr (\<lambda>s. s\<lparr>rtc_params := AList.update a req (rtc_params s)\<rparr>)) (\<lambda>_.
     let producer = \<lparr>prod_producerId = pid, prod_transportId = pq_TransportId req, prod_kind = pq_Kind req,
           prod_ssrc = 0, prod_parameters = a\<rparr> in
     bnd (get_user u) (\<lambda>usr.
     bnd (upd_room rid (\<lambda>r. r\<lparr>rm_router := addProducer (rm_router r) (us_userId usr) (Some producer)\<rparr>)) (\<lambda>_.
     bnd (upd_params a remove_remb) (\<lambda>_.
     bnd (get_room rid) (\<lambda>room.
     bnd (CreateProducer (Some (rm_router room)) producer) (\<lambda>_.
     bnd (ReqOtherNewConsumer rid u producer) (\<lambda>_.
     bnd (ReqPullOtherNewProducer rid u producer) (\<lambda>_.
     ret pid))))))))))"

definition CloseProducer :: "string \<Rightarrow> nat \<Rightarrow> string \<Rightarrow> (string option, 'z srv_state_scheme) go" where
  "CloseProducer rid u producerId =
     bnd (get_user u) (\<lambda>usr.
     bnd (get_room rid) (\<lambda>room.
     case GetProducer (rm_router room) (us_userId usr) producerId of
       None \<Rightarrow> ret (Some ''producer not found'')
     | Some producer \<Rightarrow>
         bnd (rtc_CloseProducer (Some (rm_router room)) producer) (\<lambda>_.
         bnd (upd_room rid (\<lambda>r. r\<lparr>rm_router := removeProducer (rm_router r) (us_userId usr) producerId\<rparr>)) (\<lambda>_.
         bnd (get_room rid) (\<lambda>room1.
         bnd (range_keys (keys (consumers (rm_router room1)))) (\<lambda>ks.
         case removeConsumerByProducerId ks (rm_router room1) (us_userId usr) producerId of
           (closedConsumers, router) \<Rightarrow>
             bnd (upd_room rid (\<lambda>r. r\<lparr>rm_router := router\<rparr>)) (\<lambda>_.
             bnd (range_keys (keys closedConsumers)) (\<lambda>cks.
             bnd (for_each (\<lambda>userId.
               bnd (get_room rid) (\<lambda>room2.
               case (map_of (rm_users room2) userId, map_of closedConsumers userId) of
                 (Some v, Some consumerId) \<Rightarrow> NotifyConsumerClosed v \<lparr>cr_ConsumerId = consumerId\<rparr>
               | _ \<Rightarrow> ret ())) cks) (\<lambda>_.
             ret None)))))))))"

definition Close :: "string \<Rightarrow> (unit, 'z srv_state_scheme) go" where
  "Close rid = bnd (get_room rid) (\<lambda>room. bnd (CloseRouterOnWorker (rm_router room)) (\<lambda>_. ret ()))"

end
