(* ===== verification/User.thy ===== *)
theory User
  imports Room
begin

section \<open>Requests of a user (user.go)\<close>

text \<open>
  The handlers of a user's messages, the dispatch of \<^verbatim>\<open>ReadMessage\<close> and the loop of \<^verbatim>\<open>WriteMessage\<close>. The
  user is named by its address. The \<^verbatim>\<open>Data\<close> of a request is the JSON value that \<^verbatim>\<open>Unmarshal\<close> put into
  the interface, so \<^verbatim>\<open>json.Marshal\<close> of it succeeds and only the second \<^verbatim>\<open>Unmarshal\<close> can fail.
\<close>

definition req_data :: "'a dec \<Rightarrow> 'a \<Rightarrow> WsMessage \<Rightarrow> 'a option" where
  "req_data d zero req = (case msg_Data req of JsonData j \<Rightarrow> d j zero | _ \<Rightarrow> d JNull zero)"

definition response_to :: "WsMessage \<Rightarrow> bool \<Rightarrow> WsMessage" where
  "response_to req ok = blank_message\<lparr>msg_Id := msg_Id req, msg_Response := True, msg_Ok := ok\<rparr>"

definition handleGetRouterRtpCapabilities :: "nat \<Rightarrow> WsMessage \<Rightarrow> (unit, 'z srv_state_scheme) go" where
  "handleGetRouterRtpCapabilities u req =
     bnd (rd gConfig) (\<lambda>cfg. send_msg u ((response_to req True)\<lparr>msg_Data := ConfigData cfg\<rparr>))"

definition handleCreateWebrtcTransport :: "nat \<Rightarrow> WsMessage \<Rightarrow> (unit, 'z srv_state_scheme) go" where
  "handleCreateWebrtcTransport u req =
     bnd (get_user u) (\<lambda>usr.
     bnd (GetOrCreateRoom (us_roomId usr)) (\<lambda>room.
     bnd (if \<not> room then ret (response_to req False)
          else case req_data dec_CreateTransportReqData zero_CreateTransportReqData req of
              None \<Rightarrow> ret (response_to req False)
            | Some reqData \<Rightarrow>
                bnd (CreateWebrtcTransport (us_roomId usr) reqData u) (\<lambda>r.
                case r of
                  Inl err \<Rightarrow> ret (response_to req False)
                | Inr resData \<Rightarrow> ret ((response_to req True)\<lparr>msg_Data := CreateTransportResD resData\<rparr>))) (\<lambda>response.
     send_msg u response)))"

definition bot_consumer :: "nat \<Rightarrow> string \<Rightarrow> string \<Rightarrow> (unit, 'z srv_state_scheme) go" where
  "bot_consumer u rid transportId =
     bnd (get_user u) (\<lambda>usr.
     if us_newDataConsumerReq usr then ret ()
     else
       bnd (CreateNewDataConsumer rid u transportId) (\<lambda>d.
       case d of
         None \<Rightarrow> ret ()
       | Some newDataConsumerReqData \<Rightarrow>
           bnd (send_request u ''newDataConsumer'' (NewDataConsumerD newDataConsumerReqData)) (\<lambda>_.
           upd_user u (\<lambda>v. v\<lparr>us_newDataConsumerReq := True\<rparr>))))"

definition handleConnectWebrtcTransport :: "nat \<Rightarrow> WsMessage \<Rightarrow> (unit, 'z srv_state_scheme) go" where
  "handleConnectWebrtcTransport u req =
     bnd (get_user u) (\<lambda>usr.
     bnd (GetOrCreateRoom (us_roomId usr)) (\<lambda>room.
     bnd (if \<not> room then ret (response_to req False)
          else case req_data dec_ConnectTransportReqData zero_ConnectTransportReqData req of
              None \<Rightarrow> ret (response_to req False)
            | Some reqData \<Rightarrow>
                bnd (bot_consumer u (us_roomId usr) (cn_TransportId reqData)) (\<lambda>_.
                bnd (ConnectWebrtcTransport (us_roomId usr) reqData) (\<lambda>err.
                case err of
                  Some e \<Rightarrow> ret (response_to req False)
                | None \<Rightarrow> ret ((response_to req True)\<lparr>msg_Data := ProduceDataResD \<lparr>pdr_DataProducerId = ''''\<rparr>\<rparr>)))) (\<lambda>response.
     send_msg u response)))"

definition handleJoin :: "nat \<Rightarrow> WsMessage \<Rightarrow> (unit, 'z srv_state_scheme) go" where
  "handleJoin u req =
     bnd (get_user u) (\<lambda>usr.
     bnd (GetOrCreateRoom (us_roomId usr)) (\<lambda>room.
     if \<not> room then panic NilDeref
     else
       bnd (case req_data dec_JoinReqData zero_JoinReqData req of
              None \<Rightarrow> ret ()
            | Some reqData \<Rightarrow> upd_user u (\<lambda>v. v\<lparr>us_Device := jq_Device reqData, us_DisplayName := jq_DisplayName reqData\<rparr>)) (\<lambda>_.
       bnd (NotifyOtherUsers (us_roomId usr) u) (\<lambda>_.
       bnd (GetOtherUsers (us_roomId usr) u) (\<lambda>otherUsers.
       send_msg u ((response_to req True)\<lparr>msg_Data := JoinResD \<lparr>jr_Peers = otherUsers\<rparr>\<rparr>))))))"

definition handleProduceData :: "nat \<Rightarrow> WsMessage \<Rightarrow> (unit, 'z srv_state_scheme) go" where
  "handleProduceData u req =
     bnd (get_user u) (\<lambda>usr.
     bnd (GetOrCreateRoom (us_roomId usr)) (\<lambda>room.
     bnd (if \<not> room then ret (response_to req False)
          else case req_data dec_ProduceDataReqData zero_ProduceDataReqData req of
              None \<Rightarrow> ret (response_to req False)
            | Some reqData \<Rightarrow>
                bnd (RandString 12) (\<lambda>dataProducerId.
                ret ((response_to req True)\<lparr>msg_Data := ProduceDataResD \<lparr>pdr_DataProducerId = dataProducerId\<rparr>\<rparr>))) (\<lambda>response.
     send_msg u response)))"

definition handleProduce :: "nat \<Rightarrow> WsMessage \<Rightarrow> (unit, 'z srv_state_scheme) go" where
  "handleProduce u req =
     bnd (get_user u) (\<lambda>usr.
     bnd (GetOrCreateRoom (us_roomId usr)) (\<lambda>room.
     bnd (if \<not> room then ret (response_to req True)
          else case req_data dec_ProduceReqData zero_ProduceReqData req of
              None \<Rightarrow> ret (response_to req True)
            | Some reqData \<Rightarrow>
                bnd (Produce (us_roomId usr) u reqData) (\<lambda>producerId.
                ret ((response_to req True)\<lparr>msg_Data := ProduceResD \<lparr>pr_ProducerId = producerId\<rparr>\<rparr>))) (\<lambda>response.
     send_msg u response)))"

definition HandleCloseProducer :: "nat \<Rightarrow> WsMessage \<Rightarrow> (unit, 'z srv_state_scheme) go" where
  "HandleCloseProducer u notify =
     bnd (get_user u) (\<lambda>usr.
     bnd (GetOrCreateRoom (us_roomId usr)) (\<lambda>room.
     if \<not> room then ret ()
     else case req_data dec_ProduceResData \<lparr>pr_ProducerId = ''''\<rparr> notify of
         None \<Rightarrow> ret ()
       | Some reqData \<Rightarrow>
           bnd (CloseProducer (us_roomId usr) u (pr_ProducerId reqData)) (\<lambda>_. ret ())))"

text \<open>One message of the loop of \<^verbatim>\<open>ReadMessage\<close>: \<open>None\<close> is a message that is no JSON value of the struct.\<close>

definition ReadMessage_one :: "nat \<Rightarrow> WsMessage option \<Rightarrow> (unit, 'z srv_state_scheme) go" where
  "ReadMessage_one u mo =
     (case mo of
        None \<Rightarrow> ret ()
      | Some req \<Rightarrow>
          let m = msg_Method req in
          if m = ''getRouterRtpCapabilities'' then handleGetRouterRtpCapabilities u req
          else if m = ''createWebRtcTransport'' then handleCreateWebrtcTransport u req
          else if m = ''connectWebRtcTransport'' then handleConnectWebrtcTransport u req
          else if m = ''join'' then handleJoin u req
          else if m = ''produceData'' then handleProduceData u req
          else if m = ''produce'' then handleProduce u req
          else if m = ''closeProducer'' then HandleCloseProducer u req
          else ret ())"

text \<open>
  \<^verbatim>\<open>WriteMessage\<close> returns on the first failing write: it receives nothing any more, and its deferred function closes the
  connection, on which the reader of the same user fails once it has handled the frames already buffered.
\<close>

definition wsConn_Close :: "nat \<Rightarrow> (unit, 'z srv_state_scheme) go" where
  "wsConn_Close u = upd_user u (\<lambda>v. v\<lparr>us_conn := False\<rparr>)"

definition WriteMessage_fails :: "nat \<Rightarrow> (unit, 'z srv_state_scheme) go" where
  "WriteMessage_fails u =
     bnd (upd_user u (\<lambda>v. v\<lparr>us_writer := False\<rparr>)) (\<lambda>_.
     wsConn_Close u)"

end
