(* ===== verification/Ws_Server.thy ===== *)
theory Ws_Server
  imports User
begin

section \<open>The WebSocket server (wssServer.go)\<close>

text \<open>
  The two cases of the \<^verbatim>\<open>select\<close> of \<^verbatim>\<open>Run\<close> and the connection handler. A WebSocket connection is the
  pair of its query parameters and the remote address; the upgrade has succeeded.
\<close>

text \<open>
  \<^verbatim>\<open>NewServer\<close>: no users. The channels \<^verbatim>\<open>Register\<close> and \<^verbatim>\<open>Unregister\<close> are unbuffered, so they hold nothing; what is sent on
  them is what \<^verbatim>\<open>Run\<close> receives next.
\<close>

definition NewServer :: "nat list" where
  "NewServer = []"

definition Run_Register :: "nat \<Rightarrow> (unit, 'z srv_state_scheme) go" where
  "Run_Register u =
     bnd (wr (\<lambda>s. s\<lparr>ws_users := (if u \<in> set (ws_users s) then ws_users s else ws_users s @ [u])\<rparr>)) (\<lambda>_.
     bnd (get_user u) (\<lambda>usr.
     bnd (GetOrCreateRoom (us_roomId usr)) (\<lambda>room.
     if room then AddUser (us_roomId usr) u else ret ())))"

definition close_sendMsg :: "nat \<Rightarrow> (unit, 'z srv_state_scheme) go" where
  "close_sendMsg u =
     bnd (get_user u) (\<lambda>usr.
     if us_closed usr then panic CloseOfClosedChan
     else upd_user u (\<lambda>v. v\<lparr>us_closed := True\<rparr>))"

definition Run_Unregister :: "nat \<Rightarrow> (unit, 'z srv_state_scheme) go" where
  "Run_Unregister u =
     bnd (rd (\<lambda>s. u \<in> set (ws_users s))) (\<lambda>ok.
     if \<not> ok then ret ()
     else
       bnd (wr (\<lambda>s. s\<lparr>ws_users := removeAll u (ws_users s)\<rparr>)) (\<lambda>_.
       bnd (close_sendMsg u) (\<lambda>_.
       bnd (get_user u) (\<lambda>usr.
       bnd (GetOrCreateRoom (us_roomId usr)) (\<lambda>room.
       if \<not> room then ret ()
       else
         bnd (DeleteUser (us_roomId usr) u) (\<lambda>_.
         bnd (GetUserNums (us_roomId usr)) (\<lambda>n.
         if n = 0
         then bnd (Close (us_roomId usr)) (\<lambda>_.
              bnd (get_room (us_roomId usr)) (\<lambda>r. DeleteRoom (rm_roomId r)))
         else ret ())))))))"

definition HandleWebSocket :: "string \<Rightarrow> string \<Rightarrow> string \<Rightarrow> (nat, 'z srv_state_scheme) go" where
  "HandleWebSocket roomId peerId remoteAddr =
     bnd time_Now (\<lambda>nanos.
     bnd time_Now (\<lambda>now.
     bnd (rand_Intn 1000000) (\<lambda>r.
     bnd (rd (\<lambda>s. fresh (srv_users s))) (\<lambda>u.
     bnd (wr (\<lambda>s. s\<lparr>srv_users := AList.update u
        \<lparr>us_userId = ''user_'' @ itoa nanos, us_PeerId = peerId, us_DisplayName = '''',
         us_createTs = now div 1000000000, us_roomId = roomId, us_Device = None,
         us_RemoteAddress = remoteAddr, us_reqId = of_nat r, us_newDataConsumerReq = False,
         us_closed = False, us_writer = True, us_conn = True, us_out = []\<rparr> (srv_users s)\<rparr>)) (\<lambda>_.
     bnd (Run_Register u) (\<lambda>_.
     ret u))))))"


subsection \<open>The request of a connection\<close>

text \<open>
  \<^verbatim>\<open>HandleWebSocket\<close> before the user exists: the parameters of the URL, the subprotocol, which is kept in a
  package variable, and the upgrade, whose success is part of the request.
\<close>

record ws_request =
  wr_query :: "(string, string list) gomap"
  wr_remoteAddr :: string
  wr_protocols :: "string list"
  wr_upgrades :: bool

record Upgrader =
  up_ReadBufferSize :: nat
  up_WriteBufferSize :: nat
  up_CheckOrigin :: "ws_request \<Rightarrow> bool"
  up_Subprotocols :: "string list"

definition upgrader :: Upgrader where
  "upgrader = \<lparr>up_ReadBufferSize = 1024, up_WriteBufferSize = 1024, up_CheckOrigin = (\<lambda>r. True), up_Subprotocols = []\<rparr>"

definition query_Get :: "(string, string list) gomap \<Rightarrow> string \<Rightarrow> string" where
  "query_Get q k = (case map_of q k of Some (v # vs) \<Rightarrow> v | _ \<Rightarrow> '''')"

definition next_subprotocols :: "Upgrader \<Rightarrow> ws_request \<Rightarrow> Upgrader" where
  "next_subprotocols up r =
     (case wr_protocols r of [] \<Rightarrow> up | p # ps \<Rightarrow> up\<lparr>up_Subprotocols := [p]\<rparr>)"

definition serve_connection :: "Upgrader \<Rightarrow> ws_request \<Rightarrow> (Upgrader \<times> nat option, 'z srv_state_scheme) go" where
  "serve_connection up r =
     (let up = next_subprotocols up r in
      if \<not> (up_CheckOrigin up r \<and> wr_upgrades r) then ret (up, None)
      else bnd (HandleWebSocket (query_Get (wr_query r) ''roomId'') (query_Get (wr_query r) ''peerId'') (wr_remoteAddr r)) (\<lambda>u.
        ret (up, Some u)))"

text \<open>
  Connections change the upgrader only in its subprotocols, so no origin is ever refused, and a connection that offers
  no protocol is upgraded with the protocol of an earlier one.
\<close>

lemma upgrader_keeps:
  "up_CheckOrigin (fold (\<lambda>r up. next_subprotocols up r) rs upgrader) r \<and>
   up_Subprotocols (fold (\<lambda>r up. next_subprotocols up r) rs upgrader) =
     (case filter (\<lambda>r. wr_protocols r \<noteq> []) (rev rs) of [] \<Rightarrow> [] | r # _ \<Rightarrow> [hd (wr_protocols r)])"
  by (induction rs rule: rev_induct) (auto simp: upgrader_def next_subprotocols_def split: list.split)

subsection \<open>The loops\<close>

text \<open>The loop of \<^verbatim>\<open>Run\<close> over the users it receives from its two channels.\<close>

datatype run_event = RegisterUser nat | UnregisterUser nat

fun Run_case :: "run_event \<Rightarrow> (unit, 'z srv_state_scheme) go" where
  "Run_case (RegisterUser u) = Run_Register u"
| "Run_case (UnregisterUser u) = Run_Unregister u"

definition Run_loop :: "run_event list \<Rightarrow> (unit, 'z srv_state_scheme) go" where
  "Run_loop evs = for_each Run_case evs"

text \<open>
  The loop of \<^verbatim>\<open>ReadMessage\<close> over what the connection delivers. A read error ends the loop, and the deferred
  function hands the user to \<^verbatim>\<open>Run\<close> and closes the connection. At the end of the list the goroutine waits for the next frame.
\<close>

datatype ws_frame = TextFrame "WsMessage option" | ReadError

fun ReadMessage :: "nat \<Rightarrow> ws_frame list \<Rightarrow> (unit, 'z srv_state_scheme) go" where
  "ReadMessage u [] = ret ()"
| "ReadMessage u (TextFrame mo # fs) = bnd (ReadMessage_one u mo) (\<lambda>_. ReadMessage u fs)"
| "ReadMessage u (ReadError # fs) = bnd (Run_case (UnregisterUser u)) (\<lambda>_. wsConn_Close u)"

text \<open>
  The loop of \<^verbatim>\<open>WriteMessage\<close> over the messages it receives until the channel is closed: the frames it
  writes, and whether it ended before the channel was closed. \<open>enc\<close> is \<^verbatim>\<open>json.Marshal\<close>, \<open>ok\<close> tells which
  writes succeed.
\<close>

fun WriteMessage :: "(WsMessage \<Rightarrow> string option) \<Rightarrow> (nat \<Rightarrow> bool) \<Rightarrow> WsMessage list \<Rightarrow> string list \<times> bool" where
  "WriteMessage enc ok [] = ([], False)"
| "WriteMessage enc ok (res # rest) =
     (case enc res of
        None \<Rightarrow> WriteMessage enc ok rest
      | Some jsonData \<Rightarrow>
          if \<not> ok 0 then ([], True)
          else let (out, failed) = WriteMessage enc (\<lambda>i. ok (Suc i)) rest in (jsonData # out, failed))"

subsection \<open>The two halves of an unregistration\<close>

text \<open>
  Between the two halves other goroutines run: the channel of the user is closed, and the user is still in
  the member table of its room.
\<close>

definition Run_Unregister_begin :: "nat \<Rightarrow> (bool, 'z srv_state_scheme) go" where
  "Run_Unregister_begin u =
     bnd (rd (\<lambda>s. u \<in> set (ws_users s))) (\<lambda>ok.
     if \<not> ok then ret False
     else
       bnd (wr (\<lambda>s. s\<lparr>ws_users := removeAll u (ws_users s)\<rparr>)) (\<lambda>_.
       bnd (close_sendMsg u) (\<lambda>_.
       ret True)))"

definition Run_Unregister_leave :: "nat \<Rightarrow> (unit, 'z srv_state_scheme) go" where
  "Run_Unregister_leave u =
     bnd (get_user u) (\<lambda>usr.
     bnd (GetOrCreateRoom (us_roomId usr)) (\<lambda>room.
     if \<not> room then ret ()
     else
       bnd (DeleteUser (us_roomId usr) u) (\<lambda>_.
       bnd (GetUserNums (us_roomId usr)) (\<lambda>n.
       if n = 0
       then bnd (Close (us_roomId usr)) (\<lambda>_.
            bnd (get_room (us_roomId usr)) (\<lambda>r. DeleteRoom (rm_roomId r)))
       else ret ()))))"

lemma Run_Unregister_halves:
  "Run_Unregister u = bnd (Run_Unregister_begin u) (\<lambda>ok. if ok then Run_Unregister_leave u else ret ())"
  unfolding Run_Unregister_def Run_Unregister_begin_def Run_Unregister_leave_def bnd_laws by simp

lemma WriteMessage_prefix:
  "\<exists>n. fst (WriteMessage enc ok msgs) = take n (List.map_filter enc msgs) \<and> (\<forall>i < n. ok i) \<and>
     n \<le> length (List.map_filter enc msgs) \<and> snd (WriteMessage enc ok msgs) = (n < length (List.map_filter enc msgs))"
proof (induction msgs arbitrary: ok)
  case (Cons res rest)
  show ?case
  proof (cases "enc res")
    case None
    with Cons show ?thesis by (simp add: List.map_filter_simps)
  next
    case (Some j)
    obtain n where n: "fst (WriteMessage enc (\<lambda>i. ok (Suc i)) rest) = take n (List.map_filter enc rest)"
        "\<forall>i < n. ok (Suc i)" "n \<le> length (List.map_filter enc rest)"
        "snd (WriteMessage enc (\<lambda>i. ok (Suc i)) rest) = (n < length (List.map_filter enc rest))"
      using Cons.IH by blast
    show ?thesis
    proof (cases "ok 0")
      case True
      with Some n show ?thesis
        by (intro exI[of _ "Suc n"]) (auto simp: List.map_filter_simps case_prod_unfold Let_def less_Suc_eq_0_disj)
    next
      case False
      with Some show ?thesis by (intro exI[of _ 0]) (simp add: List.map_filter_simps)
    qed
  qed
qed (simp add: List.map_filter_simps)

end
