(* ===== verification/Room_Safety.thy ===== *)
theory Room_Safety
  imports User
begin

section \<open>What every handler keeps (room.go, user.go)\<close>

text \<open>
  The invariant of the signalling server and a frame rule for handlers. \<open>srv_ok\<close> says that a room exists only once
  the gRPC server is set up, that the members of a room are registered users of that room, stored under their own id, with
  open channels, and that a connection is closed when its writer has ended. \<open>calm\<close> says of
  a statement that it keeps the invariant, sends no response, panics only on client or worker data (a nil
  pointer or a slice index), never sends on a closed channel, and blocks only when some user's writer has
  ended. The rules follow the syntax of the model's statements, so each handler is checked by its structure.
\<close>

definition member_ok :: "'z srv_state_scheme \<Rightarrow> string \<Rightarrow> string \<Rightarrow> nat \<Rightarrow> bool" where
  "member_ok s rid k u \<longleftrightarrow> u \<in> set (ws_users s) \<and>
     (\<exists>usr. map_of (srv_users s) u = Some usr \<and> us_userId usr = k \<and> us_roomId usr = rid)"

definition room_ok :: "'z srv_state_scheme \<Rightarrow> string \<Rightarrow> Room \<Rightarrow> bool" where
  "room_ok s rid room \<longleftrightarrow> gRtcServer s \<and> rm_roomId room = rid \<and> wf_map (rm_users room) \<and>
     (\<forall>k u. map_of (rm_users room) k = Some u \<longrightarrow> member_ok s rid k u)"

definition srv_ok :: "'z srv_state_scheme \<Rightarrow> bool" where
  "srv_ok s \<longleftrightarrow> streams_ok s \<and> order_ok s \<and> distinct (ws_users s) \<and>
     (\<forall>rid room. map_of (srv_rooms s) rid = Some room \<longrightarrow> room_ok s rid room) \<and>
     (\<forall>u \<in> set (ws_users s). \<exists>usr. map_of (srv_users s) u = Some usr \<and> \<not> us_closed usr) \<and>
     (\<forall>u usr. map_of (srv_users s) u = Some usr \<longrightarrow> us_conn usr \<longrightarrow> us_writer usr)"

definition all_writing :: "'z srv_state_scheme \<Rightarrow> bool" where
  "all_writing s \<longleftrightarrow> (\<forall>u \<in> set (ws_users s). \<forall>usr. map_of (srv_users s) u = Some usr \<longrightarrow> us_writer usr)"

definition data_panic :: "go_panic \<Rightarrow> bool" where
  "data_panic e \<longleftrightarrow> e = NilDeref \<or> e = IndexOutOfRange"

text \<open>
  \<open>user_ext rs usr usr'\<close>: the same user, to whom further messages were delivered, the responses among them
  being \<open>rs\<close>.
\<close>

definition user_ext :: "WsMessage list \<Rightarrow> User \<Rightarrow> User \<Rightarrow> bool" where
  "user_ext rs usr usr' \<longleftrightarrow> us_userId usr' = us_userId usr \<and> us_PeerId usr' = us_PeerId usr \<and>
     us_roomId usr' = us_roomId usr \<and> us_closed usr' = us_closed usr \<and> us_writer usr' = us_writer usr \<and> us_conn usr' = us_conn usr \<and>
     take (length (us_out usr)) (us_out usr') = us_out usr \<and>
     filter msg_Response (us_out usr') = filter msg_Response (us_out usr) @ rs"

definition users_ext :: "(nat \<Rightarrow> WsMessage list) \<Rightarrow> 'z srv_state_scheme \<Rightarrow> 'z srv_state_scheme \<Rightarrow> bool" where
  "users_ext rs s t \<longleftrightarrow> ws_users t = ws_users s \<and> gRtcServer t = gRtcServer s \<and>
     (\<forall>a. rel_option (user_ext (rs a)) (map_of (srv_users s) a) (map_of (srv_users t) a))"

abbreviation silent :: "nat \<Rightarrow> WsMessage list" where
  "silent \<equiv> \<lambda>_. []"

definition calm :: "nat set \<Rightarrow> ('a \<Rightarrow> bool) \<Rightarrow> ('a, 'z srv_state_scheme) go \<Rightarrow> bool" where
  "calm U Q m \<longleftrightarrow> (\<forall>s. srv_ok s \<longrightarrow> U \<subseteq> set (ws_users s) \<longrightarrow>
     wp m (\<lambda>x t. srv_ok t \<and> users_ext silent s t \<and> Q x) data_panic
       (\<lambda>t. srv_ok t \<and> users_ext silent s t \<and> \<not> all_writing s) s)"

named_theorems calm_intros \<open>the rules of \<open>calm\<close>, one per form of statement\<close>

lemma data_panic_simps [simp]:
  "data_panic NilDeref" "data_panic IndexOutOfRange" "\<not> data_panic SendOnClosedChan" "\<not> data_panic CloseOfClosedChan"
  by (simp_all add: data_panic_def)

lemma user_ext_refl [simp]: "user_ext [] usr usr"
  by (simp add: user_ext_def)

lemma take_ext: "take (length xs) ys = xs \<longleftrightarrow> (\<exists>zs. ys = xs @ zs)"
  by (metis append_eq_conv_conj)

lemma user_ext_trans: "user_ext rs a b \<Longrightarrow> user_ext rs' b c \<Longrightarrow> user_ext (rs @ rs') a c"
  by (auto simp: user_ext_def take_ext)

lemma users_ext_refl [simp]: "users_ext silent s s"
  by (simp add: users_ext_def option.rel_refl)

lemma users_ext_trans: "users_ext rs s t \<Longrightarrow> users_ext rs' t v \<Longrightarrow> users_ext (\<lambda>a. rs a @ rs' a) s v"
proof -
  assume st: "users_ext rs s t" and tv: "users_ext rs' t v"
  have "rel_option (user_ext (rs a @ rs' a)) (map_of (srv_users s) a) (map_of (srv_users v) a)" for a
  proof -
    have "rel_option (user_ext (rs a)) (map_of (srv_users s) a) (map_of (srv_users t) a)"
      "rel_option (user_ext (rs' a)) (map_of (srv_users t) a) (map_of (srv_users v) a)"
      using st tv by (simp_all add: users_ext_def)
    then show ?thesis
      by (cases "map_of (srv_users s) a"; cases "map_of (srv_users t) a"; cases "map_of (srv_users v) a")
        (auto intro: user_ext_trans)
  qed
  with st tv show ?thesis by (simp add: users_ext_def)
qed

lemma users_ext_silent_trans: "users_ext silent s t \<Longrightarrow> users_ext silent t v \<Longrightarrow> users_ext silent s v"
  using users_ext_trans[of silent s t silent v] by simp

lemma users_extD:
  assumes "users_ext rs s t"
  shows "ws_users t = ws_users s"
    and "map_of (srv_users s) a = Some usr \<Longrightarrow> \<exists>usr'. map_of (srv_users t) a = Some usr' \<and> user_ext (rs a) usr usr'"
    and "map_of (srv_users t) a = Some usr' \<Longrightarrow> \<exists>usr. map_of (srv_users s) a = Some usr \<and> user_ext (rs a) usr usr'"
  using assms unfolding users_ext_def by (auto dest!: spec[of _ a] simp: option_rel_Some1 option_rel_Some2)

lemma users_ext_writing: "users_ext rs s t \<Longrightarrow> all_writing t = all_writing s"
proof -
  assume ext: "users_ext rs s t"
  have "(\<forall>usr. map_of (srv_users t) u = Some usr \<longrightarrow> us_writer usr) =
      (\<forall>usr. map_of (srv_users s) u = Some usr \<longrightarrow> us_writer usr)" for u
    using users_extD(2,3)[OF ext, of u] by (fastforce simp: user_ext_def)
  with users_extD(1)[OF ext] show ?thesis by (simp add: all_writing_def)
qed

lemma users_ext_same:
  "ws_users t = ws_users s \<Longrightarrow> srv_users t = srv_users s \<Longrightarrow> gRtcServer t = gRtcServer s \<Longrightarrow> users_ext silent s t"
  by (simp add: users_ext_def option.rel_refl)

lemma member_ok_ext: "users_ext rs s t \<Longrightarrow> member_ok s rid k u \<Longrightarrow> member_ok t rid k u"
  unfolding member_ok_def using users_extD(1,2)[of rs s t] by (fastforce simp: user_ext_def)

lemma users_ext_server: "users_ext rs s t \<Longrightarrow> gRtcServer t = gRtcServer s"
  by (simp add: users_ext_def)

lemma room_ok_ext: "users_ext rs s t \<Longrightarrow> room_ok s rid room \<Longrightarrow> room_ok t rid room"
  unfolding room_ok_def using users_ext_server[of rs s t] by (blast intro: member_ok_ext)

lemma srv_okD:
  assumes "srv_ok s"
  shows "streams_ok s" and "order_ok s" and "distinct (ws_users s)"
    and "map_of (srv_rooms s) rid = Some room \<Longrightarrow> room_ok s rid room"
    and "u \<in> set (ws_users s) \<Longrightarrow> \<exists>usr. map_of (srv_users s) u = Some usr \<and> \<not> us_closed usr"
    and "map_of (srv_users s) v = Some usr \<Longrightarrow> us_conn usr \<Longrightarrow> us_writer usr"
  using assms by (auto simp: srv_ok_def)

lemma srv_ok_ext:
  assumes ok: "srv_ok s" and ext: "users_ext rs s t" and "streams_ok t" and "order_ok t"
    and rooms: "\<And>rid room. map_of (srv_rooms t) rid = Some room \<Longrightarrow> room_ok s rid room"
  shows "srv_ok t"
proof -
  have "\<exists>usr. map_of (srv_users t) u = Some usr \<and> \<not> us_closed usr" if "u \<in> set (ws_users t)" for u
    using srv_okD(5)[OF ok, of u] that users_extD(1)[OF ext] users_extD(2)[OF ext, of u]
    by (fastforce simp: user_ext_def)
  moreover have "us_writer w" if "map_of (srv_users t) v = Some w" "us_conn w" for v w
    using users_extD(3)[OF ext that(1)] srv_okD(6)[OF ok, of v] that(2) by (auto simp: user_ext_def)
  ultimately show ?thesis
    using assms rooms room_ok_ext[OF ext] users_extD(1)[OF ext] srv_okD(3)[OF ok]
    unfolding srv_ok_def by auto
qed

lemma calmI:
  assumes "\<And>s. srv_ok s \<Longrightarrow> U \<subseteq> set (ws_users s) \<Longrightarrow>
    wp m (\<lambda>x t. srv_ok t \<and> users_ext silent s t \<and> Q x) data_panic
       (\<lambda>t. srv_ok t \<and> users_ext silent s t \<and> \<not> all_writing s) s"
  shows "calm U Q m"
  using assms by (simp add: calm_def)

lemma calmD:
  "calm U Q m \<Longrightarrow> srv_ok s \<Longrightarrow> U \<subseteq> set (ws_users s) \<Longrightarrow>
    wp m (\<lambda>x t. srv_ok t \<and> users_ext silent s t \<and> Q x) data_panic
       (\<lambda>t. srv_ok t \<and> users_ext silent s t \<and> \<not> all_writing s) s"
  by (simp add: calm_def)

lemma calm_bnd [calm_intros]:
  assumes m: "calm U (\<lambda>_. True) m" and f: "\<And>x. calm U Q (f x)"
  shows "calm U Q (bnd m f)"
proof (rule calmI, unfold wp_bnd, goal_cases)
  case (1 s)
  show ?case
  proof (rule wp_mono[OF calmD[OF m 1]])
    fix x t assume t: "srv_ok t \<and> users_ext silent s t \<and> True"
    then have "U \<subseteq> set (ws_users t)" using 1(2) users_extD(1)[of silent s t] by simp
    with t have "wp (f x) (\<lambda>x v. srv_ok v \<and> users_ext silent t v \<and> Q x) data_panic
      (\<lambda>v. srv_ok v \<and> users_ext silent t v \<and> \<not> all_writing t) t" by (intro calmD[OF f]) auto
    then show "wp (f x) (\<lambda>x v. srv_ok v \<and> users_ext silent s v \<and> Q x) data_panic
      (\<lambda>v. srv_ok v \<and> users_ext silent s v \<and> \<not> all_writing s) t"
      by (rule wp_mono) (use t in \<open>auto intro: users_ext_silent_trans simp: users_ext_writing\<close>)
  qed auto
qed

lemma calm_weaken:
  assumes "calm U Q m" and "\<And>x. Q x \<Longrightarrow> Q' x" and "U \<subseteq> V"
  shows "calm V Q' m"
proof (rule calmI, goal_cases)
  case (1 s)
  then show ?case by (intro wp_mono[OF calmD[OF assms(1)]]) (use assms in auto)
qed

lemma calm_ret [calm_intros]: "Q x \<Longrightarrow> calm U Q (ret x)"
  by (simp add: calm_def)

lemma calm_rd [calm_intros]: "calm U (\<lambda>_. True) (rd f)"
  by (simp add: calm_def)

lemma calm_panic [calm_intros]: "data_panic e \<Longrightarrow> calm U Q (panic e)"
  by (simp add: calm_def)

lemma calm_if [calm_intros]: "(b \<Longrightarrow> calm U Q m) \<Longrightarrow> (\<not> b \<Longrightarrow> calm U Q n) \<Longrightarrow> calm U Q (if b then m else n)"
  by simp

lemma calm_case_option [calm_intros]:
  "(x = None \<Longrightarrow> calm U Q m) \<Longrightarrow> (\<And>y. x = Some y \<Longrightarrow> calm U Q (n y)) \<Longrightarrow> calm U Q (case x of None \<Rightarrow> m | Some y \<Rightarrow> n y)"
  by (simp split: option.split)

lemma calm_case_sum [calm_intros]:
  "(\<And>e. x = Inl e \<Longrightarrow> calm U Q (m e)) \<Longrightarrow> (\<And>y. x = Inr y \<Longrightarrow> calm U Q (n y)) \<Longrightarrow>
   calm U Q (case x of Inl e \<Rightarrow> m e | Inr y \<Rightarrow> n y)"
  by (simp split: sum.split)

lemma calm_case_prod [calm_intros]:
  "(\<And>a b. x = (a, b) \<Longrightarrow> calm U Q (m a b)) \<Longrightarrow> calm U Q (case x of (a, b) \<Rightarrow> m a b)"
  by (simp split: prod.split)

lemma calm_for_each [calm_intros]: "(\<And>x. calm U (\<lambda>_. True) (f x)) \<Longrightarrow> calm U (\<lambda>_. True) (for_each f xs)"
  by (induction xs) (auto intro!: calm_ret calm_bnd)

text \<open>Statements that change neither users nor rooms.\<close>

definition env_only :: "('a, 'z srv_state_scheme) go \<Rightarrow> bool" where
  "env_only m \<longleftrightarrow> (\<forall>s. streams_ok s \<longrightarrow> order_ok s \<longrightarrow>
     wp m (\<lambda>x t. streams_ok t \<and> order_ok t \<and> ws_users t = ws_users s \<and> srv_users t = srv_users s \<and>
       srv_rooms t = srv_rooms s \<and> gRtcServer t = gRtcServer s) data_panic (\<lambda>_. False) s)"

lemma env_onlyI:
  assumes "\<And>s. streams_ok s \<Longrightarrow> order_ok s \<Longrightarrow> wp m (\<lambda>x t. streams_ok t \<and> order_ok t \<and> ws_users t = ws_users s \<and>
      srv_users t = srv_users s \<and> srv_rooms t = srv_rooms s \<and> gRtcServer t = gRtcServer s) data_panic (\<lambda>_. False) s"
  shows "env_only m"
  using assms by (simp add: env_only_def)

lemma wp_env_only:
  assumes m: "env_only m" and s: "srv_ok s"
  shows "wp m (\<lambda>_ t. srv_ok t \<and> users_ext silent s t \<and> srv_users t = srv_users s \<and> srv_rooms t = srv_rooms s)
    data_panic (\<lambda>_. False) s"
  by (rule wp_mono[OF m[unfolded env_only_def, rule_format, OF srv_okD(1,2)[OF s]]])
    (use s in \<open>auto intro!: users_ext_same srv_ok_ext[OF s users_ext_same] srv_okD(4)[OF s]\<close>)

lemma calm_env_only: "env_only m \<Longrightarrow> calm U (\<lambda>_. True) m"
  by (rule calmI, rule wp_mono[OF wp_env_only]) auto

named_theorems env_intros \<open>statements that change neither users nor rooms\<close>

lemma outer_srv:
  assumes "rtc_outer t = rtc_outer (s :: 'z srv_state_scheme)"
  shows "ws_users t = ws_users s" "srv_users t = srv_users s" "srv_rooms t = srv_rooms s" "order_ok t = order_ok s"
    "gRtcServer t = gRtcServer s"
  using assms by (cases s; cases t; simp add: rtc_outer_def order_ok_def)+

lemma outer_srvD:
  "rtc_outer t = rtc_outer (s :: 'z srv_state_scheme) \<Longrightarrow> ws_users t = ws_users s \<and> srv_users t = srv_users s \<and>
     srv_rooms t = srv_rooms s \<and> order_ok t = order_ok s \<and> gRtcServer t = gRtcServer s"
  by (simp only: outer_srv[of t s] simp_thms)

lemma env_only_quiet:
  assumes "\<And>s. streams_ok s \<Longrightarrow> quiet s m"
  shows "env_only m"
proof (rule env_onlyI, goal_cases)
  case (1 s)
  show ?case
    by (rule wp_mono[OF assms[OF 1(1), unfolded quiet_def]]) (use 1(2) in \<open>auto dest!: outer_srvD\<close>)
qed

lemma env_only_RandString [env_intros]: "env_only (RandString n)"
  by (rule env_onlyI) simp

lemma env_only_time_Now [env_intros]: "env_only time_Now"
  by (rule env_onlyI) simp

lemma env_only_range_keys [env_intros]: "env_only (range_keys ks)"
  by (rule env_onlyI) simp

lemmas env_only_requests [env_intros] =
  env_only_quiet[OF quiet_CloseRouterOnWorker] env_only_quiet[OF quiet_CreateWebrtcTransport]
  env_only_quiet[OF quiet_ConnectWebrtcTransport] env_only_quiet[OF quiet_CloseProducer]
  env_only_quiet[OF quiet_CreateConsumer] env_only_quiet[OF quiet_CloseConsumer]

lemma order_ok_tail: "order_ok s \<Longrightarrow> (\<forall>i ks. order t i ks = order s (Suc i) ks) \<Longrightarrow> order_ok t"
  by (simp add: order_ok_def)

lemma env_only_CreateRouterOnWorker [env_intros]: "env_only CreateRouterOnWorker"
proof (rule env_onlyI, goal_cases)
  case (1 s)
  show ?case
  proof (rule wp_CreateRouterOnWorker[OF 1(1)], goal_cases)
    case (1 r t)
    have "order t = (\<lambda>i. order s (Suc i))" and more: "rtc_state.more t = rtc_state.more s"
      using 1(2) by (simp_all add: rtc_outer_def)
    moreover have "ws_users t = ws_users s \<and> srv_users t = srv_users s \<and> srv_rooms t = srv_rooms s \<and> gRtcServer t = gRtcServer s"
      using more by (cases s; cases t; simp)
    ultimately show ?case using 1(1) \<open>order_ok s\<close> by (auto intro: order_ok_tail[of s t])
  qed simp
qed

lemma wp_producer_encodings:
  "wp (producer_encodings kind vs) (\<lambda>_ t. \<exists>r. t = s\<lparr>rnd := r\<rparr>) (\<lambda>e. e = NilDeref) (\<lambda>_. False) s"
proof (induction kind vs arbitrary: s rule: producer_encodings.induct)
  case (1 kind)
  show ?case by simp (rule exI[of _ "rnd s"], simp)
next
  case (3 kind v vs)
  have now: "wp (producer_encodings k vs) (\<lambda>_ t. \<exists>r. t = s\<lparr>rnd := r\<rparr>) (\<lambda>e. e = NilDeref) (\<lambda>_. False) s"
    if "k = kind" for k
    using "3.IH"[of s] that by simp
  have later: "wp (producer_encodings k vs) (\<lambda>_ t. \<exists>r. t = s\<lparr>rnd := r\<rparr>) (\<lambda>e. e = NilDeref) (\<lambda>_. False) (s\<lparr>rnd := r\<rparr>)"
    if "k = kind" for k r
    unfolding that by (rule wp_mono[OF "3.IH"]) auto
  show ?case
    by (auto simp: Let_def wp_case_option case_prod_unfold split: option.split
        intro!: wp_mono[OF now] wp_mono[OF later])
qed simp

lemma env_only_CreateProducer [env_intros]: "env_only (CreateProducer router p)"
proof (rule env_onlyI, goal_cases)
  case (1 s)
  show ?case
    using 1 unfolding CreateProducer_def Let_def wp_if wp_case_option wp_bnd wp_rd
    by (auto split: option.split intro!: wp_mono[OF wp_producer_encodings] wp_sendRequest_quiet wp_expect_reply
        dest!: outer_srvD simp: order_ok_def)
qed

text \<open>Statements on users, rooms and channels.\<close>

lemma wp_get_user [simp]: "map_of (srv_users s) u = Some usr \<Longrightarrow> wp (get_user u) Q F R s \<longleftrightarrow> Q usr s"
  by (simp add: wp_def get_user_def)

lemma wp_get_room [simp]: "map_of (srv_rooms s) rid = Some room \<Longrightarrow> wp (get_room rid) Q F R s \<longleftrightarrow> Q room s"
  by (simp add: wp_def get_room_def)

lemma wp_upd_user [simp]:
  "map_of (srv_users s) u = Some usr \<Longrightarrow>
     wp (upd_user u f) Q F R s \<longleftrightarrow> Q () (s\<lparr>srv_users := AList.update u (f usr) (srv_users s)\<rparr>)"
  by (simp add: wp_def upd_user_def)

lemma wp_upd_room [simp]:
  "map_of (srv_rooms s) rid = Some room \<Longrightarrow>
     wp (upd_room rid f) Q F R s \<longleftrightarrow> Q () (s\<lparr>srv_rooms := AList.update rid (f room) (srv_rooms s)\<rparr>)"
  by (simp add: wp_def upd_room_def)

lemma env_only_get_user [env_intros]: "env_only (get_user u)"
  by (rule env_onlyI) (simp add: wp_def get_user_def split: option.split)

lemma env_only_get_room [env_intros]: "env_only (get_room rid)"
  by (rule env_onlyI) (simp add: wp_def get_room_def split: option.split)

lemma env_only_upd_params [env_intros]: "env_only (upd_params a f)"
  by (rule env_onlyI) (simp add: wp_def upd_params_def order_ok_def split: option.split)

lemma env_only_new_params [env_intros]: "env_only (wr (\<lambda>s. s\<lparr>rtc_params := f s\<rparr>))"
  by (rule env_onlyI) (simp add: order_ok_def)

lemma env_only_rd [env_intros]: "env_only (rd f)"
  by (rule env_onlyI) simp

lemmas calm_env_intros [calm_intros] = env_intros[THEN calm_env_only]

lemma users_ext_update:
  assumes "map_of (srv_users s) u = Some usr" and "user_ext (rs u) usr usr'" and "\<And>a. a \<noteq> u \<Longrightarrow> rs a = []"
  shows "users_ext rs s (s\<lparr>srv_users := AList.update u usr' (srv_users s)\<rparr>)"
  using assms by (auto simp: users_ext_def option.rel_refl)

lemma srv_ok_update_user:
  assumes s: "srv_ok s" and "map_of (srv_users s) u = Some usr" and "user_ext (rs u) usr usr'"
    and "\<And>a. a \<noteq> u \<Longrightarrow> rs a = []"
  shows "srv_ok (s\<lparr>srv_users := AList.update u usr' (srv_users s)\<rparr>)"
  by (rule srv_ok_ext[OF s users_ext_update[where rs = rs, OF assms(2-4)]])
    (use s srv_okD(1,2,4)[OF s] in \<open>auto simp: streams_ok_def order_ok_def\<close>)

lemma calm_upd_user [calm_intros]:
  assumes "\<And>usr. user_ext [] usr (f usr)"
  shows "calm U (\<lambda>_. True) (upd_user u f)"
proof (rule calmI, goal_cases)
  case (1 s)
  then show ?case
    using users_ext_update[of s u _ silent] srv_ok_update_user[OF 1(1), of u _ silent] assms
    by (simp add: wp_def upd_user_def split: option.split)
qed

lemma calm_upd_room_ok:
  assumes "\<And>s :: 'z srv_state_scheme. \<And>room. room_ok s rid room \<Longrightarrow> room_ok s rid (f room)"
  shows "calm U (\<lambda>_. True) (upd_room rid f :: (unit, 'z srv_state_scheme) go)"
proof (rule calmI, goal_cases)
  case (1 s)
  have "srv_ok (s\<lparr>srv_rooms := AList.update rid (f room) (srv_rooms s)\<rparr>)" if "map_of (srv_rooms s) rid = Some room" for room
  proof (rule srv_ok_ext[OF 1(1), where rs = silent], goal_cases)
    case (4 rid' room')
    then show ?case using assms srv_okD(4)[OF 1(1)] that by (auto split: if_splits)
  qed (use srv_okD(1,2)[OF 1(1)] in \<open>auto simp: users_ext_same streams_ok_def order_ok_def\<close>)
  then show ?case by (simp add: wp_def upd_room_def users_ext_same split: option.split)
qed

lemma calm_upd_room [calm_intros]:
  assumes "\<And>room. rm_roomId (f room) = rm_roomId room" and "\<And>room. rm_users (f room) = rm_users room"
  shows "calm U (\<lambda>_. True) (upd_room rid f)"
  by (rule calm_upd_room_ok) (simp add: room_ok_def assms)

lemma calm_DeleteRoom [calm_intros]: "calm U (\<lambda>_. True) (DeleteRoom rid)"
proof (rule calmI, goal_cases)
  case (1 s)
  have "srv_ok (s\<lparr>srv_rooms := AList.delete rid (srv_rooms s)\<rparr>)"
    by (rule srv_ok_ext[OF 1(1), where rs = silent])
      (use srv_okD(1,2,4)[OF 1(1)] in \<open>auto simp: users_ext_same streams_ok_def order_ok_def split: if_splits\<close>)
  then show ?case by (simp add: DeleteRoom_def users_ext_same)
qed

lemma user_ext_send: "user_ext (filter msg_Response [m]) usr (usr\<lparr>us_out := us_out usr @ [m]\<rparr>)"
  by (simp add: user_ext_def)

text \<open>
  Delivering a message to a registered user never meets a closed channel, and blocks only when the user's
  writer has ended.
\<close>

lemma send_msg_cases:
  assumes s: "srv_ok s" and u: "u \<in> set (ws_users s)"
  obtains (sent) t usr where "send_msg u m s = Ret () t" and "map_of (srv_users s) u = Some usr"
      and "t = s\<lparr>srv_users := AList.update u (usr\<lparr>us_out := us_out usr @ [m]\<rparr>) (srv_users s)\<rparr>"
      and "srv_ok t" and "users_ext (\<lambda>a. if a = u then filter msg_Response [m] else []) s t"
  | (blocked) "send_msg u m s = Stuck s" and "\<not> all_writing s"
proof -
  obtain usr where usr: "map_of (srv_users s) u = Some usr" "\<not> us_closed usr" using srv_okD(5)[OF s u] by blast
  let ?rs = "\<lambda>a. if a = u then filter msg_Response [m] else []"
  show thesis
  proof (cases "us_writer usr")
    case True
    show thesis
      by (rule sent[of _ usr])
        (use True usr user_ext_send[of m usr] users_ext_update[of s u usr ?rs] srv_ok_update_user[OF s, of u usr ?rs]
          in \<open>simp_all add: send_msg_def split: if_splits\<close>)
  next
    case False
    with usr u show thesis by (intro blocked) (auto simp: send_msg_def all_writing_def)
  qed
qed

lemma calm_send_msg [calm_intros]:
  assumes "u \<in> U" and "\<not> msg_Response m"
  shows "calm U (\<lambda>_. True) (send_msg u m)"
proof (rule calmI, goal_cases)
  case (1 s)
  then have "u \<in> set (ws_users s)" using assms(1) by blast
  then show ?case
    by (rule send_msg_cases[OF 1(1), of u m]) (use 1(1) assms(2) in \<open>auto simp: wp_def if_distrib cong: if_cong\<close>)
qed

lemma calm_with_member:
  assumes f: "\<And>room. f room = (case map_of (rm_users room) k of None \<Rightarrow> n | Some v \<Rightarrow> g v)"
    and g: "\<And>v. calm (insert v U) Q (g v)" and n: "calm U Q n"
  shows "calm U Q (bnd (get_room rid) f)"
proof (rule calmI, goal_cases)
  case (1 s)
  show ?case
  proof (cases "map_of (srv_rooms s) rid")
    case None
    then show ?thesis by (simp add: wp_def bnd_def get_room_def)
  next
    case (Some room)
    have "wp (f room) (\<lambda>x t. srv_ok t \<and> users_ext silent s t \<and> Q x) data_panic
        (\<lambda>t. srv_ok t \<and> users_ext silent s t \<and> \<not> all_writing s) s"
    proof (cases "map_of (rm_users room) k")
      case (Some v)
      then have "v \<in> set (ws_users s)"
        using srv_okD(4)[OF 1(1) \<open>map_of (srv_rooms s) rid = Some room\<close>] by (auto simp: room_ok_def member_ok_def)
      with 1 Some show ?thesis using calmD[OF g, of s v] by (simp add: f)
    qed (use calmD[OF n 1] in \<open>simp add: f\<close>)
    with Some show ?thesis by (simp add: wp_def bnd_def get_room_def)
  qed
qed

lemma calm_range_users [calm_intros]:
  assumes body: "\<And>k v. calm (insert v U) (\<lambda>_. True) (body k v)"
  shows "calm U (\<lambda>_. True) (range_users rid body)"
  unfolding range_users_def
  by (rule calm_bnd[OF calm_env_only[OF env_only_get_room]], rule calm_bnd[OF calm_env_only[OF env_only_range_keys]], rule calm_for_each,
      rule calm_with_member) (auto intro: body calm_ret)

lemma member_insert [calm_intros]: "u \<in> insert u U" "u \<in> U \<Longrightarrow> u \<in> insert v U"
  by simp_all

subsection \<open>The operations of a room\<close>

lemma wp_GetOrCreateRoom:
  assumes s: "srv_ok s"
  shows "wp (GetOrCreateRoom rid) (\<lambda>_ t. srv_ok t \<and> users_ext silent s t) data_panic (\<lambda>_. False) s"
proof (cases "map_of (srv_rooms s) rid = None \<and> gRtcServer s")
  case True
  then have None: "map_of (srv_rooms s) rid = None" and up: "\<not> gRtcServer s \<longleftrightarrow> False" by simp_all
  show ?thesis
    unfolding GetOrCreateRoom_def NewRoom_def wp_bnd wp_rd None option.case up if_False
  proof (rule wp_mono[OF wp_env_only[OF env_only_CreateRouterOnWorker s]], goal_cases)
    case (1 r t)
    show ?case
    proof (cases r)
      case (Inr router)
      let ?t = "t\<lparr>clock := \<lambda>i. clock t (Suc i), srv_rooms := AList.update rid
        \<lparr>rm_roomId = rid, rm_createTs = clock t 0 div 1000000000, rm_router = router, rm_users = []\<rparr> (srv_rooms t)\<rparr>"
      have "srv_ok ?t"
      proof (rule srv_ok_ext[where s = t and rs = silent], goal_cases)
        case (5 rid' room)
        then show ?case
          using 1 True users_ext_server[of silent s t] srv_okD(4)[of t] by (auto simp: room_ok_def split: if_splits)
      qed (use 1 srv_okD(1,2)[of t] in \<open>auto simp: users_ext_same streams_ok_def order_ok_def\<close>)
      moreover have "users_ext silent t ?t" by (simp add: users_ext_same)
      ultimately show ?thesis using Inr 1 by (auto intro: users_ext_silent_trans)
    qed (use 1 in simp)
  qed auto
qed (use s in \<open>auto simp: GetOrCreateRoom_def NewRoom_def wp_case_option split: option.split\<close>)

lemma calm_GetOrCreateRoom [calm_intros]: "calm U (\<lambda>_. True) (GetOrCreateRoom rid)"
  by (rule calmI, rule wp_mono[OF wp_GetOrCreateRoom]) auto

lemma calm_messages [calm_intros]:
  "u \<in> U \<Longrightarrow> calm U (\<lambda>_. True) (NotifyNewPeer u d)" "u \<in> U \<Longrightarrow> calm U (\<lambda>_. True) (NotifyPeerClosed u p)"
  "u \<in> U \<Longrightarrow> calm U (\<lambda>_. True) (NotifyConsumerClosed u c)" "u \<in> U \<Longrightarrow> calm U (\<lambda>_. True) (send_request u m e)"
  unfolding NotifyNewPeer_def NotifyPeerClosed_def NotifyConsumerClosed_def send_request_def
  by (intro calm_intros; simp add: blank_message_def user_ext_def)+

lemma calm_requests_to_user [calm_intros]:
  "u \<in> U \<Longrightarrow> calm U (\<lambda>_. True) (RequestNewDataConsumer u d)" "u \<in> U \<Longrightarrow> calm U (\<lambda>_. True) (RequestNewConsumer u c)"
  unfolding RequestNewDataConsumer_def RequestNewConsumer_def by (intro calm_intros; simp)+

lemma calm_NotifyOtherUsers [calm_intros]: "calm U (\<lambda>_. True) (NotifyOtherUsers rid u)"
  unfolding NotifyOtherUsers_def by (intro calm_intros; simp)

lemma calm_GetOtherUsers_loop [calm_intros]: "calm U (\<lambda>_. True) (GetOtherUsers_loop k users ks)"
  by (induction k users ks rule: GetOtherUsers_loop.induct) (auto intro!: calm_intros)

lemma calm_GetOtherUsers [calm_intros]: "calm U (\<lambda>_. True) (GetOtherUsers rid u)"
  unfolding GetOtherUsers_def by (intro calm_intros)

lemma calm_ReqOtherNewDataConsumer [calm_intros]: "calm U (\<lambda>_. True) (ReqOtherNewDataConsumer rid u)"
  unfolding ReqOtherNewDataConsumer_def by (intro calm_intros; simp)

lemma retype_codecs_panic: "retype_codecs k cs = Inl e \<Longrightarrow> data_panic e"
  by (auto simp: retype_codecs_def split: if_splits list.splits option.splits)

lemma calm_CreateNewConsumerData [calm_intros]: "calm U (\<lambda>_. True) (CreateNewConsumerData rid c p a b)"
  unfolding CreateNewConsumerData_def Let_def by (intro calm_intros; simp add: retype_codecs_panic)

lemma calm_room_addConsumer [calm_intros]: "calm U (\<lambda>_. True) (room_addConsumer rid k c)"
  unfolding room_addConsumer_def by (intro calm_intros; simp)

lemma calm_ReqPullOtherNewProducer [calm_intros]: "u \<in> U \<Longrightarrow> calm U (\<lambda>_. True) (ReqPullOtherNewProducer rid u p)"
  unfolding ReqPullOtherNewProducer_def Let_def by (intro calm_intros; simp)

lemma calm_ReqOtherNewConsumer [calm_intros]: "calm U (\<lambda>_. True) (ReqOtherNewConsumer rid u p)"
  unfolding ReqOtherNewConsumer_def Let_def by (intro calm_intros; simp)

lemma calm_room_CreateWebrtcTransport [calm_intros]: "calm U (\<lambda>_. True) (CreateWebrtcTransport rid req u)"
  unfolding CreateWebrtcTransport_def Let_def by (intro calm_intros; simp)

lemma calm_CreateNewDataConsumer [calm_intros]: "calm U (\<lambda>_. True) (CreateNewDataConsumer rid u t)"
  unfolding CreateNewDataConsumer_def by (intro calm_intros; simp)

lemma calm_room_ConnectWebrtcTransport [calm_intros]: "calm U (\<lambda>_. True) (ConnectWebrtcTransport rid req)"
  unfolding ConnectWebrtcTransport_def by (intro calm_intros)

lemma calm_Produce [calm_intros]: "u \<in> U \<Longrightarrow> calm U (\<lambda>_. True) (Produce rid u req)"
  unfolding Produce_def Let_def by (intro calm_intros; simp)

lemma calm_Close [calm_intros]: "calm U (\<lambda>_. True) (Close rid)"
  unfolding Close_def by (intro calm_intros; simp)


lemma calm_CloseProducer [calm_intros]: "calm U (\<lambda>_. True) (CloseProducer rid u pid)"
proof -
  have notify: "calm U (\<lambda>_. True) (bnd (get_room rid) (\<lambda>room2.
      case (map_of (rm_users room2) k, co) of
        (Some v, Some consumerId) \<Rightarrow> NotifyConsumerClosed v \<lparr>cr_ConsumerId = consumerId\<rparr>
      | _ \<Rightarrow> ret ()))" for k co
    by (rule calm_with_member[where k = k and n = "ret ()" and
          g = "\<lambda>v. case co of None \<Rightarrow> ret () | Some c \<Rightarrow> NotifyConsumerClosed v \<lparr>cr_ConsumerId = c\<rparr>"])
      (auto intro!: calm_intros split: option.split)
  show ?thesis unfolding CloseProducer_def by (intro calm_intros notify; simp)
qed

subsection \<open>Requests and their responses\<close>

text \<open>
  \<open>answers u req m\<close>: from a good state in which user \<open>u\<close> is registered, the statement keeps the invariant and
  delivers to \<open>u\<close> exactly one response, which carries the id of \<open>req\<close>, and to nobody else any response.
\<close>

definition is_response_to :: "WsMessage \<Rightarrow> WsMessage \<Rightarrow> bool" where
  "is_response_to req r \<longleftrightarrow> msg_Response r \<and> msg_Id r = msg_Id req"

definition answers :: "nat \<Rightarrow> WsMessage \<Rightarrow> (unit, 'z srv_state_scheme) go \<Rightarrow> bool" where
  "answers u req m \<longleftrightarrow> (\<forall>s. srv_ok s \<longrightarrow> u \<in> set (ws_users s) \<longrightarrow>
     wp m (\<lambda>_ t. srv_ok t \<and> (\<exists>r. is_response_to req r \<and> users_ext (\<lambda>a. if a = u then [r] else []) s t)) data_panic
       (\<lambda>t. srv_ok t \<and> users_ext silent s t \<and> \<not> all_writing s) s)"

lemma answersD:
  "answers u req m \<Longrightarrow> srv_ok s \<Longrightarrow> u \<in> set (ws_users s) \<Longrightarrow>
     wp m (\<lambda>_ t. srv_ok t \<and> (\<exists>r. is_response_to req r \<and> users_ext (\<lambda>a. if a = u then [r] else []) s t)) data_panic
       (\<lambda>t. srv_ok t \<and> users_ext silent s t \<and> \<not> all_writing s) s"
  by (simp add: answers_def)

lemma answers_bnd:
  assumes m: "calm {u} Q m" and f: "\<And>x. Q x \<Longrightarrow> answers u req (f x)"
  shows "answers u req (bnd m f)"
  unfolding answers_def wp_bnd
proof (intro allI impI)
  fix s :: "'b srv_state_scheme"
  assume s: "srv_ok s" and u: "u \<in> set (ws_users s)"
  then have U: "{u} \<subseteq> set (ws_users s)" by simp
  show "wp m (\<lambda>x. wp (f x) (\<lambda>_ t. srv_ok t \<and> (\<exists>r. is_response_to req r \<and> users_ext (\<lambda>a. if a = u then [r] else []) s t))
      data_panic (\<lambda>t. srv_ok t \<and> users_ext silent s t \<and> \<not> all_writing s)) data_panic
      (\<lambda>t. srv_ok t \<and> users_ext silent s t \<and> \<not> all_writing s) s"
  proof (rule wp_mono[OF calmD[OF m s U]])
    fix x t assume t: "srv_ok t \<and> users_ext silent s t \<and> Q x"
    have ext: "users_ext rs s v" if "users_ext rs t v" for rs v
      using users_ext_trans[of silent s t rs v] t that by simp
    show "wp (f x) (\<lambda>_ t. srv_ok t \<and> (\<exists>r. is_response_to req r \<and> users_ext (\<lambda>a. if a = u then [r] else []) s t))
      data_panic (\<lambda>t. srv_ok t \<and> users_ext silent s t \<and> \<not> all_writing s) t"
      by (rule wp_mono[OF answersD[OF f]]) (use t u users_extD(1)[of silent s t] users_ext_writing[of silent s t] in \<open>auto intro: ext\<close>)
  qed auto
qed

lemma answers_send:
  assumes "is_response_to req r"
  shows "answers u req (send_msg u r)"
  unfolding answers_def
proof (intro allI impI)
  fix s :: "'b srv_state_scheme"
  assume s: "srv_ok s" and u: "u \<in> set (ws_users s)"
  have fr: "filter msg_Response [r] = [r]" using assms by (simp add: is_response_to_def)
  show "wp (send_msg u r) (\<lambda>_ t. srv_ok t \<and> (\<exists>r. is_response_to req r \<and> users_ext (\<lambda>a. if a = u then [r] else []) s t))
      data_panic (\<lambda>t. srv_ok t \<and> users_ext silent s t \<and> \<not> all_writing s) s"
  proof (cases rule: send_msg_cases[OF s u, of r])
    case (1 t usr)
    then have "users_ext (\<lambda>a. if a = u then [r] else []) s t" unfolding fr by simp
    with 1(1,4) assms show ?thesis by (auto simp: wp_def)
  qed (use s in \<open>simp add: wp_def\<close>)
qed

lemma answers_panic: "data_panic e \<Longrightarrow> answers u req (panic e)"
  by (simp add: answers_def)

lemma answers_if: "(b \<Longrightarrow> answers u req m) \<Longrightarrow> (\<not> b \<Longrightarrow> answers u req n) \<Longrightarrow> answers u req (if b then m else n)"
  by simp

lemma response_to_ok [simp]:
  "is_response_to req (response_to req b)" "is_response_to req ((response_to req b)\<lparr>msg_Data := d\<rparr>)"
  by (simp_all add: is_response_to_def response_to_def)

lemma calm_bot_consumer [calm_intros]: "u \<in> U \<Longrightarrow> calm U (\<lambda>_. True) (bot_consumer u rid t)"
  unfolding bot_consumer_def by (intro calm_intros; simp add: user_ext_def)

lemmas answers_rules = answers_bnd[where Q = "\<lambda>_. True"] answers_bnd[where Q = "is_response_to _"]

lemma answers_handlers:
  "answers u req (handleGetRouterRtpCapabilities u req)"
  "answers u req (handleCreateWebrtcTransport u req)"
  "answers u req (handleConnectWebrtcTransport u req)"
  "answers u req (handleProduceData u req)"
  "answers u req (handleProduce u req)"
  unfolding handleGetRouterRtpCapabilities_def handleCreateWebrtcTransport_def handleConnectWebrtcTransport_def
    handleProduceData_def handleProduce_def
  by (rule answers_bnd[where Q = "\<lambda>_. True"], (rule calm_intros)+,
      (rule answers_bnd[where Q = "\<lambda>_. True"], (rule calm_intros)+)?,
      (rule answers_bnd[where Q = "is_response_to req"], (intro calm_intros; simp))?, simp add: answers_send)+

lemma answers_handleJoin: "answers u req (handleJoin u req)"
  unfolding handleJoin_def
  by (rule answers_bnd[where Q = "\<lambda>_. True"], (rule calm_intros)+,
      rule answers_bnd[where Q = "\<lambda>_. True"], (rule calm_intros)+, rule answers_if, rule answers_panic, simp,
      rule answers_bnd[where Q = "\<lambda>_. True"], (intro calm_intros; simp add: user_ext_def),
      rule answers_bnd[where Q = "\<lambda>_. True"], (rule calm_intros)+,
      rule answers_bnd[where Q = "\<lambda>_. True"], (rule calm_intros)+, rule answers_send, simp)

lemma calm_HandleCloseProducer: "calm {u} (\<lambda>_. True) (HandleCloseProducer u req)"
  unfolding HandleCloseProducer_def by (intro calm_intros; simp)

definition request_methods :: "string list" where
  "request_methods = [''getRouterRtpCapabilities'', ''createWebRtcTransport'', ''connectWebRtcTransport'',
     ''join'', ''produceData'', ''produce'']"

lemma ReadMessage_answers:
  "msg_Method req \<in> set request_methods \<Longrightarrow> answers u req (ReadMessage_one u (Some req))"
  by (auto simp: request_methods_def ReadMessage_one_def answers_handlers answers_handleJoin)

lemma ReadMessage_calm:
  "msg_Method req \<notin> set request_methods \<Longrightarrow> calm {u} (\<lambda>_. True) (ReadMessage_one u (Some req))"
  by (auto simp: request_methods_def ReadMessage_one_def Let_def calm_HandleCloseProducer intro!: calm_ret)

text \<open>Whatever a registered user sends, the invariant survives and only bad data can panic.\<close>

lemma ReadMessage_safe:
  assumes "srv_ok s" and "u \<in> set (ws_users s)"
  shows "wp (ReadMessage_one u mo) (\<lambda>_ t. srv_ok t \<and> ws_users t = ws_users s \<and> all_writing t = all_writing s)
    data_panic (\<lambda>t. srv_ok t \<and> ws_users t = ws_users s \<and> \<not> all_writing s) s"
proof (cases mo)
  case None
  with assms show ?thesis by (simp add: ReadMessage_one_def)
next
  case (Some req)
  show ?thesis
  proof (cases "msg_Method req \<in> set request_methods")
    case True
    show ?thesis unfolding Some
      by (rule wp_mono[OF answersD[OF ReadMessage_answers[OF True] assms]])
        (auto dest: users_extD(1) users_ext_writing)
  next
    case False
    show ?thesis unfolding Some
      by (rule wp_mono[OF calmD[OF ReadMessage_calm[OF False], of s u]])
        (use assms in \<open>auto dest: users_extD(1) users_ext_writing\<close>)
  qed
qed

end
