(* ===== verification/Signalling.thy ===== *)
theory Signalling
  imports Ws_Server Room_Safety
begin

section \<open>The signalling server as a whole (wssServer.go, user.go, room.go, grpcServer.go)\<close>

text \<open>
  Connections, messages, disconnections, write errors and events of the workers as steps of one transition
  system, and what holds in every state it reaches. A handler that blocks leaves the state it had reached;
  the other goroutines go on from there. The gRPC server is set up by a step of its own, since it starts in a
  goroutine beside the WebSocket server.
\<close>

subsection \<open>Connecting and disconnecting\<close>

lemma srv_ok_register:
  assumes s: "srv_ok s" and u: "map_of (srv_users s) u = Some usr" "\<not> us_closed usr" "u \<notin> set (ws_users s)"
  shows "srv_ok (s\<lparr>ws_users := ws_users s @ [u]\<rparr>)"
proof -
  let ?t = "s\<lparr>ws_users := ws_users s @ [u]\<rparr>"
  have "room_ok ?t rid room" if "room_ok s rid room" for rid room
    using that by (auto simp: room_ok_def member_ok_def)
  with s u show ?thesis unfolding srv_ok_def by (auto simp: streams_ok_def order_ok_def)
qed

lemma wp_AddUser:
  assumes s: "srv_ok s" and u: "u \<in> set (ws_users s)" "map_of (srv_users s) u = Some usr" "us_roomId usr = rid"
  shows "wp (AddUser rid u) (\<lambda>_ t. srv_ok t \<and> ws_users t = ws_users s \<and> srv_users t = srv_users s) data_panic (\<lambda>_. False) s"
proof (cases "map_of (srv_rooms s) rid")
  case None
  with u show ?thesis by (simp add: wp_def AddUser_def bnd_def get_user_def upd_room_def)
next
  case (Some room)
  let ?f = "\<lambda>room. if map_of (rm_users room) (us_userId usr) = None
    then room\<lparr>rm_users := AList.update (us_userId usr) u (rm_users room)\<rparr> else room"
  let ?t = "s\<lparr>srv_rooms := AList.update rid (?f room) (srv_rooms s)\<rparr>"
  have "member_ok s rid (us_userId usr) u" using u by (auto simp: member_ok_def)
  then have "room_ok s rid (?f room)"
    using srv_okD(4)[OF s Some] by (auto simp: room_ok_def intro: wf_map_update)
  then have "srv_ok ?t"
    by (intro srv_ok_ext[OF s users_ext_same])
      (use srv_okD(1,2,4)[OF s] in \<open>auto simp: streams_ok_def order_ok_def split: if_splits\<close>)
  with u Some show ?thesis by (simp add: wp_def AddUser_def bnd_def get_user_def upd_room_def)
qed

lemma wp_Run_Register:
  assumes s: "srv_ok s" and u: "map_of (srv_users s) u = Some usr" "\<not> us_closed usr" "u \<notin> set (ws_users s)"
  shows "wp (Run_Register u) (\<lambda>_ t. srv_ok t \<and> ws_users t = ws_users s @ [u]) data_panic (\<lambda>_. False) s"
proof -
  let ?s = "s\<lparr>ws_users := ws_users s @ [u]\<rparr>"
  note ok = srv_ok_register[OF s u]
  have step: "wp (if room then AddUser (us_roomId usr) u else ret ()) (\<lambda>_ t. srv_ok t \<and> ws_users t = ws_users s @ [u])
      data_panic (\<lambda>_. False) t" if t: "srv_ok t" "users_ext silent ?s t" for room t
  proof -
    obtain usr' where usr': "map_of (srv_users t) u = Some usr'" "user_ext [] usr usr'"
      using users_extD(2)[OF t(2), of u usr] u(1) by auto
    have "wp (AddUser (us_roomId usr) u) (\<lambda>_ v. srv_ok v \<and> ws_users v = ws_users s @ [u]) data_panic (\<lambda>_. False) t"
      by (rule wp_mono[OF wp_AddUser[OF t(1) _ usr'(1)]])
        (use usr'(2) users_extD(1)[OF t(2)] in \<open>auto simp: user_ext_def\<close>)
    with t users_extD(1)[OF t(2)] show ?thesis by simp
  qed
  have "wp (GetOrCreateRoom (us_roomId usr)) (\<lambda>room. wp (if room then AddUser (us_roomId usr) u else ret ())
      (\<lambda>_ t. srv_ok t \<and> ws_users t = ws_users s @ [u]) data_panic (\<lambda>_. False)) data_panic (\<lambda>_. False) ?s"
    by (rule wp_mono[OF wp_GetOrCreateRoom[OF ok]]) (use step in auto)
  with u show ?thesis by (simp add: Run_Register_def)
qed

lemma wp_HandleWebSocket:
  assumes s: "srv_ok s"
  shows "wp (HandleWebSocket roomId peerId remoteAddr)
    (\<lambda>u t. srv_ok t \<and> u \<notin> set (ws_users s) \<and> ws_users t = ws_users s @ [u]) data_panic (\<lambda>_. False) s"
proof -
  let ?u = "fresh (srv_users s)"
  have new: "map_of (srv_users s) ?u = None" by (rule fresh_new)
  then have u: "?u \<notin> set (ws_users s)" using srv_okD(5)[OF s, of ?u] by auto
  have ok: "srv_ok (s\<lparr>clock := c, rnd := r, srv_users := AList.update ?u usr (srv_users s)\<rparr>)" if w: "us_writer usr" for r c usr
  proof -
    let ?t = "s\<lparr>clock := c, rnd := r, srv_users := AList.update ?u usr (srv_users s)\<rparr>"
    have "room_ok ?t rid room" if "room_ok s rid room" for rid room
      using that u by (auto simp: room_ok_def member_ok_def)
    with s new w show ?thesis unfolding srv_ok_def by (auto simp: streams_ok_def order_ok_def)
  qed
  have reg: "wp (Run_Register ?u) (\<lambda>_ t. srv_ok t \<and> ws_users t = ws_users s @ [?u]) data_panic (\<lambda>_. False)
      (s\<lparr>clock := c, rnd := r, srv_users := AList.update ?u usr (srv_users s)\<rparr>)" if "\<not> us_closed usr" "us_writer usr" for r c usr
    by (rule wp_mono[OF wp_Run_Register[OF ok, where usr = usr]]) (use u that in auto)
  show ?thesis
    unfolding HandleWebSocket_def rand_Intn_def
    by simp (rule wp_mono[OF reg], use u in auto)
qed

text \<open>What remains of the unregistration once the member is out of its room keeps the invariant.\<close>

definition unregister_rest :: "string \<Rightarrow> Peer \<Rightarrow> (unit, 'z srv_state_scheme) go" where
  "unregister_rest rid peer =
     bnd (range_users rid (\<lambda>k v. NotifyPeerClosed v peer)) (\<lambda>_.
     bnd (GetUserNums rid) (\<lambda>n.
     if n = 0
     then bnd (Close rid) (\<lambda>_. bnd (get_room rid) (\<lambda>r. DeleteRoom (rm_roomId r)))
     else ret ()))"

definition closed_peer :: "User \<Rightarrow> Peer" where
  "closed_peer usr = \<lparr>peer_PeerId = us_PeerId usr, peer_DisplayName = '''', peer_Device = None, peer_RemoteAddress = ''''\<rparr>"

lemma calm_GetUserNums [calm_intros]: "calm U (\<lambda>_. True) (GetUserNums rid)"
  unfolding GetUserNums_def by (intro calm_intros; simp)

lemma calm_unregister_rest: "calm U (\<lambda>_. True) (unregister_rest rid peer)"
  unfolding unregister_rest_def by (intro calm_intros; simp)

definition unregistered :: "nat \<Rightarrow> User \<Rightarrow> 'z srv_state_scheme \<Rightarrow> 'z srv_state_scheme" where
  "unregistered u usr s = s\<lparr>ws_users := removeAll u (ws_users s),
     srv_users := AList.update u (usr\<lparr>us_closed := True\<rparr>) (srv_users s)\<rparr>"

definition without_member :: "string \<Rightarrow> string \<Rightarrow> Room \<Rightarrow> 'z srv_state_scheme \<Rightarrow> 'z srv_state_scheme" where
  "without_member rid k room s = s\<lparr>srv_rooms :=
     AList.update rid (room\<lparr>rm_users := AList.delete k (rm_users room)\<rparr>) (srv_rooms s)\<rparr>"

lemma member_unregistered:
  assumes "member_ok s rid k v" and "v \<noteq> u"
  shows "member_ok (unregistered u usr s) rid k v"
  using assms by (simp add: member_ok_def unregistered_def)

lemma srv_ok_unregistered:
  assumes s: "srv_ok s" and u: "u \<in> set (ws_users s)" "map_of (srv_users s) u = Some usr"
    and rooms: "\<And>rid room. map_of rs rid = Some room \<Longrightarrow> room_ok s rid room"
    and gone: "\<And>rid room k. map_of rs rid = Some room \<Longrightarrow> map_of (rm_users room) k \<noteq> Some u"
  shows "srv_ok ((unregistered u usr s)\<lparr>srv_rooms := rs\<rparr>)"
proof -
  let ?t = "(unregistered u usr s)\<lparr>srv_rooms := rs\<rparr>"
  have "member_ok ?t rid k v" if "member_ok s rid k v" "v \<noteq> u" for rid k v
    using member_unregistered[OF that] by (simp add: member_ok_def)
  moreover have "gRtcServer ?t = gRtcServer s" by (simp add: unregistered_def)
  ultimately have "room_ok ?t rid room" if "map_of rs rid = Some room" for rid room
    using rooms[OF that] gone[OF that] unfolding room_ok_def by metis
  moreover have "streams_ok ?t" "order_ok ?t" "distinct (ws_users ?t)"
    using srv_okD(1-3)[OF s] by (simp_all add: unregistered_def streams_ok_def order_ok_def distinct_removeAll)
  moreover have "\<exists>w. map_of (srv_users ?t) v = Some w \<and> \<not> us_closed w" if "v \<in> set (ws_users ?t)" for v
    using that srv_okD(5)[OF s, of v] by (auto simp: unregistered_def)
  moreover have "us_writer w" if "map_of (srv_users ?t) v = Some w" "us_conn w" for v w
    using that srv_okD(6)[OF s] u(2) by (auto simp: unregistered_def split: if_splits)
  ultimately show ?thesis unfolding srv_ok_def by simp
qed

lemma Run_Unregister_split:
  assumes u: "u \<in> set (ws_users s)" "map_of (srv_users s) u = Some usr" "\<not> us_closed usr"
  shows "wp (Run_Unregister u) Q F R s \<longleftrightarrow> wp (GetOrCreateRoom (us_roomId usr)) (\<lambda>room. wp
      (if \<not> room then ret () else bnd (DeleteUser (us_roomId usr) u) (\<lambda>_. bnd (GetUserNums (us_roomId usr)) (\<lambda>n.
         if n = 0 then bnd (Close (us_roomId usr)) (\<lambda>_. bnd (get_room (us_roomId usr)) (\<lambda>r. DeleteRoom (rm_roomId r)))
         else ret ()))) Q F R) F R (unregistered u usr s)"
  using u by (simp add: Run_Unregister_def close_sendMsg_def unregistered_def cong del: if_weak_cong)

lemma wp_delete_rest:
  assumes "map_of (srv_rooms s) rid = Some room" and "map_of (srv_users s) u = Some usr"
  shows "wp (bnd (DeleteUser rid u) (\<lambda>_. bnd (GetUserNums rid) (\<lambda>n.
         if n = 0 then bnd (Close rid) (\<lambda>_. bnd (get_room rid) (\<lambda>r. DeleteRoom (rm_roomId r)))
         else ret ()))) Q F R s \<longleftrightarrow>
    wp (unregister_rest rid (closed_peer usr)) Q F R (without_member rid (us_userId usr) room s)"
  using assms by (simp add: DeleteUser_def unregister_rest_def closed_peer_def without_member_def)

lemma wp_unregister_rest:
  assumes "srv_ok s"
  shows "wp (unregister_rest rid peer) (\<lambda>_ t. srv_ok t \<and> ws_users t = ws_users s \<and> users_ext silent s t) data_panic
    (\<lambda>t. srv_ok t \<and> ws_users t = ws_users s \<and> \<not> all_writing s) s"
  by (rule wp_mono[OF calmD[OF calm_unregister_rest assms, of "{}"]]) (auto dest: users_extD(1))

lemma without_member_ok:
  assumes s: "srv_ok s" and u: "u \<in> set (ws_users s)" "map_of (srv_users s) u = Some usr"
    and room: "map_of (srv_rooms s) (us_roomId usr) = Some room"
  shows "srv_ok (without_member (us_roomId usr) (us_userId usr) room (unregistered u usr s))"
proof -
  let ?rs = "AList.update (us_roomId usr) (room\<lparr>rm_users := AList.delete (us_userId usr) (rm_users room)\<rparr>) (srv_rooms s)"
  have "srv_ok ((unregistered u usr s)\<lparr>srv_rooms := ?rs\<rparr>)"
  proof (rule srv_ok_unregistered[OF s u])
    show "room_ok s rid r" if "map_of ?rs rid = Some r" for rid r
      using that srv_okD(4)[OF s, of rid] room by (auto simp: room_ok_def wf_map_delete split: if_splits)
    show "map_of (rm_users r) k \<noteq> Some u" if "map_of ?rs rid = Some r" for rid r k
      using that srv_okD(4)[OF s, of rid] room u(2) by (fastforce simp: room_ok_def member_ok_def split: if_splits)
  qed
  then show ?thesis by (simp add: without_member_def unregistered_def)
qed

lemma all_writing_unregistered: "all_writing s \<Longrightarrow> all_writing (unregistered u usr s)"
  by (auto simp: all_writing_def unregistered_def)

lemma wp_Run_Unregister:
  assumes s: "srv_ok s"
  shows "wp (Run_Unregister u) (\<lambda>_ t. srv_ok t \<and> ws_users t = removeAll u (ws_users s) \<and> (u \<in> set (ws_users s) \<longrightarrow> map_of (srv_users t) u \<noteq> None)) data_panic
    (\<lambda>t. srv_ok t \<and> ws_users t = removeAll u (ws_users s) \<and> \<not> all_writing s) s"
proof (cases "u \<in> set (ws_users s)")
  case False
  with s show ?thesis by (simp add: Run_Unregister_def)
next
  case True
  obtain usr where usr: "map_of (srv_users s) u = Some usr" "\<not> us_closed usr" using srv_okD(5)[OF s True] by blast
  let ?s = "unregistered u usr s" and ?rid = "us_roomId usr"
  have writing: "all_writing s \<Longrightarrow> all_writing (without_member ?rid k room ?s)" for k room
    using all_writing_unregistered[of s u usr] by (simp add: all_writing_def without_member_def)
  have rest: "wp (bnd (DeleteUser ?rid u) (\<lambda>_. bnd (GetUserNums ?rid) (\<lambda>n.
         if n = 0 then bnd (Close ?rid) (\<lambda>_. bnd (get_room ?rid) (\<lambda>r. DeleteRoom (rm_roomId r))) else ret ())))
      (\<lambda>_ t. srv_ok t \<and> ws_users t = removeAll u (ws_users s) \<and> (u \<in> set (ws_users s) \<longrightarrow> map_of (srv_users t) u \<noteq> None)) data_panic
      (\<lambda>t. srv_ok t \<and> ws_users t = removeAll u (ws_users s) \<and> \<not> all_writing s) t"
    if "map_of (srv_rooms t) ?rid = Some room" "map_of (srv_users t) u = Some w" "us_userId w = us_userId usr"
      "srv_ok (without_member ?rid (us_userId usr) room t)" "ws_users t = removeAll u (ws_users s)"
      "all_writing s \<Longrightarrow> all_writing (without_member ?rid (us_userId usr) room t)" for t room w
    unfolding wp_delete_rest[OF that(1,2)] that(3)
  proof (rule wp_mono[OF wp_unregister_rest[OF that(4)]], goal_cases)
    case (1 _ v)
    then have "map_of (srv_users v) u \<noteq> None"
      using users_extD(2)[of silent _ v u w] that(2) by (fastforce simp: without_member_def)
    with 1 that(5) show ?case by (simp add: without_member_def)
  qed (use that(5,6) in \<open>auto simp: without_member_def\<close>)
  show ?thesis
  proof (cases "map_of (srv_rooms s) ?rid")
    case (Some room)
    then have "GetOrCreateRoom ?rid ?s = Ret True ?s"
      by (simp add: GetOrCreateRoom_def bnd_def rd_def ret_def unregistered_def)
    moreover have "wp (bnd (DeleteUser ?rid u) (\<lambda>_. bnd (GetUserNums ?rid) (\<lambda>n.
         if n = 0 then bnd (Close ?rid) (\<lambda>_. bnd (get_room ?rid) (\<lambda>r. DeleteRoom (rm_roomId r))) else ret ())))
      (\<lambda>_ t. srv_ok t \<and> ws_users t = removeAll u (ws_users s) \<and> (u \<in> set (ws_users s) \<longrightarrow> map_of (srv_users t) u \<noteq> None)) data_panic
      (\<lambda>t. srv_ok t \<and> ws_users t = removeAll u (ws_users s) \<and> \<not> all_writing s) ?s"
      by (rule rest[of _ room "usr\<lparr>us_closed := True\<rparr>"])
        (use Some without_member_ok[OF s True usr(1) Some] writing in \<open>simp_all add: unregistered_def\<close>)
    ultimately show ?thesis unfolding Run_Unregister_split[OF True usr] by (simp add: wp_def)
  next
    case None
    have ok: "srv_ok ?s"
    proof -
      have "map_of (rm_users r) k \<noteq> Some u" if "map_of (srv_rooms s) rid = Some r" for rid r k
        using that srv_okD(4)[OF s that] None usr(1) by (fastforce simp: room_ok_def member_ok_def)
      from srv_ok_unregistered[where rs = "srv_rooms s", OF s True usr(1) srv_okD(4)[OF s] this]
      show ?thesis by (simp add: unregistered_def)
    qed
    show ?thesis
      unfolding Run_Unregister_split[OF True usr]
    proof (rule wp_mono[OF wp_GetOrCreateRoom[OF ok]], goal_cases)
      case (1 b t)
      obtain w where w: "map_of (srv_users t) u = Some w" "us_userId w = us_userId usr"
        using users_extD(2)[of silent ?s t u "usr\<lparr>us_closed := True\<rparr>"] 1 by (auto simp: user_ext_def unregistered_def)
      have wst: "ws_users t = removeAll u (ws_users s)" using users_extD(1)[of silent ?s t] 1 by (simp add: unregistered_def)
      show ?case
      proof (cases "map_of (srv_rooms t) ?rid")
        case None
        have "wp (DeleteUser ?rid u) P data_panic R t" for P R
          using None w by (simp add: DeleteUser_def) (simp add: wp_def upd_room_def)
        with 1 wst w show ?thesis by simp
      next
        case (Some room)
        have "wp (upd_room ?rid (\<lambda>room. room\<lparr>rm_users := AList.delete (us_userId usr) (rm_users room)\<rparr>))
            (\<lambda>_ v. srv_ok v) data_panic (\<lambda>_. True) t"
          by (rule wp_mono[OF calmD[OF calm_upd_room_ok, of _ _ t "{}"]]) (use 1 in \<open>auto simp: room_ok_def wf_map_delete split: if_splits\<close>)
        with Some have "srv_ok (without_member ?rid (us_userId usr) room t)" by (simp add: without_member_def)
        moreover have "all_writing s \<Longrightarrow> all_writing (without_member ?rid (us_userId usr) room t)"
          using all_writing_unregistered[of s u usr] users_ext_writing[of silent ?s t] 1
          by (simp add: all_writing_def without_member_def)
        ultimately show ?thesis using rest[OF Some w _ wst] 1 wst w(1) by auto
      qed
    qed auto
  qed
qed

subsection \<open>The transition system\<close>

inductive sig_step :: "srv_state \<Rightarrow> srv_state \<Rightarrow> bool" where
  connect: "HandleWebSocket roomId peerId addr s = Ret u t \<Longrightarrow> sig_step s t"
| message: "u \<in> set (ws_users s) \<Longrightarrow> ReadMessage_one u mo s = Ret () t \<Longrightarrow> sig_step s t"
| message_blocks: "u \<in> set (ws_users s) \<Longrightarrow> ReadMessage_one u mo s = Stuck t \<Longrightarrow> sig_step s t"
| disconnect: "Run_Unregister u s = Ret () t \<Longrightarrow> sig_step s t"
| disconnect_blocks: "Run_Unregister u s = Stuck t \<Longrightarrow> sig_step s t"
| write_error: "WriteMessage_fails u s = Ret () t \<Longrightarrow> sig_step s t"
| server_up: "\<not> gRtcServer s \<Longrightarrow> sig_step s ((NewWebRtcServer s)\<lparr>gRtcServer := True\<rparr>)"
| worker_connects: "gRtcServer s \<Longrightarrow> map_of (rtc_sessions s) sid = None \<Longrightarrow> Sync_start sid s = Ret () t \<Longrightarrow> sig_step s t"
| worker_event: "Sync sid ev s = Ret () t \<Longrightarrow> sig_step s t"
| cleanup_tick: "gRtcServer s \<Longrightarrow> sig_step s (s\<lparr>rtc_wm := cleanupWorkers now ks (rtc_wm s)\<rparr>)"

definition sig_init :: "srv_state \<Rightarrow> bool" where
  "sig_init s \<longleftrightarrow> rtc_workers s = [] \<and> rtc_streams s = [] \<and> rtc_chans s = [] \<and> rtc_sessions s = [] \<and>
     srv_users s = [] \<and> srv_rooms s = [] \<and> ws_users s = NewServer \<and> \<not> gRtcServer s \<and> order_ok s"

lemma srv_ok_closed:
  assumes s: "srv_ok s" and that: "map_of (srv_users s) u = Some usr"
  shows "srv_ok (s\<lparr>srv_users := AList.update u (usr\<lparr>us_writer := b, us_conn := False\<rparr>) (srv_users s)\<rparr>)" (is "srv_ok ?t")
proof -
  have "room_ok ?t rid room" if "room_ok s rid room" for rid room
    using that \<open>map_of (srv_users s) u = Some usr\<close> by (fastforce simp: room_ok_def member_ok_def)
  then have "\<forall>rid room. map_of (srv_rooms ?t) rid = Some room \<longrightarrow> room_ok ?t rid room" using srv_okD(4)[OF s] by simp
  moreover have "\<forall>v \<in> set (ws_users ?t). \<exists>w. map_of (srv_users ?t) v = Some w \<and> \<not> us_closed w"
    using srv_okD(5)[OF s] that by fastforce
  moreover have "\<forall>v w. map_of (srv_users ?t) v = Some w \<longrightarrow> us_conn w \<longrightarrow> us_writer w" using srv_okD(6)[OF s] by simp
  moreover have "streams_ok ?t" "order_ok ?t" "distinct (ws_users ?t)"
    using srv_okD(1-3)[OF s] by (simp_all add: streams_ok_def order_ok_def)
  ultimately show ?thesis unfolding srv_ok_def by blast
qed

lemma srv_ok_server:
  assumes s: "srv_ok s" and "streams_ok t" and "rtc_outer t = rtc_outer s"
  shows "srv_ok t"
  using outer_srv[OF assms(3)] assms(2) srv_okD(2,4)[OF s] by (intro srv_ok_ext[OF s users_ext_same]) auto

lemma sig_step_ok: "sig_step s t \<Longrightarrow> srv_ok s \<Longrightarrow> srv_ok t"
proof (induction rule: sig_step.induct)
  case (connect roomId peerId addr s u t)
  then show ?case using wpD_Ret[OF wp_HandleWebSocket] by blast
next
  case (message u s mo t)
  then show ?case using wpD_Ret[OF ReadMessage_safe] by blast
next
  case (message_blocks u s mo t)
  then show ?case using wpD_Stuck[OF ReadMessage_safe] by blast
next
  case (disconnect u s t)
  then show ?case using wpD_Ret[OF wp_Run_Unregister] by blast
next
  case (disconnect_blocks u s t)
  then show ?case using wpD_Stuck[OF wp_Run_Unregister] by blast
next
  case (write_error u s t)
  then show ?case
    using srv_ok_closed[OF write_error.prems]
    by (auto simp: WriteMessage_fails_def wsConn_Close_def upd_user_def go_eval split: option.splits)
next
  case (server_up s)
  let ?t = "(NewWebRtcServer s)\<lparr>gRtcServer := True\<rparr>"
  have "room_ok ?t rid room" if "room_ok s rid room" for rid room
    using that by (auto simp: room_ok_def member_ok_def NewWebRtcServer_def InitWorkerManager_def)
  with server_up show ?case unfolding srv_ok_def by (auto simp: streams_ok_def order_ok_def NewWebRtcServer_def InitWorkerManager_def)
next
  case (worker_connects s sid t)
  have "t = s\<lparr>rtc_sessions := AList.update sid \<lparr>ses_workerID = '''', ses_ws = None\<rparr> (rtc_sessions s)\<rparr>"
    using worker_connects by (simp add: Sync_start_def wr_def)
  moreover have "streams_ok (s\<lparr>rtc_sessions := AList.update sid \<lparr>ses_workerID = '''', ses_ws = None\<rparr> (rtc_sessions s)\<rparr>)"
    using srv_okD(1)[OF worker_connects.prems] by (auto simp: streams_ok_def)
  ultimately show ?case
    using worker_connects.prems by (intro srv_ok_server[of s t]) (auto simp: rtc_outer_def)
next
  case (worker_event sid ev s t)
  have "streams_ok t"
    using wpD_Ret[OF Sync_spec[OF srv_okD(1)[OF worker_event.prems]] worker_event.hyps] by (simp add: sync_rel_def)
  then show ?case by (rule srv_ok_server[OF worker_event.prems]) (rule keepsD_Ret[OF keeps_Sync worker_event.hyps])
next
  case (cleanup_tick s now ks)
  then show ?case by (intro srv_ok_server[OF cleanup_tick.prems]) (simp_all add: srv_okD(1))
qed

interpretation sig: invariant_system sig_init sig_step srv_ok
proof
  show "srv_ok s" if "sig_init s" for s
    using that by (simp add: sig_init_def srv_ok_def streams_ok_def NewServer_def)
qed (rule sig_step_ok)

subsection \<open>Properties of the signalling server\<close>

text \<open>
  C5. Between handlers, when these run one after another: in every state reached so, a room is stored under its own id, and
  each of its members is a registered user of that room, stored under its own user id, whose channel is open. (Inside an
  unregistration this does not hold, which \<^verbatim>\<open>Sessions\<close> makes use of.)
\<close>

theorem room_members_registered:
  assumes "reach sig_init sig_step s" and "map_of (srv_rooms s) rid = Some room"
    and "map_of (rm_users room) k = Some u"
  shows "rm_roomId room = rid \<and> u \<in> set (ws_users s) \<and>
    (\<exists>usr. map_of (srv_users s) u = Some usr \<and> us_userId usr = k \<and> us_roomId usr = rid \<and> \<not> us_closed usr)"
proof -
  note ok = sig.reach_invar[OF assms(1)]
  have "rm_roomId room = rid" and "member_ok s rid k u"
    using srv_okD(4)[OF ok assms(2)] assms(3) by (auto simp: room_ok_def)
  then show ?thesis using srv_okD(5)[OF ok, of u] by (auto simp: member_ok_def)
qed

lemma wp_channel_panics:
  "wp m Q data_panic R s \<Longrightarrow> m s \<noteq> Panic SendOnClosedChan \<and> m s \<noteq> Panic CloseOfClosedChan"
  by (auto simp: wp_def)

text \<open>
  C6. When handlers run one after another: in every state the server reaches, handling a message of a registered
  user, accepting a connection and unregistering a user never send on a closed channel and never close a channel twice:
  the only panics left are a nil pointer and a slice index, on data of a client or a worker or before the gRPC server is
  set up.
\<close>

theorem no_closed_channel_panic:
  assumes "reach sig_init sig_step s"
  shows "(u \<in> set (ws_users s) \<longrightarrow> ReadMessage_one u mo s \<noteq> Panic SendOnClosedChan \<and> ReadMessage_one u mo s \<noteq> Panic CloseOfClosedChan) \<and>
    HandleWebSocket roomId peerId addr s \<noteq> Panic SendOnClosedChan \<and> HandleWebSocket roomId peerId addr s \<noteq> Panic CloseOfClosedChan \<and>
    Run_Unregister v s \<noteq> Panic SendOnClosedChan \<and> Run_Unregister v s \<noteq> Panic CloseOfClosedChan"
proof -
  note ok = sig.reach_invar[OF assms]
  show ?thesis
    using wp_channel_panics[OF ReadMessage_safe[OF ok]] wp_channel_panics[OF wp_HandleWebSocket[OF ok]]
      wp_channel_panics[OF wp_Run_Unregister[OF ok]] by blast
qed

text \<open>
  C7. In every state the server reaches in which all writers run, neither a message of a registered user
  nor a disconnection blocks.
\<close>

theorem no_block_while_writers_run:
  assumes "reach sig_init sig_step s" and "all_writing s"
  shows "(u \<in> set (ws_users s) \<longrightarrow> (\<forall>t. ReadMessage_one u mo s \<noteq> Stuck t)) \<and> (\<forall>t. Run_Unregister v s \<noteq> Stuck t)"
proof -
  note ok = sig.reach_invar[OF assms(1)]
  show ?thesis
    using ReadMessage_safe[OF ok, of u mo] wp_Run_Unregister[OF ok, of v] assms(2) by (auto simp: wp_def)
qed

text \<open>
  C9. Request and response: in every state the server reaches, one of the six request methods sent by a
  registered user, if it does not panic or block, delivers to that user exactly one response, with the id
  of the request, and to no other user any response.
\<close>

theorem request_answered_once:
  assumes "reach sig_init sig_step s" and "u \<in> set (ws_users s)" and "msg_Method req \<in> set request_methods"
    and "ReadMessage_one u (Some req) s = Ret () t" and "map_of (srv_users s) v = Some usr"
  shows "\<exists>usr' r. map_of (srv_users t) v = Some usr' \<and> msg_Response r \<and> msg_Id r = msg_Id req \<and>
    filter msg_Response (us_out usr') = filter msg_Response (us_out usr) @ (if v = u then [r] else [])"
proof -
  obtain r where r: "is_response_to req r" and ext: "users_ext (\<lambda>a. if a = u then [r] else []) s t"
    using wpD_Ret[OF answersD[OF ReadMessage_answers[OF assms(3)] sig.reach_invar[OF assms(1)] assms(2)] assms(4)] by blast
  from users_extD(2)[OF ext assms(5)] r show ?thesis by (auto simp: user_ext_def is_response_to_def)
qed

end
