(* ===== verification/Membership.thy ===== *)
theory Membership
  imports Signalling
begin

section \<open>Joining and leaving a room: who is told what (room.go, user.go, wssServer.go)\<close>

text \<open>
  The exact effect of the notification loops. \<open>delivered T m s t\<close> says that between the two states exactly the
  users of \<open>T\<close> received the one message \<open>m\<close> and nothing else of users and rooms changed. On it rest the
  theorems on joining and leaving, and the one on the loop that blocks when a member's writer has ended.
\<close>

definition deliver :: "nat set \<Rightarrow> WsMessage \<Rightarrow> nat \<Rightarrow> User \<Rightarrow> User" where
  "deliver T m a usr = (if a \<in> T then usr\<lparr>us_out := us_out usr @ [m]\<rparr> else usr)"

definition delivered :: "nat set \<Rightarrow> WsMessage \<Rightarrow> 'z srv_state_scheme \<Rightarrow> 'z srv_state_scheme \<Rightarrow> bool" where
  "delivered T m s t \<longleftrightarrow> srv_rooms t = srv_rooms s \<and> ws_users t = ws_users s \<and> gRtcServer t = gRtcServer s \<and> streams_ok t \<and> order_ok t \<and>
     (\<forall>a. map_of (srv_users t) a = map_option (deliver T m a) (map_of (srv_users s) a))"

definition targets :: "(string \<Rightarrow> bool) \<Rightarrow> Room \<Rightarrow> string set \<Rightarrow> nat set" where
  "targets P room ks = {v. \<exists>k \<in> ks. P k \<and> map_of (rm_users room) k = Some v}"

lemma deliver_simps [simp]:
  "us_userId (deliver T m a usr) = us_userId usr" "us_PeerId (deliver T m a usr) = us_PeerId usr"
  "us_roomId (deliver T m a usr) = us_roomId usr" "us_closed (deliver T m a usr) = us_closed usr"
  "us_writer (deliver T m a usr) = us_writer usr" "peer_of (deliver T m a usr) = peer_of usr"
  "deliver {} m a usr = usr"
  by (simp_all add: deliver_def peer_of_def)

lemma map_option_deliver_empty [simp]: "map_option (deliver {} m a) x = x"
  by (cases x) simp_all

lemma room_member:
  assumes s: "srv_ok s" and room: "map_of (srv_rooms s) rid = Some room" and k: "map_of (rm_users room) k = Some v"
  shows "\<exists>usr. map_of (srv_users s) v = Some usr \<and> us_userId usr = k \<and> us_roomId usr = rid \<and> \<not> us_closed usr \<and>
    v \<in> set (ws_users s)"
proof -
  have "member_ok s rid k v" using srv_okD(4)[OF s room] k by (simp add: room_ok_def)
  then show ?thesis using srv_okD(5)[OF s, of v] by (auto simp: member_ok_def)
qed

text \<open>Members are stored under their own id, so no user is a member under two keys.\<close>

lemma room_member_inj:
  assumes "srv_ok s" and "map_of (srv_rooms s) rid = Some room"
    and "map_of (rm_users room) k = Some v" and "map_of (rm_users room) k' = Some v"
  shows "k' = k"
  using room_member[OF assms(1,2,3)] room_member[OF assms(1,2,4)] by auto

lemma delivered_send:
  assumes d: "delivered T m s t" and v: "map_of (srv_users s) v = Some usr" "v \<notin> T"
    and "\<not> us_closed usr" and "us_writer usr"
  shows "\<exists>t'. send_msg v m t = Ret () t' \<and> delivered (insert v T) m s t'"
proof -
  have t: "map_of (srv_users t) v = Some usr" using d v by (simp add: delivered_def deliver_def)
  have "delivered (insert v T) m s (t\<lparr>srv_users := AList.update v (usr\<lparr>us_out := us_out usr @ [m]\<rparr>) (srv_users t)\<rparr>)"
    using d v by (auto simp: delivered_def deliver_def streams_ok_def order_ok_def intro!: option.map_cong0)
  with t assms(4,5) show ?thesis by (simp add: send_msg_def)
qed

definition writes :: "'z srv_state_scheme \<Rightarrow> Room \<Rightarrow> string \<Rightarrow> bool" where
  "writes s room k \<longleftrightarrow> (\<forall>v usr. map_of (rm_users room) k = Some v \<longrightarrow> map_of (srv_users s) v = Some usr \<longrightarrow> us_writer usr)"

definition member_turn :: "string \<Rightarrow> (string \<Rightarrow> nat \<Rightarrow> (unit, 'z srv_state_scheme) go) \<Rightarrow> string \<Rightarrow> (unit, 'z srv_state_scheme) go" where
  "member_turn rid body k = bnd (get_room rid) (\<lambda>room'.
     case map_of (rm_users room') k of None \<Rightarrow> ret () | Some v \<Rightarrow> body k v)"

lemma range_users_turns:
  "range_users rid body = bnd (get_room rid) (\<lambda>room. bnd (range_keys (keys (rm_users room))) (\<lambda>ks.
     for_each (member_turn rid body) ks))"
  unfolding range_users_def member_turn_def by simp

lemma for_members_send:
  assumes s: "srv_ok s" and room: "map_of (srv_rooms s) rid = Some room"
    and body: "\<And>T k v t. delivered T m s t \<Longrightarrow> body k v t = (if P k then send_msg v m t else Ret () t)"
    and ks: "distinct ks" "\<And>k. k \<in> set ks \<Longrightarrow> P k \<Longrightarrow> writes s room k" and t0: "delivered {} m s t0"
  shows "\<exists>t. for_each (member_turn rid body) ks t0 = Ret () t \<and> delivered (targets P room (set ks)) m s t"
proof -
  let ?I = "\<lambda>ys t. delivered (targets P room (set ys)) m s t"
  have "wp (for_each (member_turn rid body) ks) (\<lambda>_. ?I ks) (\<lambda>_. False) (\<lambda>_. False) t0"
  proof (rule wp_for_each_prefix, goal_cases)
    case 1
    show ?case using t0 by (simp add: targets_def)
  next
    case (2 ys k zs t)
    then have t: "map_of (srv_rooms t) rid = Some room" using room by (simp add: delivered_def)
    have "\<exists>t'. (case map_of (rm_users room) k of None \<Rightarrow> ret () | Some v \<Rightarrow> body k v) t = Ret () t' \<and> ?I (ys @ [k]) t'"
    proof (cases "P k \<and> map_of (rm_users room) k \<noteq> None")
      case True
      then obtain v where v: "map_of (rm_users room) k = Some v" by blast
      obtain usr where usr: "map_of (srv_users s) v = Some usr" "\<not> us_closed usr"
        using room_member[OF s room v] by blast
      have "us_writer usr" using ks(2)[of k] 2(1) True v usr(1) by (auto simp: writes_def)
      moreover have "v \<notin> targets P room (set ys)"
        using room_member_inj[OF s room v] ks(1) 2(1) by (auto simp: targets_def)
      moreover have "insert v (targets P room (set ys)) = targets P room (set (ys @ [k]))"
        using True v by (auto simp: targets_def)
      ultimately show ?thesis
        using delivered_send[OF 2(2) usr(1) _ usr(2)] v True body[OF 2(2)] by auto
    next
      case False
      then have "targets P room (set (ys @ [k])) = targets P room (set ys)" by (auto simp: targets_def)
      with False 2(2) body[OF 2(2)] show ?thesis by (auto simp: ret_def split: option.split)
    qed
    with t show ?case by (auto simp: wp_def bnd_def get_room_def member_turn_def)
  qed
  then show ?thesis by (simp add: wp_total)
qed

lemma order_keys:
  assumes s: "srv_ok s" and room: "map_of (srv_rooms s) rid = Some room"
  shows "distinct (order s 0 (keys (rm_users room)))" and "set (order s 0 (keys (rm_users room))) = set (keys (rm_users room))"
  using srv_okD(4)[OF s room] distinct_keys order_ok_distinct[OF srv_okD(2)[OF s]] order_ok_set[OF srv_okD(2)[OF s]]
  by (auto simp: room_ok_def)

lemma delivered_shift: "srv_ok s \<Longrightarrow> delivered {} m s (s\<lparr>order := \<lambda>i. order s (Suc i)\<rparr>)"
  by (simp add: delivered_def srv_okD(1,2))

lemma range_users_send:
  assumes s: "srv_ok s" and w: "\<And>k. P k \<Longrightarrow> writes s room k" and room: "map_of (srv_rooms s) rid = Some room"
    and body: "\<And>T k v t. delivered T m s t \<Longrightarrow> body k v t = (if P k then send_msg v m t else Ret () t)"
  shows "\<exists>t. range_users rid body s = Ret () t \<and> delivered (targets P room (set (keys (rm_users room)))) m s t"
  using for_members_send[OF s room body order_keys(1)[OF s room] w delivered_shift[OF s]] room order_keys(2)[OF s room]
  by (simp add: range_users_turns go_eval get_room_def range_keys_def)

lemma all_writing_writes: "srv_ok s \<Longrightarrow> all_writing s \<Longrightarrow> map_of (srv_rooms s) rid = Some room \<Longrightarrow> writes s room k"
  using room_member[of s rid room] by (fastforce simp: writes_def all_writing_def)

text \<open>A loop that meets a member whose writer has ended blocks there.\<close>

lemma for_each_append: "for_each f (xs @ ys) = bnd (for_each f xs) (\<lambda>_. for_each f ys)"
  by (induction xs) (auto simp: fun_eq_iff bnd_def ret_def split: outcome.split)

lemma range_users_blocks:
  assumes s: "srv_ok s" and room: "map_of (srv_rooms s) rid = Some room"
    and body: "\<And>T k v t. delivered T m s t \<Longrightarrow> body k v t = (if P k then send_msg v m t else Ret () t)"
    and k: "P k" "map_of (rm_users room) k \<noteq> None" "\<not> writes s room k"
  shows "\<exists>t. range_users rid body s = Stuck t"
proof -
  let ?ks = "order s 0 (keys (rm_users room))"
  have "k \<in> set ?ks" using k(2) order_keys(2)[OF s room] by (auto simp: in_keys_iff)
  then have "\<exists>x \<in> set ?ks. P x \<and> \<not> writes s room x" using k by blast
  then obtain ys x zs where split: "?ks = ys @ x # zs" and x: "P x" "\<not> writes s room x"
    and before: "\<forall>y \<in> set ys. \<not> (P y \<and> \<not> writes s room y)"
    using split_list_first_prop[of ?ks "\<lambda>x. P x \<and> \<not> writes s room x"] by blast
  have "distinct ys" using order_keys(1)[OF s room] split by simp
  have "\<exists>t. for_each (member_turn rid body) ys (s\<lparr>order := \<lambda>i. order s (Suc i)\<rparr>) = Ret () t \<and>
      delivered (targets P room (set ys)) m s t"
    by (rule for_members_send[OF s room body]) (use \<open>distinct ys\<close> before delivered_shift[OF s] in blast)+
  then obtain t where t: "for_each (member_turn rid body) ys (s\<lparr>order := \<lambda>i. order s (Suc i)\<rparr>) = Ret () t"
      "delivered (targets P room (set ys)) m s t"
    by blast
  obtain v usr where v: "map_of (rm_users room) x = Some v" "map_of (srv_users s) v = Some usr" "\<not> us_writer usr"
    using x(2) by (auto simp: writes_def)
  have "\<not> us_closed usr" using room_member[OF s room v(1)] v(2) by auto
  then have "member_turn rid body x t = Stuck t"
    using t(2) room v x(1) body[OF t(2)]
    by (simp add: member_turn_def bnd_def get_room_def send_msg_def delivered_def)
  with t(1) have "for_each (member_turn rid body) ?ks (s\<lparr>order := \<lambda>i. order s (Suc i)\<rparr>) = Stuck t"
    unfolding split for_each_append by (simp add: bnd_def)
  then show ?thesis using room by (simp add: range_users_turns go_eval get_room_def range_keys_def)
qed

subsection \<open>Joining\<close>

definition joined :: "WsMessage \<Rightarrow> User \<Rightarrow> User" where
  "joined req usr = (case req_data dec_JoinReqData zero_JoinReqData req of
      None \<Rightarrow> usr
    | Some d \<Rightarrow> usr\<lparr>us_Device := jq_Device d, us_DisplayName := jq_DisplayName d\<rparr>)"

definition new_peer_msg :: "User \<Rightarrow> WsMessage" where
  "new_peer_msg usr = blank_message\<lparr>msg_Notification := True, msg_Method := ''newPeer'',
     msg_Data := PeerDataD \<lparr>pd_Peer = peer_of usr\<rparr>\<rparr>"

definition other_members :: "string \<Rightarrow> Room \<Rightarrow> nat set" where
  "other_members me room = targets (\<lambda>k. k \<noteq> me) room (set (keys (rm_users room)))"

definition member_peer :: "'z srv_state_scheme \<Rightarrow> Room \<Rightarrow> string \<Rightarrow> Peer" where
  "member_peer s room k = peer_of (the (map_of (srv_users s) (the (map_of (rm_users room) k))))"

lemma joined_simps [simp]:
  "us_userId (joined req usr) = us_userId usr" "us_PeerId (joined req usr) = us_PeerId usr"
  "us_roomId (joined req usr) = us_roomId usr" "us_closed (joined req usr) = us_closed usr"
  "us_writer (joined req usr) = us_writer usr" "us_conn (joined req usr) = us_conn usr" "us_out (joined req usr) = us_out usr"
  by (simp_all add: joined_def split: option.split)

lemma GetOtherUsers_loop_eq:
  assumes "\<And>k v. map_of users k = Some v \<Longrightarrow> map_of (srv_users s) v \<noteq> None"
  shows "GetOtherUsers_loop me users ks s = Ret (map (\<lambda>k. peer_of (the (map_of (srv_users s) (the (map_of users k)))))
    (filter (\<lambda>k. k \<noteq> me \<and> map_of users k \<noteq> None) ks)) s"
  using assms
proof (induction me users ks rule: GetOtherUsers_loop.induct)
  case (2 me users k ks)
  show ?case
  proof (cases "k = me \<or> map_of users k = None")
    case False
    then obtain v usr where "map_of users k = Some v" "map_of (srv_users s) v = Some usr" using 2(4) by blast
    with False 2 show ?thesis by (simp add: go_eval get_user_def)
  qed (use 2 in auto)
qed (simp add: ret_def)

lemma GetOtherUsers_eq:
  assumes s: "srv_ok s" and u: "map_of (srv_users s) u = Some usr" and room: "map_of (srv_rooms s) rid = Some room"
  shows "\<exists>ks t. GetOtherUsers rid u s = Ret (map (member_peer s room) ks) t \<and> distinct ks \<and>
    set ks = set (keys (rm_users room)) - {us_userId usr} \<and> t = s\<lparr>order := \<lambda>i. order s (Suc i)\<rparr>"
proof -
  let ?ks = "order s 0 (keys (rm_users room))"
  let ?fs = "filter (\<lambda>k. k \<noteq> us_userId usr \<and> map_of (rm_users room) k \<noteq> None) ?ks"
  let ?t = "s\<lparr>order := \<lambda>i. order s (Suc i)\<rparr>"
  have "map_of (srv_users ?t) v \<noteq> None" if "map_of (rm_users room) k = Some v" for k v
    using room_member[OF s room that] by auto
  from GetOtherUsers_loop_eq[of "rm_users room" ?t, OF this]
  have "GetOtherUsers rid u s = Ret (map (member_peer s room) ?fs) ?t"
    using u room by (simp add: GetOtherUsers_def go_eval get_user_def get_room_def range_keys_def member_peer_def)
  moreover have "distinct ?fs" "set ?fs = set (keys (rm_users room)) - {us_userId usr}"
    using order_ok_distinct[OF srv_okD(2)[OF s]] order_ok_set[OF srv_okD(2)[OF s]] srv_okD(4)[OF s room]
    by (auto simp: room_ok_def in_keys_iff distinct_keys intro: distinct_filter)
  ultimately show ?thesis by blast
qed

lemma NotifyOtherUsers_eq:
  assumes s: "srv_ok s" and w: "all_writing s" and u: "map_of (srv_users s) u = Some usr"
    and room: "map_of (srv_rooms s) rid = Some room"
  shows "\<exists>t. NotifyOtherUsers rid u s = Ret () t \<and>
    delivered (other_members (us_userId usr) room) (new_peer_msg usr) s t"
proof -
  let ?body = "\<lambda>k v. if k = us_userId usr then ret ()
       else bnd (get_user u) (\<lambda>usr'. NotifyNewPeer v \<lparr>pd_Peer = peer_of usr'\<rparr>)"
  have "?body k v t = (if k \<noteq> us_userId usr then send_msg v (new_peer_msg usr) t else Ret () t)"
    if "delivered T (new_peer_msg usr) s t" for T k v t
  proof -
    have "map_of (srv_users t) u = Some (deliver T (new_peer_msg usr) u usr)"
      using that u by (simp add: delivered_def)
    then show ?thesis by (simp add: go_eval get_user_def NotifyNewPeer_def new_peer_msg_def)
  qed
  from range_users_send[where P = "\<lambda>k. k \<noteq> us_userId usr", OF s all_writing_writes[OF s w room] room this]
  show ?thesis using u by (simp add: NotifyOtherUsers_def go_eval get_user_def other_members_def)
qed

lemma delivered_ok:
  assumes s: "srv_ok s" and d: "delivered T m s t"
  shows "srv_ok t" and "all_writing t = all_writing s"
proof -
  have ext: "users_ext (\<lambda>a. if a \<in> T then filter msg_Response [m] else []) s t"
    using d by (auto simp: delivered_def users_ext_def deliver_def option.rel_map user_ext_def intro!: option.rel_refl)
  show "srv_ok t"
    by (rule srv_ok_ext[OF s ext]) (use d srv_okD(4)[OF s] in \<open>auto simp: delivered_def\<close>)
  show "all_writing t = all_writing s" by (rule users_ext_writing[OF ext])
qed

lemma join_update:
  assumes s: "srv_ok s" and w: "all_writing s" and u: "map_of (srv_users s) u = Some usr"
  shows "\<exists>t. (case req_data dec_JoinReqData zero_JoinReqData req of
              None \<Rightarrow> ret ()
            | Some reqData \<Rightarrow> upd_user u (\<lambda>v. v\<lparr>us_Device := jq_Device reqData, us_DisplayName := jq_DisplayName reqData\<rparr>)) s
       = Ret () t \<and> map_of (srv_users t) = (map_of (srv_users s))(u \<mapsto> joined req usr) \<and>
       srv_rooms t = srv_rooms s \<and> ws_users t = ws_users s \<and> srv_ok t \<and> all_writing t"
proof (cases "req_data dec_JoinReqData zero_JoinReqData req")
  case None
  then show ?thesis using s w u by (simp add: ret_def joined_def fun_upd_idem)
next
  case (Some d)
  let ?t = "s\<lparr>srv_users := AList.update u (joined req usr) (srv_users s)\<rparr>"
  have ext: "user_ext [] usr (joined req usr)" by (simp add: user_ext_def)
  have "srv_ok ?t" by (rule srv_ok_update_user[OF s u, of silent]) (use ext in auto)
  moreover have "users_ext silent s ?t" by (rule users_ext_update[OF u]) (use ext in auto)
  ultimately have "srv_ok ?t" "all_writing ?t" using w by (simp_all add: users_ext_writing)
  with Some u show ?thesis
    by (intro exI[of _ ?t]) (auto simp: upd_user_def joined_def fun_eq_iff)
qed

lemma handleJoin_eq:
  assumes s: "srv_ok s" and w: "all_writing s" and u: "u \<in> set (ws_users s)" "map_of (srv_users s) u = Some usr"
    and room: "map_of (srv_rooms s) (us_roomId usr) = Some room"
  shows "\<exists>ks t. handleJoin u req s = Ret () t \<and> distinct ks \<and> set ks = set (keys (rm_users room)) - {us_userId usr} \<and>
    srv_rooms t = srv_rooms s \<and>
    map_of (srv_users t) u = Some ((joined req usr)\<lparr>us_out := us_out usr @
      [(response_to req True)\<lparr>msg_Data := JoinResD \<lparr>jr_Peers = map (member_peer s room) ks\<rparr>\<rparr>]\<rparr>) \<and>
    (\<forall>v. v \<noteq> u \<longrightarrow> map_of (srv_users t) v =
      map_option (deliver (other_members (us_userId usr) room) (new_peer_msg (joined req usr)) v) (map_of (srv_users s) v))"
proof -
  let ?rid = "us_roomId usr" and ?me = "joined req usr" and ?T = "other_members (us_userId usr) room"
  have GOC: "GetOrCreateRoom ?rid s = Ret True s" using room by (simp add: GetOrCreateRoom_def go_eval)
  obtain s1 where s1: "(case req_data dec_JoinReqData zero_JoinReqData req of None \<Rightarrow> ret ()
      | Some d \<Rightarrow> upd_user u (\<lambda>v. v\<lparr>us_Device := jq_Device d, us_DisplayName := jq_DisplayName d\<rparr>)) s = Ret () s1"
    "map_of (srv_users s1) = (map_of (srv_users s))(u \<mapsto> ?me)" "srv_rooms s1 = srv_rooms s" "ws_users s1 = ws_users s"
    "srv_ok s1" "all_writing s1"
    using join_update[OF s w u(2), of req] by blast
  have u1: "map_of (srv_users s1) u = Some ?me" and r1: "map_of (srv_rooms s1) ?rid = Some room" using s1 room by auto
  obtain s2 where s2: "NotifyOtherUsers ?rid u s1 = Ret () s2" "delivered ?T (new_peer_msg ?me) s1 s2"
    using NotifyOtherUsers_eq[OF s1(5,6) u1 r1] by auto
  have not_u: "v \<noteq> u" if "k \<noteq> us_userId usr" "map_of (rm_users room) k = Some v" for k v
    using room_member[OF s room that(2)] u(2) that(1) by auto
  then have uT: "u \<notin> ?T" by (auto simp: other_members_def targets_def)
  have ok2: "srv_ok s2" "all_writing s2" using delivered_ok[OF s1(5) s2(2)] s1(6) by simp_all
  have u2: "map_of (srv_users s2) u = Some ?me" and r2: "map_of (srv_rooms s2) ?rid = Some room" "srv_rooms s2 = srv_rooms s"
    and ws2: "ws_users s2 = ws_users s"
    using s2(2) u1 r1 uT s1(3,4) by (simp_all add: delivered_def deliver_def)
  obtain ks s3 where ks: "GetOtherUsers ?rid u s2 = Ret (map (member_peer s2 room) ks) s3" "distinct ks"
      "set ks = set (keys (rm_users room)) - {us_userId usr}" and s3: "s3 = s2\<lparr>order := \<lambda>i. order s2 (Suc i)\<rparr>"
    using GetOtherUsers_eq[OF ok2(1) u2 r2(1)] by auto
  have "member_peer s2 room k = member_peer s room k" if k: "k \<in> set ks" for k
  proof -
    have "k \<in> set (keys (rm_users room))" using k ks(3) by blast
    then obtain v where v: "map_of (rm_users room) k = Some v" unfolding in_keys_iff by blast
    obtain w where "map_of (srv_users s) v = Some w" using room_member[OF s room v] by blast
    with v not_u[of k v] k ks(3) s1(2) s2(2) show ?thesis by (auto simp: member_peer_def delivered_def)
  qed
  then have peers: "map (member_peer s2 room) ks = map (member_peer s room) ks" by simp
  let ?r = "(response_to req True)\<lparr>msg_Data := JoinResD \<lparr>jr_Peers = map (member_peer s room) ks\<rparr>\<rparr>"
  have "us_writer ?me" "\<not> us_closed ?me"
    using w u srv_okD(5)[OF s u(1)] by (auto simp: all_writing_def)
  then have send: "send_msg u ?r s3 = Ret () (s3\<lparr>srv_users := AList.update u (?me\<lparr>us_out := us_out ?me @ [?r]\<rparr>) (srv_users s3)\<rparr>)"
    using u2 by (simp add: send_msg_def s3)
  have "handleJoin u req s = Ret () (s3\<lparr>srv_users := AList.update u (?me\<lparr>us_out := us_out ?me @ [?r]\<rparr>) (srv_users s3)\<rparr>)"
    using u(2) GOC s1(1) s2(1) ks(1) send peers by (simp add: handleJoin_def bnd_def get_user_def)
  with ks(2,3) s2(2) s1(2) r2(2) show ?thesis
    by (intro exI[of _ ks] exI conjI) (assumption | auto simp: s3 delivered_def)+
qed

subsection \<open>Leaving\<close>

definition peer_closed_msg :: "User \<Rightarrow> WsMessage" where
  "peer_closed_msg usr = blank_message\<lparr>msg_Notification := True, msg_Method := ''peerClosed'',
     msg_Data := PeerD (closed_peer usr)\<rparr>"

definition leave :: "string \<Rightarrow> Room \<Rightarrow> Room" where
  "leave k room = room\<lparr>rm_users := AList.delete k (rm_users room)\<rparr>"

lemma Run_Unregister_eq:
  assumes s: "srv_ok s" and u: "u \<in> set (ws_users s)" "map_of (srv_users s) u = Some usr"
    and room: "map_of (srv_rooms s) (us_roomId usr) = Some room"
  shows "Run_Unregister u s = unregister_rest (us_roomId usr) (closed_peer usr)
    (without_member (us_roomId usr) (us_userId usr) room (unregistered u usr s))"
proof -
  have "\<not> us_closed usr" using srv_okD(5)[OF s u(1)] u(2) by auto
  with u room show ?thesis
    by (simp add: Run_Unregister_def close_sendMsg_def go_eval get_user_def upd_user_def GetOrCreateRoom_def
        DeleteUser_def unregister_rest_def unregistered_def without_member_def closed_peer_def upd_room_def
        cong del: if_weak_cong)
qed

lemma closed_body:
  "NotifyPeerClosed v (closed_peer usr) t = (if True then send_msg v (peer_closed_msg usr) t else Ret () t)"
  by (simp add: NotifyPeerClosed_def peer_closed_msg_def)

lemma left_room [simp]:
  "map_of (srv_rooms (without_member rid k room s)) rid = Some (leave k room)"
  by (simp add: without_member_def leave_def)

lemma leave_exact:
  assumes s: "srv_ok s" and u: "u \<in> set (ws_users s)" "map_of (srv_users s) u = Some usr"
    and room: "map_of (srv_rooms s) (us_roomId usr) = Some room"
    and w: "\<And>k. k \<noteq> us_userId usr \<Longrightarrow> writes s room k" and stays: "rm_users (leave (us_userId usr) room) \<noteq> []"
  shows "\<exists>t. Run_Unregister u s = Ret () t \<and> ws_users t = removeAll u (ws_users s) \<and>
    map_of (srv_rooms t) (us_roomId usr) = Some (leave (us_userId usr) room) \<and>
    map_of (srv_users t) u = Some (usr\<lparr>us_closed := True\<rparr>) \<and>
    (\<forall>v. v \<noteq> u \<longrightarrow> map_of (srv_users t) v =
       map_option (deliver (other_members (us_userId usr) room) (peer_closed_msg usr) v) (map_of (srv_users s) v))"
proof -
  let ?rid = "us_roomId usr" and ?k = "us_userId usr"
  let ?s = "without_member ?rid ?k room (unregistered u usr s)"
  let ?T = "targets (\<lambda>_. True) (leave ?k room) (set (keys (rm_users (leave ?k room))))"
  have ok: "srv_ok ?s" by (rule without_member_ok[OF s u room])
  have others: "v \<noteq> u" if "map_of (rm_users room) k = Some v" "k \<noteq> ?k" for k v
    using room_member[OF s room that(1)] u(2) that(2) by auto
  have "writes ?s (leave ?k room) k" for k
    using w[of k] others[of k] by (auto simp: writes_def leave_def without_member_def unregistered_def)
  then obtain t where t: "range_users ?rid (\<lambda>k v. NotifyPeerClosed v (closed_peer usr)) ?s = Ret () t"
      "delivered ?T (peer_closed_msg usr) ?s t"
    using range_users_send[where P = "\<lambda>_. True", OF ok _ left_room closed_body] by auto
  have T: "?T = other_members ?k room"
    by (auto simp: targets_def other_members_def leave_def keys_delete)
  have uT: "u \<notin> other_members ?k room" using others by (auto simp: other_members_def targets_def)
  have "map_of (srv_rooms t) ?rid = Some (leave ?k room)" using t(2) by (simp add: delivered_def)
  then have "Run_Unregister u s = Ret () t"
    using Run_Unregister_eq[OF s u room] t(1) stays
    by (simp add: unregister_rest_def bnd_def GetUserNums_def get_room_def ret_def)
  with t(2) uT show ?thesis
    unfolding T by (auto simp: delivered_def without_member_def unregistered_def leave_def deliver_def)
qed

lemma last_leave_exact:
  assumes s: "srv_ok s" and u: "u \<in> set (ws_users s)" "map_of (srv_users s) u = Some usr"
    and room: "map_of (srv_rooms s) (us_roomId usr) = Some room"
    and last: "rm_users (leave (us_userId usr) room) = []" and replies: "router_replies s"
  shows "\<exists>t. Run_Unregister u s = Ret () t \<and> ws_users t = removeAll u (ws_users s) \<and>
    map_of (srv_rooms t) = (map_of (srv_rooms s))(us_roomId usr := None) \<and>
    map_of (srv_users t) = (map_of (srv_users s))(u \<mapsto> usr\<lparr>us_closed := True\<rparr>)"
proof -
  let ?rid = "us_roomId usr" and ?k = "us_userId usr"
  let ?s = "without_member ?rid ?k room (unregistered u usr s)"
  have ok: "srv_ok ?s" by (rule without_member_ok[OF s u room])
  let ?t = "?s\<lparr>order := \<lambda>i. order ?s (Suc i)\<rparr>"
  have oks: "streams_ok ?t" "router_replies ?t"
    using srv_okD(1)[OF ok] replies by (simp_all add: router_replies_def without_member_def unregistered_def)
  have "order ?s 0 [] = []" using order_okD[OF srv_okD(2)[OF ok], of 0 "[]"] by simp
  then have loop: "range_users ?rid (\<lambda>k v. NotifyPeerClosed v (closed_peer usr)) ?s = Ret () ?t"
    using last left_room[of ?rid ?k room "unregistered u usr s"]
    by (simp add: range_users_def go_eval get_room_def range_keys_def keys_def)
  have id: "rm_roomId (leave ?k room) = ?rid" using srv_okD(4)[OF s room] by (simp add: leave_def room_ok_def)
  let ?Q = "\<lambda>v. ws_users v = ws_users ?t \<and> srv_users v = srv_users ?t \<and> srv_rooms v = srv_rooms ?t"
  have close: "wp (CloseRouterOnWorker (rm_router (leave ?k room))) (\<lambda>_. ?Q) (\<lambda>_. False) (\<lambda>_. False) ?t"
    by (rule wp_CloseRouterOnWorker[OF oks]) (auto dest!: outer_srvD)
  have room_t: "map_of (srv_rooms ?t) ?rid = Some (leave ?k room)" by simp
  have "wp (unregister_rest ?rid (closed_peer usr)) (\<lambda>_ v. ws_users v = ws_users ?t \<and> srv_users v = srv_users ?t \<and>
      srv_rooms v = AList.delete ?rid (srv_rooms ?t)) (\<lambda>_. False) (\<lambda>_. False) ?s"
    unfolding unregister_rest_def
    by (simp only: wp_bnd, simp only: wp_def[of "range_users _ _"] loop outcome.case)
      (use close room_t last id in \<open>auto simp: GetUserNums_def Close_def DeleteRoom_def elim!: wp_mono\<close>)
  then obtain v where v: "Run_Unregister u s = Ret () v" "ws_users v = ws_users ?t" "srv_users v = srv_users ?t"
      "srv_rooms v = AList.delete ?rid (srv_rooms ?t)"
    unfolding Run_Unregister_eq[OF s u room] by (auto simp: wp_total)
  moreover have "map_of (srv_rooms v) = (map_of (srv_rooms s))(?rid := None)"
    by (simp add: v(4) without_member_def unregistered_def delete_conv' fun_eq_iff)
  ultimately show ?thesis by (auto simp: without_member_def unregistered_def fun_eq_iff)
qed

text \<open>
  C10. Leaving a room that stays inhabited, handlers running one after another: with all writers running, unregistering a
  member takes it out of the room and closes its channel; every remaining member receives exactly one \<^verbatim>\<open>peerClosed\<close>
  notification with the peer id of the member that left, and no other user receives anything.
\<close>

theorem leave_notifies_members:
  assumes "reach sig_init sig_step s" and "all_writing s" and "u \<in> set (ws_users s)"
    and "map_of (srv_users s) u = Some usr" and "map_of (srv_rooms s) (us_roomId usr) = Some room"
    and "rm_users (leave (us_userId usr) room) \<noteq> []"
  shows "\<exists>t. Run_Unregister u s = Ret () t \<and> ws_users t = removeAll u (ws_users s) \<and>
    map_of (srv_rooms t) (us_roomId usr) = Some (leave (us_userId usr) room) \<and>
    map_of (srv_users t) u = Some (usr\<lparr>us_closed := True\<rparr>) \<and>
    (\<forall>v. v \<noteq> u \<longrightarrow> map_of (srv_users t) v =
       map_option (deliver (other_members (us_userId usr) room) (peer_closed_msg usr) v) (map_of (srv_users s) v))"
  by (rule leave_exact[OF sig.reach_invar[OF assms(1)] assms(3-5) all_writing_writes[OF sig.reach_invar[OF assms(1)] assms(2,5)] assms(6)])

text \<open>
  C11. The last member takes the room with it: when nobody else is in the room and the workers answer router requests with
  router replies (or not at all), unregistering the member returns, whatever else happens on the worker streams. The room
  is gone from the room manager, the member is unregistered and its channel closed; every other room and user is as before.
\<close>

theorem last_leave_deletes_room:
  assumes "reach sig_init sig_step s" and "u \<in> set (ws_users s)"
    and "map_of (srv_users s) u = Some usr" and "map_of (srv_rooms s) (us_roomId usr) = Some room"
    and "rm_users (leave (us_userId usr) room) = []" and "router_replies s"
  shows "\<exists>t. Run_Unregister u s = Ret () t \<and> ws_users t = removeAll u (ws_users s) \<and>
    map_of (srv_rooms t) = (map_of (srv_rooms s))(us_roomId usr := None) \<and>
    map_of (srv_users t) = (map_of (srv_users s))(u \<mapsto> usr\<lparr>us_closed := True\<rparr>)"
  by (rule last_leave_exact[OF sig.reach_invar[OF assms(1)] assms(2-6)])

lemma unregister_blocks:
  assumes s: "srv_ok s" and u: "u \<in> set (ws_users s)" "map_of (srv_users s) u = Some usr"
    and room: "map_of (srv_rooms s) (us_roomId usr) = Some room"
    and k: "map_of (rm_users room) k = Some v" "v \<noteq> u" "k \<noteq> us_userId usr"
    and v: "map_of (srv_users s) v = Some broken" "\<not> us_writer broken"
  shows "\<exists>t. Run_Unregister u s = Stuck t"
proof -
  let ?s = "without_member (us_roomId usr) (us_userId usr) room (unregistered u usr s)"
  have ok: "srv_ok ?s" by (rule without_member_ok[OF s u room])
  have k': "map_of (rm_users (leave (us_userId usr) room)) k \<noteq> None" "\<not> writes ?s (leave (us_userId usr) room) k"
    using k v by (auto simp: leave_def writes_def without_member_def unregistered_def)
  obtain t where "range_users (us_roomId usr) (\<lambda>k v. NotifyPeerClosed v (closed_peer usr)) ?s = Stuck t"
    using range_users_blocks[where P = "\<lambda>_. True", OF ok left_room closed_body TrueI k'] by blast
  then show ?thesis
    unfolding Run_Unregister_eq[OF s u room] by (simp add: unregister_rest_def bnd_def)
qed

text \<open>
  C14. A member \<open>v\<close> of a room whose writer has ended on a write error, handlers running one after another. Its connection is
  closed, so its own reader will fail next. If its disconnection comes first it does no harm: when the other members' writers
  run (and the worker answers router requests with router replies), unregistering \<open>v\<close> returns and \<open>v\<close> is in no room. But
  if any other member of the room disconnects before, \<^verbatim>\<open>Run\<close> blocks on the unbuffered channel of \<open>v\<close>, and with it every
  later registration and unregistration.
\<close>

theorem dead_writer_blocks_unregister:
  assumes "reach sig_init sig_step s" and "map_of (srv_users s) v = Some broken" and "\<not> us_writer broken"
    and "map_of (srv_rooms s) (us_roomId broken) = Some room" and "map_of (rm_users room) (us_userId broken) = Some v"
  shows "\<not> us_conn broken \<and>
    (\<forall>u usr. u \<in> set (ws_users s) \<longrightarrow> map_of (srv_users s) u = Some usr \<longrightarrow> us_roomId usr = us_roomId broken \<longrightarrow>
      us_userId usr \<noteq> us_userId broken \<longrightarrow> (\<exists>t. Run_Unregister u s = Stuck t)) \<and>
    ((\<forall>k. k \<noteq> us_userId broken \<longrightarrow> writes s room k) \<longrightarrow> router_replies s \<longrightarrow>
      (\<exists>t. Run_Unregister v s = Ret () t \<and> ws_users t = removeAll v (ws_users s) \<and>
        (\<forall>rid r k. map_of (srv_rooms t) rid = Some r \<longrightarrow> map_of (rm_users r) k \<noteq> Some v)))"
proof (intro conjI allI impI)
  note s = sig.reach_invar[OF assms(1)]
  show "\<not> us_conn broken" using srv_okD(6)[OF s assms(2)] assms(3) by blast
  show "\<exists>t. Run_Unregister u s = Stuck t" if "u \<in> set (ws_users s)" "map_of (srv_users s) u = Some usr"
    "us_roomId usr = us_roomId broken" "us_userId usr \<noteq> us_userId broken" for u usr
    by (rule unregister_blocks[OF s that(1,2) _ assms(5) _ _ assms(2,3)]) (use that assms(2,4) in auto)
  assume w: "\<forall>k. k \<noteq> us_userId broken \<longrightarrow> writes s room k" and replies: "router_replies s"
  have v: "v \<in> set (ws_users s)" using room_member[OF s assms(4,5)] by blast
  obtain t where t: "Run_Unregister v s = Ret () t"
    using leave_exact[OF s v assms(2,4)] last_leave_exact[OF s v assms(2,4) _ replies] w by blast
  have ok: "srv_ok t" "ws_users t = removeAll v (ws_users s)" using wpD_Ret[OF wp_Run_Unregister[OF s] t] by simp_all
  have "map_of (rm_users r) k \<noteq> Some v" if "map_of (srv_rooms t) rid = Some r" for rid r k
    using room_member[OF ok(1) that] ok(2) by auto
  with t ok(2) show "\<exists>t. Run_Unregister v s = Ret () t \<and> ws_users t = removeAll v (ws_users s) \<and>
        (\<forall>rid r k. map_of (srv_rooms t) rid = Some r \<longrightarrow> map_of (rm_users r) k \<noteq> Some v)" by blast
qed

text \<open>
  C12. Joining, handlers running one after another: with all writers running, a join of a registered user in an existing room records the
  name and device the user sent, tells every other member exactly once about the new peer with these data,
  and answers the user with the list of exactly the other members; nobody else receives anything.
\<close>

theorem join_tells_everyone:
  assumes "reach sig_init sig_step s" and "all_writing s" and "u \<in> set (ws_users s)"
    and "map_of (srv_users s) u = Some usr" and "map_of (srv_rooms s) (us_roomId usr) = Some room"
  shows "\<exists>ks t. handleJoin u req s = Ret () t \<and> distinct ks \<and> set ks = set (keys (rm_users room)) - {us_userId usr} \<and>
    srv_rooms t = srv_rooms s \<and>
    map_of (srv_users t) u = Some ((joined req usr)\<lparr>us_out := us_out usr @
      [(response_to req True)\<lparr>msg_Data := JoinResD \<lparr>jr_Peers = map (member_peer s room) ks\<rparr>\<rparr>]\<rparr>) \<and>
    (\<forall>v. v \<noteq> u \<longrightarrow> map_of (srv_users t) v =
      map_option (deliver (other_members (us_userId usr) room) (new_peer_msg (joined req usr)) v) (map_of (srv_users s) v))"
  by (rule handleJoin_eq[OF sig.reach_invar[OF assms(1)] assms(2-5)])

end
