(* ===== verification/Publishing.thy ===== *)
theory Publishing
  imports Membership
begin

section \<open>What publishing a stream tells the room (room.go, user.go)\<close>

text \<open>
  The exact effect of \<^verbatim>\<open>handleProduce\<close> on the other members of the room. \<open>beside X s t\<close> is the frame of the statements on
  the way: between the two states only users of \<open>X\<close> changed, and no room gained or lost a member. \<open>touches X Q m\<close> says
  that \<open>m\<close> keeps this frame and returns values in \<open>Q\<close>; its rules follow the syntax of the statements.
\<close>

definition members :: "'z srv_state_scheme \<Rightarrow> string \<Rightarrow> (string, nat) gomap option" where
  "members s rid = map_option rm_users (map_of (srv_rooms s) rid)"

abbreviation identity :: "User \<Rightarrow> string \<times> string \<times> string" where
  "identity usr \<equiv> (us_userId usr, us_PeerId usr, us_roomId usr)"

definition beside :: "nat set \<Rightarrow> 'z srv_state_scheme \<Rightarrow> 'z srv_state_scheme \<Rightarrow> bool" where
  "beside X s t \<longleftrightarrow> streams_ok t \<and> order_ok t \<and> members t = members s \<and>
     (\<forall>a. a \<notin> X \<longrightarrow> map_of (srv_users t) a = map_of (srv_users s) a) \<and>
     (\<forall>a. map_option identity (map_of (srv_users t) a) = map_option identity (map_of (srv_users s) a))"

definition touches :: "nat set \<Rightarrow> ('a \<Rightarrow> bool) \<Rightarrow> ('a, 'z srv_state_scheme) go \<Rightarrow> bool" where
  "touches X Q m \<longleftrightarrow> (\<forall>s. streams_ok s \<longrightarrow> order_ok s \<longrightarrow> wp m (\<lambda>x t. beside X s t \<and> Q x) (\<lambda>_. True) (\<lambda>_. True) s)"

named_theorems touches_intros \<open>the rules of \<open>touches\<close>, one per form of statement\<close>

lemma besideD:
  assumes "beside X s t"
  shows "streams_ok t" "order_ok t" "members t = members s" "a \<notin> X \<Longrightarrow> map_of (srv_users t) a = map_of (srv_users s) a"
    "map_option identity (map_of (srv_users t) a) = map_option identity (map_of (srv_users s) a)"
  using assms by (simp_all add: beside_def)

lemma beside_refl: "streams_ok s \<Longrightarrow> order_ok s \<Longrightarrow> beside X s s"
  by (simp add: beside_def)

lemma beside_trans: "beside X s t \<Longrightarrow> beside Y t v \<Longrightarrow> beside (X \<union> Y) s v"
  by (auto simp: beside_def)

lemma beside_same_trans: "beside X s t \<Longrightarrow> beside X t v \<Longrightarrow> beside X s v"
  using beside_trans[of X s t X v] by simp

lemma beside_mono: "beside X s t \<Longrightarrow> X \<subseteq> Y \<Longrightarrow> beside Y s t"
  by (auto simp: beside_def)

lemma beside_identity:
  assumes "beside X s t" and "map_of (srv_users s) a = Some usr"
  obtains usr' where "map_of (srv_users t) a = Some usr'" "us_userId usr' = us_userId usr" "us_PeerId usr' = us_PeerId usr"
    "us_roomId usr' = us_roomId usr"
  using besideD(5)[OF assms(1), of a] assms(2) by auto

lemma touchesI:
  "(\<And>s. streams_ok s \<Longrightarrow> order_ok s \<Longrightarrow> wp m (\<lambda>x t. beside X s t \<and> Q x) (\<lambda>_. True) (\<lambda>_. True) s) \<Longrightarrow> touches X Q m"
  by (simp add: touches_def)

lemma touchesD:
  "touches X Q m \<Longrightarrow> streams_ok s \<Longrightarrow> order_ok s \<Longrightarrow> wp m (\<lambda>x t. beside X s t \<and> Q x) (\<lambda>_. True) (\<lambda>_. True) s"
  by (simp add: touches_def)

lemma touches_bind:
  assumes m: "touches X P m" and f: "\<And>x. P x \<Longrightarrow> touches X Q (f x)"
  shows "touches X Q (bnd m f)"
proof (rule touchesI, unfold wp_bnd, goal_cases)
  case (1 s)
  show ?case
  proof (rule wp_mono[OF touchesD[OF m 1]])
    fix x t assume t: "beside X s t \<and> P x"
    show "wp (f x) (\<lambda>x t. beside X s t \<and> Q x) (\<lambda>_. True) (\<lambda>_. True) t"
      by (rule wp_mono[OF touchesD[OF f]]) (use t besideD(1,2)[of X s t] in \<open>auto intro: beside_same_trans\<close>)
  qed auto
qed

lemmas touches_bnd [touches_intros] = touches_bind[where P = "\<lambda>_. True", simplified]

lemma touches_ret [touches_intros]: "Q x \<Longrightarrow> touches X Q (ret x)"
  by (simp add: touches_def beside_refl)

lemma touches_panic [touches_intros]: "touches X Q (panic e)"
  by (simp add: touches_def)

lemma touches_if [touches_intros]: "(b \<Longrightarrow> touches X Q m) \<Longrightarrow> (\<not> b \<Longrightarrow> touches X Q n) \<Longrightarrow> touches X Q (if b then m else n)"
  by simp

lemma touches_option [touches_intros]:
  "(x = None \<Longrightarrow> touches X Q m) \<Longrightarrow> (\<And>y. x = Some y \<Longrightarrow> touches X Q (n y)) \<Longrightarrow> touches X Q (case x of None \<Rightarrow> m | Some y \<Rightarrow> n y)"
  by (simp split: option.split)

lemma touches_sum [touches_intros]:
  "(\<And>e. x = Inl e \<Longrightarrow> touches X Q (m e)) \<Longrightarrow> (\<And>y. x = Inr y \<Longrightarrow> touches X Q (n y)) \<Longrightarrow>
   touches X Q (case x of Inl e \<Rightarrow> m e | Inr y \<Rightarrow> n y)"
  by (simp split: sum.split)

lemma touches_prod [touches_intros]:
  "(\<And>a b. x = (a, b) \<Longrightarrow> touches X Q (m a b)) \<Longrightarrow> touches X Q (case x of (a, b) \<Rightarrow> m a b)"
  by (simp split: prod.split)

lemma touches_for_each [touches_intros]: "(\<And>x. touches X (\<lambda>_. True) (f x)) \<Longrightarrow> touches X (\<lambda>_. True) (for_each f xs)"
  by (induction xs) (auto intro: touches_intros)

lemma touches_env_only:
  assumes "env_only m"
  shows "touches X (\<lambda>_. True) m"
proof (rule touchesI, goal_cases)
  case (1 s)
  show ?case
    by (rule wp_mono[OF assms[unfolded env_only_def, rule_format, OF 1]]) (auto simp: beside_def members_def)
qed

lemmas touches_env [touches_intros] = env_intros[THEN touches_env_only]

lemma touches_upd_room [touches_intros]:
  assumes "\<And>room. rm_users (f room) = rm_users room"
  shows "touches X (\<lambda>_. True) (upd_room rid f)"
  by (rule touchesI) (auto simp: wp_def upd_room_def beside_def members_def assms streams_ok_def order_ok_def fun_eq_iff split: option.split)

lemma touches_upd_user [touches_intros]:
  assumes "u \<in> X" and "\<And>usr. identity (f usr) = identity usr"
  shows "touches X (\<lambda>_. True) (upd_user u f)"
  by (rule touchesI) (use assms in \<open>auto simp: wp_def upd_user_def beside_def members_def streams_ok_def order_ok_def split: option.split\<close>)

lemma touches_send [touches_intros]: "u \<in> X \<Longrightarrow> touches X (\<lambda>_. True) (send_msg u m)"
  by (rule touchesI) (auto simp: wp_def send_msg_def beside_def members_def streams_ok_def order_ok_def split: option.split)

lemma touches_range_users [touches_intros]:
  "(\<And>k v. touches X (\<lambda>_. True) (body k v)) \<Longrightarrow> touches X (\<lambda>_. True) (range_users rid body)"
  unfolding range_users_def by (intro touches_intros; simp)

subsection \<open>The parts of publishing\<close>

lemma touches_RequestNewConsumer [touches_intros]: "u \<in> X \<Longrightarrow> touches X (\<lambda>_. True) (RequestNewConsumer u d)"
  unfolding RequestNewConsumer_def send_request_def by (intro touches_intros; simp)

lemma touches_room_addConsumer [touches_intros]: "touches X (\<lambda>_. True) (room_addConsumer rid k c)"
  unfolding room_addConsumer_def by (intro touches_intros; simp)


lemma touches_CreateNewConsumerData_any [touches_intros]: "touches X (\<lambda>_. True) (CreateNewConsumerData rid c p peerId userId)"
  unfolding CreateNewConsumerData_def Let_def by (intro touches_intros; simp)





subsection \<open>The announcement to the other members\<close>











subsection \<open>A request to produce\<close>




end
