(* ===== verification/Rpc.thy ===== *)
theory Rpc
  imports Rtc_Server
begin

section \<open>Concurrent requests and replies (grpcServer.go)\<close>

text \<open>
  Every WebSocket goroutine may be inside \<^verbatim>\<open>sendRequest\<close> at the same time, and every worker stream has
  a goroutine inside \<^verbatim>\<open>Sync\<close>. The theory interleaves them. \<^verbatim>\<open>sendRequest\<close> gives way between the atomic increment, the locked
  insertion, the \<^verbatim>\<open>Send\<close>, the locked removal after a failed \<^verbatim>\<open>Send\<close>, and the end by reply or timer; a turn of a \<^verbatim>\<open>Sync\<close> loop is
  one step. The steps are the operations of \<^theory_text>\<open>Rtc_Server\<close>. Beside the server's state stand the calls: those that only have their
  number (\<open>numbered\<close>), those with a channel in the table and not yet ended (\<open>calls\<close>), among them those whose \<^verbatim>\<open>Send\<close> has not
  returned (\<open>sending\<close>, where a \<^verbatim>\<open>Send\<close> that never returns stays for ever) or has failed (\<open>refused\<close>), and the results of ended calls.
\<close>

record call =
  call_wsp :: nat
  call_seq :: u64
  call_ch :: nat

record rpc_state = rtc_state +
  numbered :: "(nat \<times> u64) list"
  calls :: "call list"
  sending :: "call list"
  refused :: "(call \<times> string) list"
  results :: "(call \<times> (string + WorkerToServer)) list"

definition finish :: "call \<Rightarrow> string + WorkerToServer \<Rightarrow> rpc_state \<Rightarrow> rpc_state" where
  "finish c r s = s\<lparr>calls := remove1 c (calls s), results := results s @ [(c, r)]\<rparr>"

definition waiting :: "rpc_state \<Rightarrow> call \<Rightarrow> bool" where
  "waiting s c \<longleftrightarrow> c \<in> set (calls s) \<and> c \<notin> set (sending s) \<and> c \<notin> fst ` set (refused s)"

text \<open>
  A request may use a stream it looked up before: the step only asks that the stream object exists.
  The sequence number is taken not to have wrapped, which needs \<open>2 ^ 64\<close> requests.
\<close>

inductive rpc_step :: "rpc_state \<Rightarrow> rpc_state \<Rightarrow> bool" where
  accept: "map_of (rtc_sessions s) sid = None \<Longrightarrow> Sync_start sid s = Ret () t \<Longrightarrow> rpc_step s t"
| recv: "Sync sid ev s = Ret () t \<Longrightarrow> rpc_step s t"
| number: "map_of (rtc_streams s) wsp \<noteq> None \<Longrightarrow> rtc_nextID s \<noteq> - 1 \<Longrightarrow> sendRequest_number s = Ret q t \<Longrightarrow>
    rpc_step s (t\<lparr>numbered := (wsp, q) # numbered t\<rparr>)"
| register: "(wsp, q) \<in> set (numbered s) \<Longrightarrow> sendRequest_register wsp q s = Ret ch t \<Longrightarrow> c = \<lparr>call_wsp = wsp, call_seq = q, call_ch = ch\<rparr> \<Longrightarrow>
    rpc_step s (t\<lparr>numbered := remove1 (wsp, q) (numbered t), calls := calls t @ [c], sending := c # sending t\<rparr>)"
| sent: "c \<in> set (sending s) \<Longrightarrow> sendRequest_send (call_wsp c) (call_seq c) payload s = Ret (Sent evs) t \<Longrightarrow>
    rpc_step s (t\<lparr>sending := remove1 c (sending t)\<rparr>)"
| send_fails: "c \<in> set (sending s) \<Longrightarrow> sendRequest_send (call_wsp c) (call_seq c) payload s = Ret (SendFails err) t \<Longrightarrow>
    rpc_step s (t\<lparr>sending := remove1 c (sending t), refused := (c, err) # refused t\<rparr>)"
| withdraw: "(c, err) \<in> set (refused s) \<Longrightarrow> set_pending (call_wsp c) (AList.delete (call_seq c)) s = Ret () t \<Longrightarrow>
    rpc_step s (finish c (Inl err) (t\<lparr>refused := remove1 (c, err) (refused t)\<rparr>))"
| reply: "waiting s c \<Longrightarrow> sendRequest_take (call_ch c) s = Ret (Some m) t \<Longrightarrow> rpc_step s (finish c (Inr m) t)"
| timeout: "waiting s c \<Longrightarrow> sendRequest_timeout (call_wsp c) (call_seq c) s = Ret () t \<Longrightarrow>
    rpc_step s (finish c (Inl ''request timeout'') t)"

inductive_cases rpc_stepE: "rpc_step s t"

definition rpc_init :: "rpc_state \<Rightarrow> bool" where
  "rpc_init s \<longleftrightarrow> rtc_workers s = [] \<and> rtc_streams s = [] \<and> rtc_chans s = [] \<and> rtc_sessions s = [] \<and>
     numbered s = [] \<and> calls s = [] \<and> sending s = [] \<and> refused s = [] \<and> results s = []"

definition is_pending :: "'z rtc_state_scheme \<Rightarrow> call \<Rightarrow> bool" where
  "is_pending s c \<longleftrightarrow> (\<exists>ws. map_of (rtc_streams s) (call_wsp c) = Some ws \<and>
     map_of (st_pending ws) (call_seq c) = Some (call_ch c))"

text \<open>
  The invariant: a pending entry belongs to a call in flight; calls in flight have numbers already
  given out, and no two share a number or a channel; a call in flight either waits in its stream's
  table with an empty channel or finds in its channel one reply that carries its number.
\<close>

definition call_ok :: "rpc_state \<Rightarrow> call \<Rightarrow> bool" where
  "call_ok s c \<longleftrightarrow> map_of (rtc_streams s) (call_wsp c) \<noteq> None \<and> call_seq c \<le> rtc_nextID s \<and>
     (is_pending s c \<or>
      (\<exists>m. map_of (rtc_chans s) (call_ch c) = Some [m] \<and> is_reply m \<and> w2s_SeqId m = call_seq c))"

definition rpc_ok :: "rpc_state \<Rightarrow> bool" where
  "rpc_ok s \<longleftrightarrow> streams_ok s \<and> (\<forall>c. is_pending s c \<longrightarrow> c \<in> set (calls s)) \<and>
     distinct (map call_seq (calls s)) \<and> distinct (map call_ch (calls s)) \<and>
     (\<forall>c \<in> set (calls s). call_ok s c) \<and>
     (\<forall>c m. (c, Inr m) \<in> set (results s) \<longrightarrow> is_reply m \<and> w2s_SeqId m = call_seq c)"

text \<open>
  The calls before their wait: a number taken is not in use and not given twice, and the calls whose \<^verbatim>\<open>Send\<close> is
  under way or has failed are calls in flight, each in one of the two lists and once.
\<close>

definition pools_ok :: "rpc_state \<Rightarrow> bool" where
  "pools_ok s \<longleftrightarrow> distinct (map snd (numbered s)) \<and> distinct (sending s @ map fst (refused s)) \<and>
     set (sending s @ map fst (refused s)) \<subseteq> set (calls s) \<and>
     (\<forall>(a, q) \<in> set (numbered s). map_of (rtc_streams s) a \<noteq> None \<and> q \<le> rtc_nextID s \<and> q \<notin> call_seq ` set (calls s))"

definition rpc_inv :: "rpc_state \<Rightarrow> bool" where
  "rpc_inv s \<longleftrightarrow> rpc_ok s \<and> pools_ok s"

lemma rpc_invD: "rpc_inv s \<Longrightarrow> rpc_ok s" "rpc_inv s \<Longrightarrow> pools_ok s"
  by (simp_all add: rpc_inv_def)

lemma rpc_okD:
  assumes "rpc_ok s"
  shows "streams_ok s" and "is_pending s c \<Longrightarrow> c \<in> set (calls s)" and "distinct (map call_seq (calls s))"
    and "distinct (map call_ch (calls s))" and "c \<in> set (calls s) \<Longrightarrow> call_ok s c"
    and "(c, Inr m) \<in> set (results s) \<Longrightarrow> is_reply m \<and> w2s_SeqId m = call_seq c"
  using assms by (auto simp: rpc_ok_def)

subsection \<open>Every step keeps the invariant\<close>

lemma rpc_frame [simp]:
  "is_pending (s\<lparr>calls := l\<rparr>) = is_pending s" "is_pending (s\<lparr>results := r\<rparr>) = is_pending s"
  "is_pending (s\<lparr>rtc_sessions := e\<rparr>) = is_pending s"
  "call_ok (s\<lparr>calls := l\<rparr>) = call_ok s" "call_ok (s\<lparr>results := r\<rparr>) = call_ok s"
  "call_ok (s\<lparr>rtc_sessions := e\<rparr>) = call_ok s"
  "streams_ok (s\<lparr>calls := l\<rparr>) = streams_ok s" "streams_ok (s\<lparr>results := r\<rparr>) = streams_ok s"
  by (simp_all add: is_pending_def call_ok_def streams_ok_def fun_eq_iff)

lemma rpc_ok_pools [simp]:
  "rpc_ok (s\<lparr>numbered := n\<rparr>) = rpc_ok s" "rpc_ok (s\<lparr>sending := c\<rparr>) = rpc_ok s" "rpc_ok (s\<lparr>refused := r\<rparr>) = rpc_ok s"
  by (simp_all add: rpc_ok_def is_pending_def call_ok_def streams_ok_def)

lemma distinct_map_remove1: "distinct (map f xs) \<Longrightarrow> distinct (map f (remove1 c xs))"
  by (metis distinct_map distinct_remove1 inj_on_subset set_remove1_subset)

lemma remove1_key: "distinct (map f xs) \<Longrightarrow> x \<in> set xs \<Longrightarrow> y \<in> set (remove1 x xs) \<Longrightarrow> f y \<noteq> f x"
  by (auto simp: distinct_map set_remove1_eq dest: inj_onD)

lemma is_pending_sub: "pending_sub s t \<Longrightarrow> is_pending t c \<Longrightarrow> is_pending s c"
  unfolding pending_sub_def is_pending_def by metis

lemma is_pending_channel: "streams_ok s \<Longrightarrow> is_pending s c \<Longrightarrow> map_of (rtc_chans s) (call_ch c) = Some []"
  unfolding is_pending_def by (auto dest: streams_ok_pendingD)

lemma call_ok_channel: "streams_ok s \<Longrightarrow> call_ok s c \<Longrightarrow> map_of (rtc_chans s) (call_ch c) \<noteq> None"
  unfolding call_ok_def using is_pending_channel by fastforce

lemma call_ok_frame:
  assumes "rtc_streams t = rtc_streams s" and "rtc_nextID t = rtc_nextID s"
    and "map_of (rtc_chans t) (call_ch c) = map_of (rtc_chans s) (call_ch c)"
  shows "call_ok t c = call_ok s c"
  using assms by (simp add: call_ok_def is_pending_def)

lemma outer_fields:
  assumes "rtc_outer t = rtc_outer (s :: rpc_state)"
  shows "calls t = calls s" and "results t = results s" and "numbered t = numbered s" and "sending t = sending s"
    and "refused t = refused s"
  using assms by (cases s; cases t; simp add: rtc_outer_def)+

lemma sync_rel_call_ok:
  assumes ok: "streams_ok s" and rel: "sync_rel ev s t" and c: "call_ok s c"
  shows "call_ok t c"
proof -
  have t: "rtc_nextID t = rtc_nextID s" "pending_kept s t" "chans_rel ev s t"
    and st: "map_of (rtc_streams t) (call_wsp c) \<noteq> None"
    using rel c by (auto simp: sync_rel_def call_ok_def)
  have filled: "map_of (rtc_chans t) (call_ch c) = map_of (rtc_chans s) (call_ch c) \<or>
      (\<exists>m. is_reply m \<and> map_of (rtc_chans t) (call_ch c) = Some [m] \<and> map_of (rtc_chans s) (call_ch c) = Some [] \<and>
        (is_pending s c \<longrightarrow> w2s_SeqId m = call_seq c))"
  proof -
    from t(3) have "map_of (rtc_chans t) (call_ch c) = map_of (rtc_chans s) (call_ch c) \<or>
        (\<exists>m a w. is_reply m \<and> map_of (rtc_streams s) a = Some w \<and>
          map_of (st_pending w) (w2s_SeqId m) = Some (call_ch c) \<and> map_of (rtc_chans t) (call_ch c) = Some [m])"
      unfolding chans_rel_def by (elim allE[of _ "call_ch c"]) auto
    then show ?thesis
    proof (elim disjE exE conjE)
      fix m a w
      assume m: "is_reply m" "map_of (rtc_chans t) (call_ch c) = Some [m]" and w: "map_of (rtc_streams s) a = Some w"
        "map_of (st_pending w) (w2s_SeqId m) = Some (call_ch c)"
      have "is_pending s c \<longrightarrow> w2s_SeqId m = call_seq c"
        using streams_ok_channelD[OF ok w] unfolding is_pending_def by metis
      with m streams_ok_pendingD[OF ok w] show ?thesis by blast
    qed simp
  qed
  show ?thesis
  proof (cases "is_pending s c")
    case True
    then have "is_pending t c \<or> (\<exists>m. map_of (rtc_chans t) (call_ch c) = Some [m])"
      using t(2) unfolding is_pending_def pending_kept_def by metis
    with True filled is_pending_channel[OF ok True] c st t(1) show ?thesis
      unfolding call_ok_def by auto
  next
    case False
    with filled c st t(1) show ?thesis unfolding call_ok_def by auto
  qed
qed

lemma sync_rel_rpc_ok:
  assumes ok: "rpc_ok s" and rel: "sync_rel ev s t" and "calls t = calls s" and "results t = results s"
  shows "rpc_ok t"
proof -
  have "is_pending s c" if "is_pending t c" for c
    using rel that is_pending_sub unfolding sync_rel_def by blast
  moreover have "streams_ok t" using rel by (simp add: sync_rel_def)
  ultimately show ?thesis
    using assms sync_rel_call_ok[OF rpc_okD(1)[OF ok] rel] unfolding rpc_ok_def by auto
qed

lemma finish_rpc_ok:
  assumes ok: "rpc_ok s" and c: "c \<in> set (calls s)" and "streams_ok t" and sub: "pending_sub s t"
    and gone: "\<not> is_pending t c" and same: "calls t = calls s" "results t = results s"
    and others: "\<And>d. d \<in> set (calls s) \<Longrightarrow> d \<noteq> c \<Longrightarrow> call_ok t d"
    and r: "\<And>m. r = Inr m \<Longrightarrow> is_reply m \<and> w2s_SeqId m = call_seq c"
  shows "rpc_ok (finish c r t)"
proof -
  have frame: "is_pending (finish c r t) d = is_pending t d" "call_ok (finish c r t) d = call_ok t d" for d
    by (simp_all add: finish_def is_pending_def call_ok_def)
  have set: "set (remove1 c (calls s)) = set (calls s) - {c}"
    using rpc_okD(3)[OF ok] by (simp add: set_remove1_eq distinct_map)
  have "d \<in> set (remove1 c (calls s))" if "is_pending t d" for d
    using that gone is_pending_sub[OF sub that] rpc_okD(2)[OF ok, of d] set by auto
  moreover have "streams_ok (finish c r t)" using assms(3) by (simp add: finish_def streams_ok_def)
  moreover have "calls (finish c r t) = remove1 c (calls s)" "results (finish c r t) = results s @ [(c, r)]"
    using same by (simp_all add: finish_def)
  ultimately show ?thesis
    using ok others r set unfolding rpc_ok_def by (auto simp: frame distinct_map_remove1)
qed

lemma less_add_one: "x \<noteq> - 1 \<Longrightarrow> x < x + (1 :: u64)"
proof -
  assume "x \<noteq> - 1"
  then have "x + 1 \<noteq> 0" by (simp add: eq_neg_iff_add_eq_0)
  then have "unat (x + 1) = Suc (unat x)" by (simp add: unatSuc add.commute)
  then show "x < x + 1" by (simp add: word_less_nat_alt)
qed

subsection \<open>A request up to its wait\<close>

lemma sendRequest_number_eq: "sendRequest_number s = Ret (rtc_nextID s + 1) (s\<lparr>rtc_nextID := rtc_nextID s + 1\<rparr>)"
  by (simp add: sendRequest_number_def go_eval)

lemma sendRequest_register_eq:
  "map_of (rtc_streams s) wsp = Some ws \<Longrightarrow> sendRequest_register wsp q s = Ret (fresh (rtc_chans s))
     (s\<lparr>rtc_chans := AList.update (fresh (rtc_chans s)) [] (rtc_chans s), rtc_streams :=
        AList.update wsp (ws\<lparr>st_pending := AList.update q (fresh (rtc_chans s)) (st_pending ws)\<rparr>) (rtc_streams s)\<rparr>)"
  by (simp add: sendRequest_register_def go_eval set_pending_def)

lemma sendRequest_send_Ret:
  assumes "sendRequest_send wsp q payload s = Ret e t"
  obtains log w where "t = s\<lparr>rtc_sent := log, wire := w\<rparr>"
  using assms by (auto simp: sendRequest_send_def go_eval stream_Send_eq split: option.splits)

text \<open>A new number is above all numbers in use.\<close>

lemma number_rpc_inv:
  assumes inv: "rpc_inv s" and "map_of (rtc_streams s) wsp \<noteq> None" and top: "rtc_nextID s \<noteq> - 1"
  shows "rpc_inv (s\<lparr>rtc_nextID := rtc_nextID s + 1, numbered := (wsp, rtc_nextID s + 1) # numbered s\<rparr>)" (is "rpc_inv ?t")
proof -
  note ok = rpc_invD(1)[OF inv] and pools = rpc_invD(2)[OF inv]
  have less: "rtc_nextID s < rtc_nextID s + 1" using top by (rule less_add_one)
  have seq: "call_seq c \<le> rtc_nextID s" if "c \<in> set (calls s)" for c using rpc_okD(5)[OF ok that] by (simp add: call_ok_def)
  have "call_ok ?t c" if "c \<in> set (calls s)" for c
    using rpc_okD(5)[OF ok that] less by (auto simp: call_ok_def is_pending_def)
  moreover have "streams_ok ?t" using rpc_okD(1)[OF ok] by (simp add: streams_ok_def)
  ultimately have "rpc_ok ?t" using ok by (simp add: rpc_ok_def is_pending_def)
  moreover have "rtc_nextID s + 1 \<notin> call_seq ` set (calls s)" using seq less by (auto simp: not_le[symmetric])
  moreover have "rtc_nextID s + 1 \<notin> snd ` set (numbered s)" using pools less by (auto simp: pools_ok_def not_le[symmetric])
  ultimately show ?thesis using pools assms(2) less unfolding rpc_inv_def pools_ok_def by auto
qed

text \<open>A registered request has a number and a channel nobody else holds.\<close>

lemma registered_pools:
  assumes "rpc_ok (t\<lparr>calls := calls t @ [c]\<rparr>)" and t: "calls t = calls s" "results t = results s" "numbered t = numbered s"
      "sending t = sending s" "refused t = refused s" "rtc_nextID t = rtc_nextID s"
    and pools: "pools_ok s" and new: "c \<notin> set (calls s)"
    and n: "\<And>a q. (a, q) \<in> set (remove1 x (numbered s)) \<Longrightarrow> q \<noteq> call_seq c"
    and dom: "\<And>a. map_of (rtc_streams s) a \<noteq> None \<Longrightarrow> map_of (rtc_streams t) a \<noteq> None"
  shows "rpc_inv (t\<lparr>numbered := remove1 x (numbered t), calls := calls t @ [c], sending := c # sending t\<rparr>)"
proof -
  have sub: "set (remove1 x (numbered s)) \<subseteq> set (numbered s)" by (rule set_remove1_subset)
  have "map_of (rtc_streams t) a \<noteq> None \<and> q \<le> rtc_nextID s \<and> q \<notin> call_seq ` set (calls s @ [c])"
    if x: "(a, q) \<in> set (remove1 x (numbered s))" for a q
  proof -
    have "map_of (rtc_streams s) a \<noteq> None \<and> q \<le> rtc_nextID s \<and> q \<notin> call_seq ` set (calls s)"
      using pools x sub unfolding pools_ok_def by blast
    with n[OF x] dom[of a] show ?thesis by simp
  qed
  moreover have "distinct (map snd (remove1 x (numbered s)))" "distinct (c # sending s @ map fst (refused s))"
      "set (c # sending s @ map fst (refused s)) \<subseteq> set (calls s @ [c])"
    using pools new unfolding pools_ok_def by (auto simp: distinct_map_remove1)
  ultimately have "pools_ok (t\<lparr>numbered := remove1 x (numbered t), calls := calls t @ [c], sending := c # sending t\<rparr>)"
    unfolding pools_ok_def by (simp add: t) blast
  moreover have "t\<lparr>numbered := n, calls := cs, sending := p\<rparr> = t\<lparr>calls := cs\<rparr>\<lparr>numbered := n\<rparr>\<lparr>sending := p\<rparr>" for n cs p by simp
  ultimately show ?thesis using assms(1) by (simp only: rpc_inv_def rpc_ok_pools simp_thms)
qed

lemma register_rpc_inv:
  assumes inv: "rpc_inv s" and n: "(wsp, q) \<in> set (numbered s)" and run: "sendRequest_register wsp q s = Ret ch t"
    and c: "c = \<lparr>call_wsp = wsp, call_seq = q, call_ch = ch\<rparr>"
  shows "rpc_inv (t\<lparr>numbered := remove1 (wsp, q) (numbered t), calls := calls t @ [c], sending := c # sending t\<rparr>)"
proof -
  note ok = rpc_invD(1)[OF inv] and pools = rpc_invD(2)[OF inv]
  have num: "map_of (rtc_streams s) wsp \<noteq> None" "q \<le> rtc_nextID s" "q \<notin> call_seq ` set (calls s)"
    using pools n by (auto simp: pools_ok_def)
  then obtain ws where ws: "map_of (rtc_streams s) wsp = Some ws" by blast
  have ch: "ch = fresh (rtc_chans s)" and t: "t = s\<lparr>rtc_chans := AList.update ch [] (rtc_chans s), rtc_streams :=
      AList.update wsp (ws\<lparr>st_pending := AList.update q ch (st_pending ws)\<rparr>) (rtc_streams s)\<rparr>"
    using run by (auto simp: sendRequest_register_eq[OF ws])
  have chan: "call_ch d \<noteq> ch" if "d \<in> set (calls s)" for d
    using call_ok_channel[OF rpc_okD(1)[OF ok] rpc_okD(5)[OF ok that]] fresh_new[of "rtc_chans s"] ch by metis
  have st: "streams_ok t" unfolding t ch by (rule streams_ok_new_pending[OF rpc_okD(1)[OF ok] ws])
  have pend: "is_pending t d \<longleftrightarrow> d = c \<or> is_pending s d \<and> (call_wsp d, call_seq d) \<noteq> (wsp, q)" for d
    by (cases d) (auto simp: is_pending_def t c ws)
  have old: "call_ok t d" if "d \<in> set (calls s)" for d
  proof -
    have "call_seq d \<noteq> q" using num(3) that by auto
    then have "is_pending t d" if "is_pending s d" using that pend by simp
    moreover have "map_of (rtc_chans t) (call_ch d) = map_of (rtc_chans s) (call_ch d)" using chan[OF that] by (simp add: t)
    moreover have "map_of (rtc_streams t) (call_wsp d) \<noteq> None" "rtc_nextID t = rtc_nextID s"
      using rpc_okD(5)[OF ok that] by (auto simp: t call_ok_def)
    ultimately show ?thesis using rpc_okD(5)[OF ok that] unfolding call_ok_def by metis
  qed
  have new: "call_ok t c" using num(2) pend[of c] by (simp add: call_ok_def) (simp add: t c)
  have flight: "d = c \<or> d \<in> set (calls s)" if "is_pending t d" for d using that pend rpc_okD(2)[OF ok] by blast
  have fields: "calls t = calls s" "results t = results s" "numbered t = numbered s" "sending t = sending s" "refused t = refused s"
      "rtc_nextID t = rtc_nextID s"
    by (simp_all add: t)
  have cd: "call_seq c = q" "call_ch c = ch" by (simp_all add: c)
  have rpc: "rpc_ok (t\<lparr>calls := calls t @ [c]\<rparr>)"
  proof -
    have "\<forall>d \<in> set (calls s @ [c]). call_ok t d" using old new by auto
    moreover have "distinct (map call_seq (calls s @ [c]))" using rpc_okD(3)[OF ok] num(3) by (simp add: cd)
    moreover have "distinct (map call_ch (calls s @ [c]))" using rpc_okD(4)[OF ok] chan by (auto simp: cd)
    moreover have "d \<in> set (calls s @ [c])" if "is_pending t d" for d using flight[OF that] by auto
    ultimately show ?thesis using st rpc_okD(6)[OF ok] unfolding rpc_ok_def by (simp add: fields)
  qed
  have c_new: "c \<notin> set (calls s)" using num(3) cd by force
  have q_new: "q' \<noteq> call_seq c" if "(a, q') \<in> set (remove1 (wsp, q) (numbered s))" for a q'
    using remove1_key[of snd "numbered s" "(wsp, q)" "(a, q')"] pools n that by (simp add: pools_ok_def cd)
  have dom: "map_of (rtc_streams t) a \<noteq> None" if "map_of (rtc_streams s) a \<noteq> None" for a using that by (simp add: t)
  show ?thesis by (rule registered_pools[OF rpc fields pools c_new q_new dom])
qed

lemma take_SomeD:
  "sendRequest_take ch s = Ret (Some m) t \<Longrightarrow>
   \<exists>buf. map_of (rtc_chans s) ch = Some (m # buf) \<and> t = s\<lparr>rtc_chans := AList.update ch buf (rtc_chans s)\<rparr>"
  by (auto simp: sendRequest_take_def split: option.splits list.splits)

lemma reply_rpc_ok:
  assumes ok: "rpc_ok s" and c: "c \<in> set (calls s)" and run: "sendRequest_take (call_ch c) s = Ret (Some m) t"
  shows "rpc_ok (finish c (Inr m) t)"
proof -
  obtain buf where buf: "map_of (rtc_chans s) (call_ch c) = Some (m # buf)"
    and t: "t = s\<lparr>rtc_chans := AList.update (call_ch c) buf (rtc_chans s)\<rparr>"
    using take_SomeD[OF run] by blast
  have np: "\<not> is_pending s c" using is_pending_channel[OF rpc_okD(1)[OF ok]] buf by fastforce
  then have m: "is_reply m \<and> w2s_SeqId m = call_seq c"
    using rpc_okD(5)[OF ok c] buf by (auto simp: call_ok_def)
  have "call_ok t d" if "d \<in> set (calls s)" "d \<noteq> c" for d
  proof -
    have "call_ch d \<noteq> call_ch c" using that c rpc_okD(4)[OF ok] by (auto simp: distinct_map inj_on_def)
    with rpc_okD(5)[OF ok that(1)] show ?thesis by (simp add: t call_ok_def is_pending_def)
  qed
  moreover have "\<not> is_pending t c" using np by (simp add: t is_pending_def)
  moreover have "streams_ok t" using streams_ok_taken[OF rpc_okD(1)[OF ok] buf] by (simp add: t)
  ultimately show ?thesis
    using m by (intro finish_rpc_ok[OF ok c]) (auto simp: t pending_sub_same)
qed

lemma timeout_rpc_ok:
  assumes ok: "rpc_ok s" and c: "c \<in> set (calls s)"
    and run: "set_pending (call_wsp c) (AList.delete (call_seq c)) s = Ret () t"
  shows "rpc_ok (finish c (Inl err) t)"
proof -
  obtain ws where ws: "map_of (rtc_streams s) (call_wsp c) = Some ws"
    using rpc_okD(5)[OF ok c] by (auto simp: call_ok_def)
  have t: "t = s\<lparr>rtc_streams := AList.update (call_wsp c)
      (ws\<lparr>st_pending := AList.delete (call_seq c) (st_pending ws)\<rparr>) (rtc_streams s)\<rparr>"
    using run ws by (simp add: set_pending_def)
  have "call_ok t d" if "d \<in> set (calls s)" "d \<noteq> c" for d
  proof -
    have "call_seq d \<noteq> call_seq c" using that c rpc_okD(3)[OF ok] by (auto simp: distinct_map inj_on_def)
    with rpc_okD(5)[OF ok that(1)] ws show ?thesis by (auto simp: t call_ok_def is_pending_def)
  qed
  moreover have "\<not> is_pending t c" by (simp add: t is_pending_def)
  moreover have "streams_ok t" using streams_ok_timeout[OF rpc_okD(1)[OF ok] ws] by (simp add: t)
  moreover have "pending_sub s t" using ws by (auto simp: t pending_sub_def split: if_splits)
  ultimately show ?thesis by (intro finish_rpc_ok[OF ok c]) (auto simp: t)
qed

lemma Sync_returns: "streams_ok s \<Longrightarrow> \<exists>t. Sync sid ev s = Ret () t \<and> sync_rel ev s t"
  using Sync_spec[of s sid ev] by (simp add: wp_total)

lemma pools_finish:
  assumes "pools_ok s" and "calls t = calls s" and "numbered t = numbered s" and "sending t = sending s"
    and "rtc_nextID t = rtc_nextID s" and "\<And>a. map_of (rtc_streams s) a \<noteq> None \<Longrightarrow> map_of (rtc_streams t) a \<noteq> None"
    and "set (refused t) \<subseteq> set (refused s)" and "distinct (map fst (refused t))"
    and "c \<notin> set (sending t)" and "c \<notin> fst ` set (refused t)"
  shows "pools_ok (finish c r t)"
proof -
  have fin: "calls (finish c r t) = remove1 c (calls s)" "numbered (finish c r t) = numbered s" "sending (finish c r t) = sending s"
      "refused (finish c r t) = refused t" "rtc_nextID (finish c r t) = rtc_nextID s" "rtc_streams (finish c r t) = rtc_streams t"
    using assms by (simp_all add: finish_def)
  have "set (sending s @ map fst (refused t)) \<subseteq> set (remove1 c (calls s))"
  proof
    fix d assume "d \<in> set (sending s @ map fst (refused t))"
    then have that: "d \<in> set (sending s) \<union> fst ` set (refused t)" by simp
    have "fst ` set (refused t) \<subseteq> set (calls s)" "set (sending s) \<subseteq> set (calls s)"
      using assms(1) order_trans[OF image_mono[OF assms(7), of fst]] by (simp_all add: pools_ok_def)
    then have "d \<in> set (calls s)" using that by blast
    moreover have "d \<noteq> c" using that assms(4,9,10) by auto
    ultimately show "d \<in> set (remove1 c (calls s))" by simp
  qed
  moreover have "map_of (rtc_streams t) a \<noteq> None \<and> q \<le> rtc_nextID s \<and> q \<notin> call_seq ` set (remove1 c (calls s))"
    if "(a, q) \<in> set (numbered s)" for a q
    using assms(1) that assms(6)[of a] set_remove1_subset[of c "calls s"] unfolding pools_ok_def by blast
  moreover have "distinct (sending s @ map fst (refused t))"
    using assms(1,8) image_mono[OF assms(7), of fst] by (auto simp: pools_ok_def)
  ultimately show ?thesis
    using assms(1) unfolding pools_ok_def fin by blast
qed

lemma set_pending_Ret:
  assumes "set_pending wsp f s = Ret () t"
  obtains ws where "map_of (rtc_streams s) wsp = Some ws"
    "t = s\<lparr>rtc_streams := AList.update wsp (ws\<lparr>st_pending := f (st_pending ws)\<rparr>) (rtc_streams s)\<rparr>"
  using assms by (auto simp: set_pending_def split: option.splits)

lemma withdraw_rpc_inv:
  assumes inv: "rpc_inv s" and c: "(c, err) \<in> set (refused s)" and run: "set_pending (call_wsp c) (AList.delete (call_seq c)) s = Ret () t"
  shows "rpc_inv (finish c (Inl err) (t\<lparr>refused := remove1 (c, err) (refused t)\<rparr>))"
proof -
  note pools = rpc_invD(2)[OF inv]
  obtain ws where t: "t = s\<lparr>rtc_streams := AList.update (call_wsp c)
      (ws\<lparr>st_pending := AList.delete (call_seq c) (st_pending ws)\<rparr>) (rtc_streams s)\<rparr>"
    using set_pending_Ret[OF run] by metis
  have in_calls: "c \<in> set (calls s)" using pools c by (force simp: pools_ok_def)
  have "c \<notin> fst ` set (remove1 (c, err) (refused s))"
    using remove1_key[of fst "refused s" "(c, err)"] pools c by (auto simp: pools_ok_def)
  moreover have "c \<notin> set (sending s)" using pools c by (force simp: pools_ok_def)
  moreover have "distinct (map fst (remove1 (c, err) (refused s)))" using pools by (simp add: pools_ok_def distinct_map_remove1)
  ultimately have "pools_ok (finish c (Inl err) (t\<lparr>refused := remove1 (c, err) (refused t)\<rparr>))"
    by (intro pools_finish[OF pools]) (simp_all add: t set_remove1_subset)
  moreover have "finish c (Inl err) (t\<lparr>refused := r\<rparr>) = (finish c (Inl err) t)\<lparr>refused := r\<rparr>" for r by (simp add: finish_def)
  ultimately show ?thesis
    using timeout_rpc_ok[OF rpc_invD(1)[OF inv] in_calls run, of err] by (simp add: rpc_inv_def)
qed

lemma ended_rpc_inv:
  assumes inv: "rpc_inv s" and w: "waiting s c" and "rpc_ok (finish c r t)"
    and t: "calls t = calls s" "numbered t = numbered s" "sending t = sending s" "refused t = refused s" "rtc_nextID t = rtc_nextID s"
      "\<And>a. map_of (rtc_streams s) a \<noteq> None \<Longrightarrow> map_of (rtc_streams t) a \<noteq> None"
  shows "rpc_inv (finish c r t)"
proof -
  note pools = rpc_invD(2)[OF inv]
  have "distinct (map fst (refused t))" using pools t(4) by (simp add: pools_ok_def)
  then have "pools_ok (finish c r t)" using pools_finish[OF pools t(1-3,5,6), of c r] w t(3,4) by (simp add: waiting_def)
  with assms(3) show ?thesis by (simp add: rpc_inv_def)
qed

lemma sending_rpc_inv:
  assumes inv: "rpc_inv s" and c: "c \<in> set (sending s)" and run: "sendRequest_send wsp q payload s = Ret e t"
  shows "rpc_inv (t\<lparr>sending := remove1 c (sending t)\<rparr>)"
    and "rpc_inv (t\<lparr>sending := remove1 c (sending t), refused := (c, err) # refused t\<rparr>)"
proof -
  note pools = rpc_invD(2)[OF inv]
  obtain log w where t: "t = s\<lparr>rtc_sent := log, wire := w\<rparr>" using sendRequest_send_Ret[OF run] by metis
  have "rpc_ok t" using rpc_invD(1)[OF inv] by (simp add: t rpc_ok_def is_pending_def call_ok_def)
  moreover have "pools_ok (t\<lparr>sending := remove1 c (sending t)\<rparr>)"
    using pools by (auto simp: t pools_ok_def set_remove1_eq)
  moreover have "pools_ok (t\<lparr>sending := remove1 c (sending t), refused := (c, err) # refused t\<rparr>)"
    using pools c by (auto simp: t pools_ok_def set_remove1_eq)
  ultimately show "rpc_inv (t\<lparr>sending := remove1 c (sending t)\<rparr>)"
    and "rpc_inv (t\<lparr>sending := remove1 c (sending t), refused := (c, err) # refused t\<rparr>)"
    by (simp_all add: rpc_inv_def)
qed

lemma recv_rpc_inv:
  assumes inv: "rpc_inv s" and rel: "sync_rel ev s t" and out: "rtc_outer t = rtc_outer s"
  shows "rpc_inv t"
proof -
  have "pools_ok t"
    using rpc_invD(2)[OF inv] rel unfolding pools_ok_def sync_rel_def by (auto simp: outer_fields[OF out])
  with sync_rel_rpc_ok[OF rpc_invD(1)[OF inv] rel outer_fields(1,2)[OF out]] show ?thesis by (simp add: rpc_inv_def)
qed

lemma rpc_step_inv: "rpc_step s t \<Longrightarrow> rpc_inv s \<Longrightarrow> rpc_inv t"
proof (induction rule: rpc_step.induct)
  case (accept s sid t)
  have t: "t = s\<lparr>rtc_sessions := AList.update sid \<lparr>ses_workerID = '''', ses_ws = None\<rparr> (rtc_sessions s)\<rparr>"
    using accept.hyps(2) by (simp add: Sync_start_def wr_def)
  have "streams_ok t"
    by (rule streams_ok_shrink[OF rpc_okD(1)[OF rpc_invD(1)[OF accept.prems]]]) (auto simp: t pending_sub_def split: if_splits)
  then show ?case using accept.prems unfolding rpc_inv_def rpc_ok_def pools_ok_def by (simp add: t)
next
  case (recv sid ev s t)
  have "sync_rel ev s t" using Sync_returns[OF rpc_okD(1)[OF rpc_invD(1)[OF recv.prems]], of sid ev] recv.hyps by simp
  then show ?case by (rule recv_rpc_inv[OF recv.prems]) (rule keepsD_Ret[OF keeps_Sync recv.hyps])
next
  case (number s wsp q t)
  then show ?case using number_rpc_inv[OF number.prems number.hyps(1,2)] by (auto simp: sendRequest_number_eq)
next
  case (reply s c m t)
  then have "rpc_ok (finish c (Inr m) t)" using reply_rpc_ok rpc_invD(1) unfolding waiting_def by blast
  with reply take_SomeD[OF reply.hyps(2)] show ?case by (intro ended_rpc_inv[where s = s]) auto
next
  case (timeout s c t)
  note run = timeout.hyps(2)[unfolded sendRequest_timeout_def]
  have "rpc_ok (finish c (Inl ''request timeout'') t)"
    using timeout_rpc_ok[OF rpc_invD(1)[OF timeout.prems] _ run] timeout.hyps(1) by (simp add: waiting_def)
  moreover obtain ws where "t = s\<lparr>rtc_streams := AList.update (call_wsp c)
      (ws\<lparr>st_pending := AList.delete (call_seq c) (st_pending ws)\<rparr>) (rtc_streams s)\<rparr>"
    using set_pending_Ret[OF run] by metis
  ultimately show ?case using timeout.hyps(1) timeout.prems by (intro ended_rpc_inv[where s = s]) auto
qed (simp_all add: register_rpc_inv sending_rpc_inv withdraw_rpc_inv)

interpretation rpc: invariant_system rpc_init rpc_step rpc_inv
proof
  show "rpc_inv s" if "rpc_init s" for s
    using that by (auto simp: rpc_init_def rpc_inv_def rpc_ok_def pools_ok_def streams_ok_def is_pending_def)
qed (rule rpc_step_inv)

lemmas reach_rpc_ok = rpc.reach_invar[THEN rpc_invD(1)]

subsection \<open>Correctness of concurrent requests\<close>

lemma Sync_delivers:
  assumes ok: "streams_ok s" and ses: "map_of (rtc_sessions s) sid = Some ses" "ses_ws ses = Some (call_wsp c)"
    and c: "is_pending s c" and m: "is_reply m" "w2s_SeqId m = call_seq c"
  shows "\<exists>t u. Sync sid (RecvMsg m) s = Ret () t \<and> sendRequest_take (call_ch c) t = Ret (Some m) u"
proof -
  obtain ws where ws: "map_of (rtc_streams s) (call_wsp c) = Some ws"
    and q: "map_of (st_pending ws) (call_seq c) = Some (call_ch c)"
    using c by (auto simp: is_pending_def)
  show ?thesis
    using ses m ws q streams_ok_pendingD[OF ok ws q]
    by (simp add: Sync_def sync_iteration_def deliver_reply_def sendRequest_take_def go_eval)
qed

text \<open>
  C1. However requests, replies, timeouts and worker streams interleave, the receive loop of a worker
  stream handles the next event to its end: it never panics, and although it sends on a reply channel
  while it holds the lock of the stream, it never blocks there.
\<close>

theorem Sync_never_blocks:
  assumes "reach rpc_init rpc_step s"
  shows "\<exists>t. Sync sid ev s = Ret () t"
  using Sync_returns[OF rpc_okD(1)[OF reach_rpc_ok[OF assms]]] by blast

text \<open>
  C2. Under every interleaving the reply with which a request ends carries the number of that request,
  and two requests in flight never share a number or a channel: no request receives another's reply.
\<close>

theorem replies_not_crossed:
  assumes "reach rpc_init rpc_step s"
  shows "(\<forall>c m. (c, Inr m) \<in> set (results s) \<longrightarrow> is_reply m \<and> w2s_SeqId m = call_seq c) \<and>
     distinct (map call_seq (calls s)) \<and> distinct (map call_ch (calls s))"
  using reach_rpc_ok[OF assms] unfolding rpc_ok_def by blast

text \<open>
  C3. The table of pending requests does not leak: an entry exists only while its request is in flight,
  whether the request ends by a reply, by its timer or by a failed send.
\<close>

theorem pending_only_in_flight:
  assumes "reach rpc_init rpc_step s" and "map_of (rtc_streams s) wsp = Some ws"
    and "map_of (st_pending ws) q = Some ch"
  shows "\<lparr>call_wsp = wsp, call_seq = q, call_ch = ch\<rparr> \<in> set (calls s)"
  using rpc_okD(2)[OF reach_rpc_ok[OF assms(1)]] assms(2,3) by (simp add: is_pending_def)

text \<open>
  C4. No reply is lost: a request in flight that has no reply in its channel is still in the table of its
  stream, and when the stream delivers a reply of its number the request finds it in its channel.
\<close>

theorem reply_reaches_request:
  assumes "reach rpc_init rpc_step s" and "c \<in> set (calls s)"
    and "map_of (rtc_chans s) (call_ch c) = Some []"
    and "map_of (rtc_sessions s) sid = Some ses" and "ses_ws ses = Some (call_wsp c)"
    and "is_reply m" and "w2s_SeqId m = call_seq c"
  shows "\<exists>t u. Sync sid (RecvMsg m) s = Ret () t \<and> sendRequest_take (call_ch c) t = Ret (Some m) u"
proof -
  note ok = reach_rpc_ok[OF assms(1)]
  have "is_pending s c" using rpc_okD(5)[OF ok assms(2)] assms(3) by (auto simp: call_ok_def)
  then show ?thesis using Sync_delivers[OF rpc_okD(1)[OF ok] assms(4,5) _ assms(6,7)] by blast
qed

text \<open>A run: a worker connects and registers, one request starts and receives its reply.\<close>

definition rpc_boot :: rpc_state where
  "rpc_boot = \<lparr>rnd = \<lambda>_. 0, clock = \<lambda>_. 0, order = \<lambda>_ ks. ks, rtc_wm = NewWorkerManager,
     rtc_workers = [], rtc_nextID = 0, rtc_streams = [], rtc_chans = [], rtc_sessions = [], rtc_sent = [],
     rtc_params = [], wire = \<lambda>_ _ _. Sent [], numbered = [], calls = [], sending = [], refused = [], results = []\<rparr>"

definition register_w1 :: WorkerToServer where
  "register_w1 = \<lparr>w2s_SeqId = 0, w2s_Payload = Some (WorkerRegisterMsg \<lparr>wr_WorkerId = ''w1'',
     wr_PublicIp = ''10.0.0.1'', wr_PublicPort = 4000, wr_UseUdp = True, wr_RouterCount = 0,
     wr_CpuUsage = 0, wr_MemoryUsage = 0\<rparr>)\<rparr>"

definition state_of :: "('a, 's) outcome \<Rightarrow> 's \<Rightarrow> 's" where
  "state_of r d = (case r of Ret _ s \<Rightarrow> s | Panic _ \<Rightarrow> d | Stuck s \<Rightarrow> s)"

definition rpc_registered :: rpc_state where
  "rpc_registered = state_of (Sync 5 (RecvMsg register_w1) (state_of (Sync_start 5 rpc_boot) rpc_boot)) rpc_boot"

definition rpc_call :: call where
  "rpc_call = \<lparr>call_wsp = 0, call_seq = 1, call_ch = 0\<rparr>"

definition rpc_numbered :: rpc_state where
  "rpc_numbered = rpc_registered\<lparr>rtc_nextID := 1, numbered := [(0, 1)]\<rparr>"

definition rpc_sending :: rpc_state where
  "rpc_sending = rpc_registered\<lparr>rtc_nextID := 1, rtc_chans := [(0, [])],
     rtc_streams := [(0, \<lparr>st_stream = 5, st_pending = [(1, 0)]\<rparr>)], numbered := [], calls := [rpc_call], sending := [rpc_call]\<rparr>"

definition rpc_calling :: rpc_state where
  "rpc_calling = (state_of (sendRequest_send 0 1 (GlobalNotification ''x'') rpc_sending) rpc_boot)\<lparr>sending := []\<rparr>"

lemmas rpc_run = rpc_registered_def rpc_boot_def register_w1_def state_of_def Sync_start_def Sync_def
  sync_iteration_def sync_register_def forget_worker_def stream_Send_eq sent_after_def run_wm_def time_Now_def go_eval
  is_reply_def fresh_def RegisterWorker_def NewWorkerManager_def

lemma rpc_registered_facts:
  "rtc_streams rpc_registered = [(0, \<lparr>st_stream = 5, st_pending = []\<rparr>)]"
  "rtc_sessions rpc_registered = [(5, \<lparr>ses_workerID = ''w1'', ses_ws = Some 0\<rparr>)]"
  "rtc_chans rpc_registered = []" "rtc_nextID rpc_registered = 0" "calls rpc_registered = []"
  "wire rpc_registered = (\<lambda>_ _ _. Sent [])" "numbered rpc_registered = []" "sending rpc_registered = []" "refused rpc_registered = []"
  by (simp_all add: rpc_run)

lemma rpc_registered_reach: "reach rpc_init rpc_step rpc_registered"
proof -
  have "reach rpc_init rpc_step rpc_boot"
    by (rule reach_init) (simp add: rpc_init_def rpc_boot_def)
  then have "reach rpc_init rpc_step (state_of (Sync_start 5 rpc_boot) rpc_boot)"
    by (rule reach_step) (rule rpc_step.accept[where sid = 5], simp_all add: rpc_run)
  then show ?thesis
    by (rule reach_step) (rule rpc_step.recv[where sid = 5 and ev = "RecvMsg register_w1"], simp add: rpc_run)
qed

lemma rpc_sending_send: "sendRequest_send 0 1 (GlobalNotification ''x'') rpc_sending =
  Ret (Sent []) (state_of (sendRequest_send 0 1 (GlobalNotification ''x'') rpc_sending) rpc_boot)"
  using rpc_registered_facts by (simp add: rpc_sending_def sendRequest_send_def go_eval stream_Send_eq state_of_def)

lemma rpc_calling_facts:
  "rtc_streams rpc_calling = [(0, \<lparr>st_stream = 5, st_pending = [(1, 0)]\<rparr>)]" "calls rpc_calling = [rpc_call]"
  "rtc_sessions rpc_calling = [(5, \<lparr>ses_workerID = ''w1'', ses_ws = Some 0\<rparr>)]" "rtc_chans rpc_calling = [(0, [])]"
  "sending rpc_calling = []" "refused rpc_calling = []"
  using rpc_registered_facts
  by (simp_all add: rpc_calling_def rpc_sending_def sendRequest_send_def go_eval stream_Send_eq state_of_def)

lemma rpc_calling_reach: "reach rpc_init rpc_step rpc_calling"
proof -
  have "rpc_step rpc_registered rpc_numbered"
    using rpc_step.number[of rpc_registered 0, OF _ _ sendRequest_number_eq] rpc_registered_facts by (simp add: rpc_numbered_def)
  moreover have "rpc_step rpc_numbered rpc_sending"
    using rpc_step.register[of 0 1 rpc_numbered, OF _ sendRequest_register_eq[of _ _ "\<lparr>st_stream = 5, st_pending = []\<rparr>"] refl]
      rpc_registered_facts
    by (simp add: rpc_numbered_def rpc_sending_def rpc_call_def fresh_def)
  moreover have "rpc_step rpc_sending rpc_calling"
    using rpc_step.sent[of rpc_call rpc_sending] rpc_sending_send rpc_registered_facts
    by (simp add: rpc_calling_def rpc_call_def rpc_sending_def sendRequest_send_def go_eval stream_Send_eq state_of_def)
  ultimately show ?thesis using rpc_registered_reach by (blast intro: reach_step)
qed

theorem Sync_never_blocks_witness: "\<exists>t. Sync 5 RecvEOF rpc_calling = Ret () t"
  by (rule Sync_never_blocks[OF rpc_calling_reach])

definition rpc_answered :: rpc_state where
  "rpc_answered = state_of (Sync 5 (RecvMsg (router_reply 1 True)) rpc_calling) rpc_boot"

definition rpc_done :: rpc_state where
  "rpc_done = finish rpc_call (Inr (router_reply 1 True)) (state_of (sendRequest_take 0 rpc_answered) rpc_boot)"

lemma rpc_answer_step: "Sync 5 (RecvMsg (router_reply 1 True)) rpc_calling = Ret () rpc_answered"
  by (simp add: rpc_answered_def state_of_def Sync_def sync_iteration_def deliver_reply_def rpc_calling_facts go_eval)

lemma rpc_answered_facts: "rtc_chans rpc_answered = [(0, [router_reply 1 True])]" "calls rpc_answered = [rpc_call]"
  "sending rpc_answered = []" "refused rpc_answered = []"
  using rpc_calling_facts
  by (simp_all add: rpc_answered_def state_of_def Sync_def sync_iteration_def deliver_reply_def go_eval)

lemma rpc_done_reach: "reach rpc_init rpc_step rpc_done"
proof -
  have "reach rpc_init rpc_step rpc_answered"
    by (rule reach_step[OF rpc_calling_reach]) (rule rpc_step.recv[OF rpc_answer_step])
  then show ?thesis
    unfolding rpc_done_def
    by (rule reach_step) (rule rpc_step.reply,
        simp_all add: waiting_def rpc_answered_facts rpc_call_def sendRequest_take_def state_of_def)
qed

theorem replies_not_crossed_witness:
  "(rpc_call, Inr (router_reply 1 True)) \<in> set (results rpc_done) \<and> call_seq rpc_call = 1"
proof -
  have "(rpc_call, Inr (router_reply 1 True)) \<in> set (results rpc_done)"
    by (simp add: rpc_done_def finish_def)
  with replies_not_crossed[OF rpc_done_reach] have "w2s_SeqId (router_reply 1 True) = call_seq rpc_call" by blast
  with \<open>(rpc_call, _) \<in> _\<close> show ?thesis by simp
qed

theorem pending_only_in_flight_witness: "rpc_call \<in> set (calls rpc_calling)"
  unfolding rpc_call_def
  by (rule pending_only_in_flight[OF rpc_calling_reach, where ws = "\<lparr>st_stream = 5, st_pending = [(1, 0)]\<rparr>"])
    (simp_all add: rpc_calling_facts)

theorem reply_reaches_request_witness:
  "\<exists>t u. Sync 5 (RecvMsg (router_reply 1 True)) rpc_calling = Ret () t \<and>
     sendRequest_take (call_ch rpc_call) t = Ret (Some (router_reply 1 True)) u"
  by (rule reply_reaches_request[OF rpc_calling_reach, where ses = "\<lparr>ses_workerID = ''w1'', ses_ws = Some 0\<rparr>"])
    (simp_all add: rpc_calling_facts rpc_call_def)

end
