(* ===== verification/Setting.thy ===== *)
theory Setting
  imports Json
begin

section \<open>Reading the configuration (config.go)\<close>

text \<open>
  \<^verbatim>\<open>InitSetting\<close> reads a JSON file into the struct \<^verbatim>\<open>Config\<close>, by the decoders of \<open>Json\<close>. The file is unreadable,
  no JSON, or a JSON value whose objects have distinct keys. The fields tagged \<^verbatim>\<open>json:"-"\<close> have no key.
\<close>

definition dec_HeaderExtension :: "HeaderExtension dec" where
  "dec_HeaderExtension = dec_struct
     [fld ''kind'' dec_string hx_Kind hx_Kind_update,
      fld ''uri'' dec_string hx_Uri hx_Uri_update,
      fld ''preferredId'' dec_int hx_PreferredId hx_PreferredId_update,
      fld ''preferredEncrypt'' dec_bool hx_PreferredEncrypt hx_PreferredEncrypt_update,
      fld ''direction'' dec_string hx_Direction hx_Direction_update]"

definition zero_HeaderExtension :: HeaderExtension where
  "zero_HeaderExtension = \<lparr>hx_Kind = '''', hx_Uri = '''', hx_PreferredId = 0, hx_PreferredEncrypt = False, hx_Direction = ''''\<rparr>"

definition dec_RouterRtpCapabilities :: "RouterRtpCapabilities dec" where
  "dec_RouterRtpCapabilities = dec_struct
     [fld ''codecs'' (dec_slice zero_CodecCapabilities dec_CodecCapabilities) rr_MediaCodecs rr_MediaCodecs_update,
      fld ''headerExtensions'' (dec_slice zero_HeaderExtension dec_HeaderExtension) rr_HeaderExtensions rr_HeaderExtensions_update]"

definition dec_Config :: "Config dec" where
  "dec_Config = dec_struct [fld ''routerRtpCapabilities'' dec_RouterRtpCapabilities cfg_RtpCapabilities cfg_RtpCapabilities_update]"

definition zero_Config :: Config where
  "zero_Config = \<lparr>cfg_RtpCapabilities = \<lparr>rr_MediaCodecs = [], rr_HeaderExtensions = []\<rparr>,
     cfg_Http = \<lparr>http_Addr = '''', http_ReadTimeOut = 0, http_WriteTimeOut = 0, http_IsKeepAlive = 0\<rparr>,
     cfg_Database = \<lparr>db_Host = '''', db_Port = 0, db_Username = '''', db_Password = '''', db_Name = ''''\<rparr>,
     cfg_Redis = \<lparr>redis_Host = '''', redis_Port = 0, redis_Password = '''', redis_DB = 0\<rparr>,
     cfg_Email = \<lparr>email_SMTPHost = '''', email_SMTPPort = 0, email_FromEmail = '''', email_Password = ''''\<rparr>\<rparr>"

datatype config_file = Unreadable | NotJson | JsonFile json

datatype setting_error = ReadFailed | UnmarshalFailed

definition InitSetting :: "config_file \<Rightarrow> setting_error + Config" where
  "InitSetting file = (case file of
      Unreadable \<Rightarrow> Inl ReadFailed
    | NotJson \<Rightarrow> Inl UnmarshalFailed
    | JsonFile j \<Rightarrow> (case dec_Config j zero_Config of None \<Rightarrow> Inl UnmarshalFailed | Some cfg \<Rightarrow> Inr cfg))"

lemma dec_entries_keeps:
  assumes "\<And>k f j v w. field_of fs k = Some f \<Longrightarrow> f j v = Some w \<Longrightarrow> p w = p v"
  shows "dec_entries fs kvs v = Some w \<Longrightarrow> p w = p v"
proof (induction kvs arbitrary: v)
  case (Cons kj kvs)
  obtain k j where kj: "kj = (k, j)" by force
  show ?case
  proof (cases "field_of fs k")
    case None
    with Cons kj show ?thesis by simp
  next
    case (Some f)
    with Cons.prems kj obtain u where "f j v = Some u" "dec_entries fs kvs u = Some w"
      by (auto simp: bind_eq_Some_conv)
    with Cons.IH assms[OF Some] show ?thesis by metis
  qed
qed simp

definition service_settings :: "Config \<Rightarrow> Http \<times> DatabaseConfig \<times> RedisConfig \<times> EmailConfig" where
  "service_settings cfg = (cfg_Http cfg, cfg_Database cfg, cfg_Redis cfg, cfg_Email cfg)"

lemma field_of_single: "field_of [(n, f)] k = Some g \<Longrightarrow> g = f"
  by (auto simp: field_of_def split: option.splits if_splits)

lemma dec_Config_keeps_services: "dec_Config j v = Some w \<Longrightarrow> service_settings w = service_settings v"
proof (cases j)
  case (JObject kvs)
  assume "dec_Config j v = Some w"
  then have "dec_entries [fld ''routerRtpCapabilities'' dec_RouterRtpCapabilities cfg_RtpCapabilities cfg_RtpCapabilities_update] kvs v = Some w"
    using JObject by (simp add: dec_Config_def dec_struct_def)
  then show ?thesis
    by (rule dec_entries_keeps[rotated]) (auto simp: fld_def service_settings_def dest!: field_of_single)
qed (auto simp: dec_Config_def dec_struct_def)

text \<open>
  No configuration file sets the address of the HTTP server or the parameters of the database, redis or
  the mail server: whatever the file holds, a successful \<^verbatim>\<open>InitSetting\<close> leaves them at their zero values.
\<close>

lemma InitSetting_services_unset:
  assumes "InitSetting file = Inr cfg"
  shows "cfg_Http cfg = cfg_Http zero_Config \<and> cfg_Database cfg = cfg_Database zero_Config \<and>
    cfg_Redis cfg = cfg_Redis zero_Config \<and> cfg_Email cfg = cfg_Email zero_Config"
  using assms dec_Config_keeps_services[of _ zero_Config cfg]
  by (auto simp: InitSetting_def service_settings_def split: config_file.splits option.splits)

definition demo_file :: json where
  "demo_file = JObject [(''Http'', JObject [(''addr'', JString '':8080'')]), (''routerRtpCapabilities'', JObject [(''headerExtensions'',
     JArray [JObject [(''kind'', JString ''audio''), (''preferredId'', JInt 1)]])])]"

lemma demo_file_run:
  "InitSetting (JsonFile demo_file) = Inr (zero_Config\<lparr>cfg_RtpCapabilities := \<lparr>rr_MediaCodecs = [],
     rr_HeaderExtensions = [zero_HeaderExtension\<lparr>hx_Kind := ''audio'', hx_PreferredId := 1\<rparr>]\<rparr>\<rparr>)"
  by code_simp

end
