(* ===== verification/Session_Run.thy ===== *)
theory Session_Run
  imports Publishing Rpc Setting
begin

section \<open>A run of the whole server\<close>

text \<open>
  A concrete run on which the theorems about reachable states are exercised: a worker connects and
  registers, two users connect to the same room, the first of them joins, a connection breaks.
\<close>

definition sig_boot :: srv_state where
  "sig_boot = \<lparr>rnd = \<lambda>_. 0, clock = int, order = \<lambda>_ ks. ks, rtc_wm = NewWorkerManager,
     rtc_workers = [], rtc_nextID = 0, rtc_streams = [], rtc_chans = [], rtc_sessions = [], rtc_sent = [],
     rtc_params = [], wire = \<lambda>_ sid m. Sent [(sid, RecvMsg (router_reply (s2w_SeqId m) True))],
     srv_users = [], srv_rooms = [], ws_users = [], gRtcServer = False, gConfig = zero_Config\<rparr>"

definition sig_up :: srv_state where
  "sig_up = (NewWebRtcServer sig_boot)\<lparr>gRtcServer := True\<rparr>"

lemma sig_up_eq: "sig_up = sig_boot\<lparr>gRtcServer := True\<rparr>"
  by (simp add: sig_up_def sig_boot_def NewWebRtcServer_def InitWorkerManager_def)

definition sig_worker :: srv_state where
  "sig_worker = state_of (Sync 5 (RecvMsg register_w1) (state_of (Sync_start 5 sig_up) sig_boot)) sig_boot"

definition sig_alice :: srv_state where
  "sig_alice = state_of (HandleWebSocket ''r'' ''alice'' ''a'' sig_worker) sig_boot"

definition sig_bob :: srv_state where
  "sig_bob = state_of (HandleWebSocket ''r'' ''bob'' ''b'' sig_alice) sig_boot"

lemmas run_defs = state_of_def Sync_start_def Sync_def sync_iteration_def sync_register_def
  forget_worker_def stream_Send_eq sent_after_def run_wm_def time_Now_def go_eval is_reply_def fresh_def
  RegisterWorker_def NewWorkerManager_def register_w1_def

lemma sig_worker_run:
  "Sync_start 5 sig_up = Ret () (state_of (Sync_start 5 sig_up) sig_boot)"
  "Sync 5 (RecvMsg register_w1) (state_of (Sync_start 5 sig_up) sig_boot) = Ret () sig_worker"
  by (simp_all add: sig_worker_def sig_up_eq sig_boot_def run_defs)

definition worker_w1 :: Worker where
  "worker_w1 = \<lparr>wk_workerId = ''w1'', wk_publicIp = ''10.0.0.1'', wk_publicPort = 4000, wk_useUdp = True,
     wk_status = WorkerStatusOnline, wk_routerCount = 0, wk_cpuUsage = 0, wk_memoryUsage = 0,
     wk_lastHeartbeat = 0, wk_routers = []\<rparr>"

lemma sig_worker_eq:
  "sig_worker = \<lparr>rnd = \<lambda>_. 0, clock = \<lambda>i. 1 + int i, order = \<lambda>_ ks. ks, rtc_wm = \<lparr>wm_workers = [(''w1'', worker_w1)]\<rparr>,
     rtc_workers = [(''w1'', 0)], rtc_nextID = 0, rtc_streams = [(0, \<lparr>st_stream = 5, st_pending = []\<rparr>)],
     rtc_chans = [], rtc_sessions = [(5, \<lparr>ses_workerID = ''w1'', ses_ws = Some 0\<rparr>)],
     rtc_sent = [(5, \<lparr>s2w_SeqId = 0, s2w_Payload = WorkerRegisterRes
       \<lparr>ws_WorkerId = ''w1'', ws_Success = True, ws_ErrorDetail = ''''\<rparr>\<rparr>)],
     rtc_params = [], wire = \<lambda>_ sid m. Sent [(sid, RecvMsg (router_reply (s2w_SeqId m) True))],
     srv_users = [], srv_rooms = [], ws_users = [], gRtcServer = True, gConfig = zero_Config\<rparr>"
  by (simp add: sig_worker_def sig_up_eq sig_boot_def run_defs worker_w1_def Let_def)

lemmas connect_defs = HandleWebSocket_def rand_Intn_def draw_def Run_Register_def get_user_def GetOrCreateRoom_def NewRoom_def
  CreateRouterOnWorker_def choose_worker_def range_keys_def RandString_eq sendRequest_def getWorkerStream_def
  sendRequest_begin_parts set_pending_def deliver_reply_def sendRequest_take_def expect_reply_def GetCreateRouterRes_def
  AddUser_def upd_room_def ChooseBestWorker_def GetOnlineWorkers_def worker_online_def List.map_filter_simps
  heartbeatTimeout_def worker_score_def new_router_def create_router_req_def router_reply_def keys_def AddRouter_def

lemma sig_alice_run: "HandleWebSocket ''r'' ''alice'' ''a'' sig_worker = Ret 0 sig_alice"
  by (simp add: sig_alice_def sig_worker_eq run_defs connect_defs worker_w1_def Let_def)

lemma itoa_digits: "itoa 1 = ''1''" "itoa 5 = ''5''"
  by code_simp+

definition demo_user :: "string \<Rightarrow> string \<Rightarrow> string \<Rightarrow> User" where
  "demo_user k peer addr = \<lparr>us_userId = k, us_PeerId = peer, us_DisplayName = '''', us_createTs = 0,
     us_roomId = ''r'', us_Device = None, us_RemoteAddress = addr, us_reqId = 0, us_newDataConsumerReq = False,
     us_closed = False, us_writer = True, us_conn = True, us_out = []\<rparr>"

definition demo_room :: "(string, nat) gomap \<Rightarrow> Room" where
  "demo_room users = \<lparr>rm_roomId = ''r'', rm_createTs = 0,
     rm_router = new_router (rand_string_of (\<lambda>_. 0) 36) worker_w1, rm_users = users\<rparr>"

lemma sig_alice_facts:
  "srv_users sig_alice = [(0, demo_user ''user_1'' ''alice'' ''a'')]"
  "srv_rooms sig_alice = [(''r'', demo_room [(''user_1'', 0)])]"
  "ws_users sig_alice = [0]" "wire sig_alice = (\<lambda>_ sid m. Sent [(sid, RecvMsg (router_reply (s2w_SeqId m) True))])" "clock sig_alice = (\<lambda>i. 5 + int i)" "rnd sig_alice = (\<lambda>_. 0)"
  by (simp_all add: sig_alice_def sig_worker_eq run_defs connect_defs worker_w1_def Let_def itoa_digits
      demo_user_def demo_room_def)

lemma sig_bob_run: "HandleWebSocket ''r'' ''bob'' ''b'' sig_alice = Ret 1 sig_bob"
  by (simp add: sig_bob_def sig_alice_facts HandleWebSocket_def rand_Intn_def draw_def Run_Register_def get_user_def
      GetOrCreateRoom_def AddUser_def upd_room_def time_Now_def go_eval fresh_def state_of_def)

lemma sig_bob_facts:
  "srv_users sig_bob = [(0, demo_user ''user_1'' ''alice'' ''a''), (1, demo_user ''user_5'' ''bob'' ''b'')]"
  "srv_rooms sig_bob = [(''r'', demo_room [(''user_1'', 0), (''user_5'', 1)])]" "ws_users sig_bob = [0, 1]"
  "wire sig_bob = (\<lambda>_ sid m. Sent [(sid, RecvMsg (router_reply (s2w_SeqId m) True))])"
  by (simp_all add: sig_bob_def sig_alice_facts HandleWebSocket_def rand_Intn_def draw_def Run_Register_def get_user_def
      GetOrCreateRoom_def AddUser_def upd_room_def time_Now_def go_eval fresh_def state_of_def
      itoa_digits demo_user_def demo_room_def)

lemma sig_boot_reach: "reach sig_init sig_step sig_boot"
  by (rule reach_init) (simp add: sig_init_def sig_boot_def order_ok_def NewServer_def)

lemma sig_up_reach: "reach sig_init sig_step sig_up"
  unfolding sig_up_def by (rule reach_step[OF sig_boot_reach]) (rule sig_step.server_up, simp add: sig_boot_def)

lemma sig_alice_reach: "reach sig_init sig_step sig_alice"
proof -
  have "reach sig_init sig_step (state_of (Sync_start 5 sig_up) sig_boot)"
    by (rule reach_step[OF sig_up_reach]) (rule sig_step.worker_connects[OF _ _ sig_worker_run(1)], simp_all add: sig_up_eq sig_boot_def)
  then have "reach sig_init sig_step sig_worker"
    by (rule reach_step) (rule sig_step.worker_event[OF sig_worker_run(2)])
  then show ?thesis by (rule reach_step) (rule sig_step.connect[OF sig_alice_run])
qed

lemma sig_bob_reach: "reach sig_init sig_step sig_bob"
  by (rule reach_step[OF sig_alice_reach]) (rule sig_step.connect[OF sig_bob_run])

lemma sig_bob_writing: "all_writing sig_bob"
  by (simp add: all_writing_def sig_bob_facts demo_user_def)

subsection \<open>The theorems on this run\<close>

theorem room_members_registered_witness:
  "1 \<in> set (ws_users sig_bob) \<and> (\<exists>usr. map_of (srv_users sig_bob) 1 = Some usr \<and> us_userId usr = ''user_5'' \<and> \<not> us_closed usr)"
proof -
  have "map_of (srv_rooms sig_bob) ''r'' = Some (demo_room [(''user_1'', 0), (''user_5'', 1)])"
    and "map_of (rm_users (demo_room [(''user_1'', 0), (''user_5'', 1)])) ''user_5'' = Some 1"
    by (simp_all add: sig_bob_facts demo_room_def)
  from room_members_registered[OF sig_bob_reach this] show ?thesis by blast
qed

theorem no_closed_channel_panic_witness:
  "ReadMessage_one 0 None sig_bob \<noteq> Panic SendOnClosedChan \<and> Run_Unregister 1 sig_bob \<noteq> Panic SendOnClosedChan"
  using no_closed_channel_panic[OF sig_bob_reach, of 0 None "[]" "[]" "[]" 1] by (simp add: sig_bob_facts)

theorem no_block_while_writers_run_witness: "\<forall>t. Run_Unregister 1 sig_bob \<noteq> Stuck t"
  using no_block_while_writers_run[OF sig_bob_reach sig_bob_writing, of 0 None 1] by blast

definition caps_request :: WsMessage where
  "caps_request = blank_message\<lparr>msg_Request := True, msg_Id := 7, msg_Method := ''getRouterRtpCapabilities''\<rparr>"

definition sig_caps :: srv_state where
  "sig_caps = state_of (ReadMessage_one 0 (Some caps_request) sig_bob) sig_boot"

lemma sig_caps_run: "ReadMessage_one 0 (Some caps_request) sig_bob = Ret () sig_caps"
  by (simp add: sig_caps_def ReadMessage_one_def caps_request_def handleGetRouterRtpCapabilities_def go_eval
      send_msg_def sig_bob_facts demo_user_def state_of_def)

theorem request_answered_once_witness:
  "\<exists>usr r. map_of (srv_users sig_caps) 0 = Some usr \<and> filter msg_Response (us_out usr) = [r] \<and> msg_Id r = 7"
  using request_answered_once[OF sig_bob_reach _ _ sig_caps_run, of 0 "demo_user ''user_1'' ''alice'' ''a''"]
  by (auto simp: sig_bob_facts request_methods_def caps_request_def demo_user_def blank_message_def)

lemma bob_room: "map_of (srv_rooms sig_bob) ''r'' = Some (demo_room [(''user_1'', 0), (''user_5'', 1)])"
  by (simp add: sig_bob_facts)

lemma bob_alice: "map_of (srv_users sig_bob) 0 = Some (demo_user ''user_1'' ''alice'' ''a'')"
  by (simp add: sig_bob_facts)

lemma demo_user_simps [simp]:
  "us_roomId (demo_user k p a) = ''r''" "us_userId (demo_user k p a) = k" "us_PeerId (demo_user k p a) = p"
  "us_writer (demo_user k p a)" "us_out (demo_user k p a) = []"
  by (simp_all add: demo_user_def)

lemma demo_room_users [simp]: "rm_users (demo_room us) = us"
  by (simp add: demo_room_def)

theorem leave_notifies_members_witness:
  "\<exists>t usr. Run_Unregister 0 sig_bob = Ret () t \<and> map_of (srv_users t) 1 = Some usr \<and>
     us_out usr = [peer_closed_msg (demo_user ''user_1'' ''alice'' ''a'')]"
  using leave_notifies_members[OF sig_bob_reach sig_bob_writing _ bob_alice, of "demo_room [(''user_1'', 0), (''user_5'', 1)]"]
  by (auto simp: sig_bob_facts leave_def other_members_def targets_def keys_def deliver_def)

theorem join_tells_everyone_witness:
  "\<exists>t usr. handleJoin 0 caps_request sig_bob = Ret () t \<and> map_of (srv_users t) 1 = Some usr \<and>
     us_out usr = [new_peer_msg (joined caps_request (demo_user ''user_1'' ''alice'' ''a''))]"
proof -
  let ?A = "demo_user ''user_1'' ''alice'' ''a''" and ?R = "demo_room [(''user_1'', 0), (''user_5'', 1)]"
  have "0 \<in> set (ws_users sig_bob)" "map_of (srv_rooms sig_bob) (us_roomId ?A) = Some ?R" by (simp_all add: sig_bob_facts)
  from join_tells_everyone[OF sig_bob_reach sig_bob_writing this(1) bob_alice this(2), of caps_request]
  obtain t where "handleJoin 0 caps_request sig_bob = Ret () t" and t: "\<And>v. v \<noteq> 0 \<Longrightarrow> map_of (srv_users t) v =
      map_option (deliver (other_members (us_userId ?A) ?R) (new_peer_msg (joined caps_request ?A)) v) (map_of (srv_users sig_bob) v)"
    by blast
  moreover have "1 \<in> other_members (us_userId ?A) ?R" by (simp add: other_members_def targets_def keys_def)
  ultimately show ?thesis using t[of 1] by (simp add: sig_bob_facts deliver_def)
qed

definition sig_broken :: srv_state where
  "sig_broken = state_of (WriteMessage_fails 1 sig_bob) sig_boot"

lemma sig_broken_run: "WriteMessage_fails 1 sig_bob = Ret () sig_broken"
  by (simp add: sig_broken_def WriteMessage_fails_def wsConn_Close_def go_eval upd_user_def sig_bob_facts state_of_def)

lemma sig_broken_facts:
  "map_of (srv_users sig_broken) 0 = Some (demo_user ''user_1'' ''alice'' ''a'')"
  "map_of (srv_users sig_broken) 1 = Some ((demo_user ''user_5'' ''bob'' ''b'')\<lparr>us_writer := False, us_conn := False\<rparr>)"
  "map_of (srv_rooms sig_broken) ''r'' = Some (demo_room [(''user_1'', 0), (''user_5'', 1)])" "ws_users sig_broken = [0, 1]"
  "wire sig_broken = wire sig_bob"
  by (simp_all add: sig_broken_def WriteMessage_fails_def wsConn_Close_def go_eval upd_user_def sig_bob_facts state_of_def)

lemma confirms_routers: "wire s = (\<lambda>_ sid m. Sent [(sid, RecvMsg (router_reply (s2w_SeqId m) True))]) \<Longrightarrow> router_replies s"
  by (simp add: router_replies_def router_reply_def GetCreateRouterRes_def)

theorem dead_writer_blocks_unregister_witness:
  "(\<exists>t. Run_Unregister 0 sig_broken = Stuck t) \<and> (\<exists>t. Run_Unregister 1 sig_broken = Ret () t \<and> ws_users t = [0])"
proof -
  let ?R = "demo_room [(''user_1'', 0), (''user_5'', 1)]"
  have "writes sig_broken ?R k" if "k \<noteq> ''user_5''" for k
    using that sig_broken_facts by (auto simp: writes_def split: if_splits)
  moreover have "router_replies sig_broken" by (rule confirms_routers) (simp add: sig_broken_facts sig_bob_facts)
  ultimately show ?thesis
    using dead_writer_blocks_unregister[OF reach_step[OF sig_bob_reach sig_step.write_error[OF sig_broken_run]] sig_broken_facts(2), of ?R]
      sig_broken_facts by fastforce
qed

theorem last_leave_deletes_room_witness:
  "\<exists>t. Run_Unregister 0 sig_alice = Ret () t \<and> map_of (srv_rooms t) ''r'' = None"
  using last_leave_deletes_room[OF sig_alice_reach, of 0 "demo_user ''user_1'' ''alice'' ''a''" "demo_room [(''user_1'', 0)]"]
    confirms_routers[OF sig_alice_facts(4)]
  by (auto simp: sig_alice_facts(1-3) leave_def)

subsection \<open>Publishing after the worker hung up\<close>












end
