(* ===== verification/Sessions.thy ===== *)
theory Sessions
  imports Session_Run
begin

section \<open>Whole sessions, and what can happen inside a disconnection (user.go, wssServer.go)\<close>

text \<open>
  A session is the loop of \<^verbatim>\<open>ReadMessage\<close> from the first frame to the read error that ends it. The second part
  leaves the atomic handlers: it lets another goroutine run between the two halves of an unregistration.
\<close>

subsection \<open>A session\<close>

lemma ReadMessage_session:
  assumes "srv_ok s" and "all_writing s" and "u \<in> set (ws_users s)"
  shows "wp (ReadMessage u (map TextFrame ms @ ReadError # fs)) (\<lambda>_ t. srv_ok t \<and> ws_users t = removeAll u (ws_users s))
    data_panic (\<lambda>_. False) s"
  using assms
proof (induction ms arbitrary: s)
  case Nil
  have "wp (wsConn_Close u) (\<lambda>_ t. srv_ok t \<and> ws_users t = removeAll u (ws_users s)) data_panic (\<lambda>_. False) t"
    if t: "srv_ok t" "ws_users t = removeAll u (ws_users s)" "map_of (srv_users t) u \<noteq> None" for t
  proof -
    obtain usr where usr: "map_of (srv_users t) u = Some usr" using t(3) by blast
    show ?thesis using srv_ok_closed[OF t(1) usr, of "us_writer usr"] t(2) usr by (simp add: wsConn_Close_def)
  qed
  with Nil show ?case by (simp, intro wp_mono[OF wp_Run_Unregister[OF Nil(1)]]) auto
next
  case (Cons m ms)
  show ?case
    by (simp, rule wp_mono[OF ReadMessage_safe[OF Cons.prems(1,3)]])
      (use Cons.prems in \<open>auto intro: wp_mono[OF Cons.IH]\<close>)
qed

text \<open>The messages that reach no worker: broken ones, unknown methods, the request for the capabilities and a join.\<close>

definition local_message :: "WsMessage option \<Rightarrow> bool" where
  "local_message mo \<longleftrightarrow> (case mo of None \<Rightarrow> True | Some req \<Rightarrow> msg_Method req \<notin>
     {''createWebRtcTransport'', ''connectWebRtcTransport'', ''produceData'', ''produce'', ''closeProducer''})"

lemma local_message_returns:
  assumes s: "srv_ok s" "all_writing s" and u: "u \<in> set (ws_users s)" "map_of (srv_users s) u = Some usr"
    and room: "map_of (srv_rooms s) (us_roomId usr) = Some room" and mo: "local_message mo"
  shows "\<exists>t usr'. ReadMessage_one u mo s = Ret () t \<and> srv_rooms t = srv_rooms s \<and> map_of (srv_users t) u = Some usr' \<and>
    us_roomId usr' = us_roomId usr \<and> us_userId usr' = us_userId usr"
proof (cases "\<exists>req. mo = Some req \<and> msg_Method req = ''join''")
  case True
  then obtain req where "mo = Some req" "msg_Method req = ''join''" by blast
  then have run: "ReadMessage_one u mo s = handleJoin u req s" by (simp add: ReadMessage_one_def)
  obtain ks t where "handleJoin u req s = Ret () t" "srv_rooms t = srv_rooms s" "map_of (srv_users t) u = Some ((joined req usr)\<lparr>us_out :=
      us_out usr @ [(response_to req True)\<lparr>msg_Data := JoinResD \<lparr>jr_Peers = map (member_peer s room) ks\<rparr>\<rparr>]\<rparr>)"
    using handleJoin_eq[OF s u room, of req] by blast
  then show ?thesis unfolding run by simp
next
  case False
  have "us_writer usr" "\<not> us_closed usr" using s(2) u srv_okD(5)[OF s(1) u(1)] by (auto simp: all_writing_def)
  with False mo u(2) show ?thesis
    by (auto simp: ReadMessage_one_def Let_def local_message_def handleGetRouterRtpCapabilities_def go_eval send_msg_def split: option.splits)
qed

lemma local_session_returns:
  assumes "srv_ok s" and "all_writing s" and "u \<in> set (ws_users s)" and "map_of (srv_users s) u = Some usr"
    and "map_of (srv_rooms s) (us_roomId usr) = Some room" and "rm_users (leave (us_userId usr) room) \<noteq> []"
    and "\<forall>mo \<in> set ms. local_message mo"
  shows "\<exists>t. ReadMessage u (map TextFrame ms @ [ReadError]) s = Ret () t"
  using assms
proof (induction ms arbitrary: s usr)
  case Nil
  obtain t where "Run_Unregister u s = Ret () t" "map_of (srv_users t) u = Some (usr\<lparr>us_closed := True\<rparr>)"
    using leave_exact[OF Nil(1,3-5) all_writing_writes[OF Nil(1,2,5)] Nil(6)] by blast
  then show ?case by (simp add: bnd_def wsConn_Close_def upd_user_def)
next
  case (Cons m ms)
  obtain t usr' where t: "ReadMessage_one u m s = Ret () t" "srv_rooms t = srv_rooms s" "map_of (srv_users t) u = Some usr'"
      "us_roomId usr' = us_roomId usr" "us_userId usr' = us_userId usr"
    using local_message_returns[OF Cons.prems(1-5), of m] Cons.prems(7) by auto
  have ok: "srv_ok t" "ws_users t = ws_users s" "all_writing t"
    using wpD_Ret[OF ReadMessage_safe[OF Cons.prems(1,3)] t(1)] Cons.prems(2) by simp_all
  have "\<exists>v. ReadMessage u (map TextFrame ms @ [ReadError]) t = Ret () v"
    by (rule Cons.IH[OF ok(1,3) _ t(3)]) (use Cons.prems ok t in auto)
  with t(1) show ?case by (simp add: bnd_def)
qed

text \<open>
  C8. How a session ends, handlers running one after another: from every state reached with all writers running, a
  registered user that sends any messages and then closes its connection either ends unregistered and in no room, all other
  users still registered, or the process panics on a nil pointer or a slice index (data of a client or a worker, or no gRPC
  server yet); nothing blocks. It ends unregistered, without a panic, when its room exists and holds somebody else and no
  message involves a worker, that is, every message is a join, a request for the capabilities, of an unknown method or broken.
\<close>

theorem session_ends_unregistered:
  assumes "reach sig_init sig_step s" and "all_writing s" and "u \<in> set (ws_users s)"
  shows "(case ReadMessage u (map TextFrame ms @ [ReadError]) s of
      Ret _ t \<Rightarrow> ws_users t = removeAll u (ws_users s) \<and>
        (\<forall>rid room k. map_of (srv_rooms t) rid = Some room \<longrightarrow> map_of (rm_users room) k \<noteq> Some u)
    | Panic e \<Rightarrow> e = NilDeref \<or> e = IndexOutOfRange
    | Stuck t \<Rightarrow> False) \<and>
    (\<forall>usr room. map_of (srv_users s) u = Some usr \<longrightarrow> map_of (srv_rooms s) (us_roomId usr) = Some room \<longrightarrow>
      rm_users (leave (us_userId usr) room) \<noteq> [] \<longrightarrow> (\<forall>mo \<in> set ms. local_message mo) \<longrightarrow>
      (\<exists>t. ReadMessage u (map TextFrame ms @ [ReadError]) s = Ret () t))"
proof (intro conjI allI impI)
  note s = sig.reach_invar[OF assms(1)]
  have gone: "map_of (rm_users room) k \<noteq> Some u"
    if "srv_ok t" "ws_users t = removeAll u (ws_users s)" "map_of (srv_rooms t) rid = Some room" for t :: srv_state and rid room k
    using room_member[OF that(1,3)] that(2) by auto
  show "case ReadMessage u (map TextFrame ms @ [ReadError]) s of
      Ret _ t \<Rightarrow> ws_users t = removeAll u (ws_users s) \<and>
        (\<forall>rid room k. map_of (srv_rooms t) rid = Some room \<longrightarrow> map_of (rm_users room) k \<noteq> Some u)
    | Panic e \<Rightarrow> e = NilDeref \<or> e = IndexOutOfRange
    | Stuck t \<Rightarrow> False"
    using ReadMessage_session[OF s assms(2,3), of ms "[]"] gone by (auto simp: wp_def data_panic_def split: outcome.splits)
qed (rule local_session_returns[OF sig.reach_invar[OF assms(1)] assms(2,3)])

subsection \<open>A join inside a disconnection\<close>

text \<open>\<open>same_flags\<close>: rooms, open channels and writers are those of the first state.\<close>

definition same_flags :: "'z srv_state_scheme \<Rightarrow> 'z srv_state_scheme \<Rightarrow> bool" where
  "same_flags s t \<longleftrightarrow> srv_rooms t = srv_rooms s \<and>
     (\<forall>a. map_option (\<lambda>v. (us_closed v, us_writer v)) (map_of (srv_users t) a) =
          map_option (\<lambda>v. (us_closed v, us_writer v)) (map_of (srv_users s) a))"

lemma same_flags_user:
  assumes "same_flags s t" and "map_of (srv_users s) a = Some usr"
  shows "\<exists>v. map_of (srv_users t) a = Some v \<and> us_closed v = us_closed usr \<and> us_writer v = us_writer usr"
proof -
  have "map_option (\<lambda>v. (us_closed v, us_writer v)) (map_of (srv_users t) a) = Some (us_closed usr, us_writer usr)"
    using assms by (simp add: same_flags_def)
  then show ?thesis by auto
qed

lemma same_flags_send:
  assumes "same_flags s t" and "map_of (srv_users s) a = Some usr" and "us_closed usr \<or> us_writer usr"
  shows "if us_closed usr then send_msg a m t = Panic SendOnClosedChan else \<exists>t'. send_msg a m t = Ret () t' \<and> same_flags s t'"
proof -
  obtain v where v: "map_of (srv_users t) a = Some v" "us_closed v = us_closed usr" "us_writer v = us_writer usr"
    using same_flags_user[OF assms(1,2)] by blast
  have "same_flags s (t\<lparr>srv_users := AList.update a (v\<lparr>us_out := us_out v @ [m]\<rparr>) (srv_users t)\<rparr>)"
    using assms(1,2) v by (auto simp: same_flags_def)
  with v assms(3) show ?thesis by (auto simp: send_msg_def)
qed

lemma for_members_panic:
  assumes room: "map_of (srv_rooms s) rid = Some room"
    and body: "\<And>k v t. same_flags s t \<Longrightarrow> map_of (rm_users room) k = Some v \<Longrightarrow> \<exists>m. body k v t = (if P k then send_msg v m t else Ret () t)"
    and live: "\<And>k v. P k \<Longrightarrow> map_of (rm_users room) k = Some v \<Longrightarrow> \<exists>usr. map_of (srv_users s) v = Some usr \<and> (us_closed usr \<or> us_writer usr)"
    and bad: "k \<in> set ks" "P k" "map_of (rm_users room) k = Some v" "map_of (srv_users s) v = Some usr" "us_closed usr"
    and t: "same_flags s t"
  shows "for_each (member_turn rid body) ks t = Panic SendOnClosedChan"
  using bad(1) t
proof (induction ks arbitrary: t)
  case (Cons x ks)
  have r: "map_of (srv_rooms t) rid = Some room" using Cons.prems(2) room by (simp add: same_flags_def)
  have turn: "member_turn rid body x t = (case map_of (rm_users room) x of None \<Rightarrow> Ret () t | Some w \<Rightarrow> body x w t)"
    using r by (simp add: member_turn_def bnd_def get_room_def ret_apply split: option.split)
  consider (other) "map_of (rm_users room) x = None \<or> \<not> P x"
    | (member) w where "map_of (rm_users room) x = Some w" "P x" by (cases "map_of (rm_users room) x") auto
  then show ?case
  proof cases
    case other
    have "x \<noteq> k" using other bad(2,3) by auto
    moreover have "member_turn rid body x t = Ret () t"
      using other turn body[OF Cons.prems(2)] by (force split: option.splits)
    ultimately show ?thesis using Cons by (simp add: bnd_def)
  next
    case member
    obtain us where us: "map_of (srv_users s) w = Some us" "us_closed us \<or> us_writer us" using live[OF member(2,1)] by blast
    obtain m where m: "body x w t = send_msg w m t" using body[OF Cons.prems(2) member(1)] member(2) by auto
    show ?thesis
    proof (cases "us_closed us")
      case True
      then show ?thesis using same_flags_send[OF Cons.prems(2) us, of m] turn m member(1) by (simp add: bnd_def)
    next
      case False
      then obtain t' where "send_msg w m t = Ret () t'" "same_flags s t'"
        using same_flags_send[OF Cons.prems(2) us, of m] by auto
      moreover have "x \<noteq> k" using False us(1) member(1) bad(3-5) by auto
      ultimately show ?thesis using Cons turn m member(1) by (simp add: bnd_def)
    qed
  qed
qed simp

lemma same_flags_refl: "same_flags s s"
  by (simp add: same_flags_def)

lemma handleJoin_panics:
  assumes w: "map_of (srv_users s) w = Some usr" and room: "map_of (srv_rooms s) (us_roomId usr) = Some room"
    and ord: "order_ok s"
    and live: "\<And>k v. map_of (rm_users room) k = Some v \<Longrightarrow> \<exists>usr. map_of (srv_users s) v = Some usr \<and> (us_closed usr \<or> us_writer usr)"
    and bad: "map_of (rm_users room) k = Some v" "k \<noteq> us_userId usr" "map_of (srv_users s) v = Some gone" "us_closed gone"
  shows "handleJoin w req s = Panic SendOnClosedChan"
proof -
  let ?rid = "us_roomId usr"
  let ?upd = "case req_data dec_JoinReqData zero_JoinReqData req of None \<Rightarrow> ret ()
      | Some d \<Rightarrow> upd_user w (\<lambda>v. v\<lparr>us_Device := jq_Device d, us_DisplayName := jq_DisplayName d\<rparr>)"
  obtain s1 where s1: "?upd s = Ret () s1" "same_flags s s1" "order s1 = order s" "\<exists>u1. map_of (srv_users s1) w = Some u1 \<and> us_userId u1 = us_userId usr"
    using w by (cases "req_data dec_JoinReqData zero_JoinReqData req")
      (auto simp: ret_apply upd_user_def same_flags_def)
  obtain u1 where u1: "map_of (srv_users s1) w = Some u1" "us_userId u1 = us_userId usr" using s1(4) by blast
  let ?body = "\<lambda>k v. if k = us_userId u1 then ret () else bnd (get_user w) (\<lambda>usr'. NotifyNewPeer v \<lparr>pd_Peer = peer_of usr'\<rparr>)"
  let ?ks = "order s1 0 (keys (rm_users room))"
  have r1: "map_of (srv_rooms s1) ?rid = Some room" using s1(2) room by (simp add: same_flags_def)
  have k: "k \<in> set ?ks" using bad(1) order_ok_set[OF ord] s1(3) by (auto simp: in_keys_iff)
  have shift: "same_flags s (s1\<lparr>order := \<lambda>i. order s1 (Suc i)\<rparr>)" using s1(2) by (simp add: same_flags_def)
  have body: "\<exists>m. ?body k v t = (if k \<noteq> us_userId usr then send_msg v m t else Ret () t)" if "same_flags s t" for k v t
    using same_flags_user[OF that w] u1(2) by (auto simp: bnd_def get_user_def NotifyNewPeer_def ret_apply)
  have "for_each (member_turn ?rid ?body) ?ks (s1\<lparr>order := \<lambda>i. order s1 (Suc i)\<rparr>) = Panic SendOnClosedChan"
    by (rule for_members_panic[where s = s and P = "\<lambda>k. k \<noteq> us_userId usr", OF room _ _ k bad(2,1,3,4) shift])
      (use body live in blast)+
  then have "NotifyOtherUsers ?rid w s1 = Panic SendOnClosedChan"
    using u1(1) r1
    by (simp add: NotifyOtherUsers_def range_users_turns bnd_def get_user_def get_room_def range_keys_def)
  with w room s1(1) show ?thesis
    by (simp add: handleJoin_def bnd_def get_user_def GetOrCreateRoom_def rd_apply ret_apply)
qed

text \<open>
  C15. A disconnection is not atomic, and between its halves a join crashes the server: when \<^verbatim>\<open>Run\<close> has closed
  the channel of a leaving member but not yet taken it out of its room, a join of another member of that room
  sends on the closed channel, which panics.
\<close>

theorem close_races_with_join:
  assumes "reach sig_init sig_step s" and "all_writing s"
    and "map_of (srv_users s) u = Some leaving" and "map_of (srv_users s) w = Some usr"
    and "map_of (srv_rooms s) (us_roomId usr) = Some room" and "map_of (rm_users room) (us_userId leaving) = Some u"
    and "us_userId usr \<noteq> us_userId leaving"
  shows "Run_Unregister u s = bnd (Run_Unregister_begin u) (\<lambda>ok. if ok then Run_Unregister_leave u else ret ()) s \<and>
    (\<exists>t. Run_Unregister_begin u s = Ret True t \<and> handleJoin w req t = Panic SendOnClosedChan)"
proof -
  note s = sig.reach_invar[OF assms(1)]
  let ?t = "unregistered u leaving s"
  have u: "u \<in> set (ws_users s)" "\<not> us_closed leaving" using room_member[OF s assms(5,6)] assms(3) by auto
  have "u \<noteq> w" using assms(3,4,7) by auto
  have begin_u: "Run_Unregister_begin u s = Ret True ?t"
    using u assms(3) by (simp add: Run_Unregister_begin_def close_sendMsg_def unregistered_def go_eval get_user_def upd_user_def)
  have "handleJoin w req ?t = Panic SendOnClosedChan"
  proof (rule handleJoin_panics[where usr = usr and room = room and k = "us_userId leaving" and v = u and gone = "leaving\<lparr>us_closed := True\<rparr>"])
    show "\<exists>usr. map_of (srv_users ?t) v = Some usr \<and> (us_closed usr \<or> us_writer usr)" if "map_of (rm_users room) k = Some v" for k v
      using room_member[OF s assms(5) that] assms(2) by (auto simp: unregistered_def all_writing_def)
    show "order_ok ?t" using srv_okD(2)[OF s] by (simp add: unregistered_def order_ok_def)
  qed (use assms(3-7) \<open>u \<noteq> w\<close> in \<open>auto simp: unregistered_def\<close>)
  with begin_u show ?thesis by (simp add: Run_Unregister_halves)
qed

subsection \<open>On the concrete run\<close>

theorem session_ends_unregistered_witness:
  "\<exists>t. ReadMessage 0 [TextFrame (Some caps_request), TextFrame None, ReadError] sig_bob = Ret () t \<and> ws_users t = [1]"
proof -
  have "\<exists>t. ReadMessage 0 (map TextFrame [Some caps_request, None] @ [ReadError]) sig_bob = Ret () t"
    using session_ends_unregistered[OF sig_bob_reach sig_bob_writing, of 0 "[Some caps_request, None]"] bob_alice bob_room
    by (simp add: sig_bob_facts leave_def local_message_def caps_request_def)
  with session_ends_unregistered[OF sig_bob_reach sig_bob_writing, of 0 "[Some caps_request, None]"] show ?thesis
    by (auto simp: sig_bob_facts)
qed

theorem close_races_with_join_witness:
  "\<exists>t. Run_Unregister_begin 0 sig_bob = Ret True t \<and> handleJoin 1 caps_request t = Panic SendOnClosedChan"
  using close_races_with_join[OF sig_bob_reach sig_bob_writing bob_alice, of 1 "demo_user ''user_5'' ''bob'' ''b''"
      "demo_room [(''user_1'', 0), (''user_5'', 1)]" caps_request]
  by (simp add: sig_bob_facts)

end
