(* ===== verification/Availability.thy ===== *)
theory Availability
  imports Session_Run
begin

section \<open>Connections without a gRPC server or a worker (wssServer.go, roomManager.go, grpcServer.go)\<close>

text \<open>
  The WebSocket server accepts connections from its start on. What a connection to a new room meets while the
  gRPC server is not set up, and while it is but no worker has registered.
\<close>

lemma choose_no_worker:
  assumes "order_ok s" and "wm_workers (rtc_wm s) = []"
  shows "choose_worker s = Ret None (s\<lparr>clock := \<lambda>i. clock s (Suc i), order := \<lambda>i. order s (Suc i)\<rparr>)"
proof -
  have "order s 0 [] = []" using order_okD[OF assms(1), of 0 "[]"] by simp
  with assms(2) show ?thesis
    by (simp add: choose_worker_def go_eval time_Now_def range_keys_def keys_def ChooseBestWorker_def GetOnlineWorkers_def
        List.map_filter_simps)
qed

lemma no_worker_no_room:
  assumes "order_ok s" and "wm_workers (rtc_wm s) = []" and "gRtcServer s" and "map_of (srv_rooms s) rid = None"
  shows "GetOrCreateRoom rid s = Ret False (s\<lparr>clock := \<lambda>i. clock s (Suc i), order := \<lambda>i. order s (Suc i)\<rparr>)"
  using assms(3,4) choose_no_worker[OF assms(1,2)]
  by (simp add: GetOrCreateRoom_def NewRoom_def CreateRouterOnWorker_def go_eval)

lemma no_server_no_room:
  assumes "\<not> gRtcServer s" and "map_of (srv_rooms s) rid = None"
  shows "GetOrCreateRoom rid s = Panic NilDeref"
  using assms by (simp add: GetOrCreateRoom_def NewRoom_def go_eval)

lemma reach_no_rooms:
  assumes "reach sig_init sig_step s" and "\<not> gRtcServer s"
  shows "map_of (srv_rooms s) rid = None"
  using srv_okD(4)[OF sig.reach_invar[OF assms(1)], of rid] assms(2) by (cases "map_of (srv_rooms s) rid") (auto simp: room_ok_def)

lemma HandleWebSocket_connects:
  assumes "fresh (srv_users s) \<notin> set (ws_users s)"
  obtains t usr where
    "HandleWebSocket rid peerId addr s = bnd (GetOrCreateRoom rid)
       (\<lambda>room. bnd (if room then AddUser rid (fresh (srv_users s)) else ret ()) (\<lambda>_. ret (fresh (srv_users s)))) t"
    "ws_users t = ws_users s @ [fresh (srv_users s)]" "srv_rooms t = srv_rooms s" "gRtcServer t = gRtcServer s"
    "rtc_wm t = rtc_wm s" "order t = order s" "map_of (srv_users t) (fresh (srv_users s)) = Some usr" "us_roomId usr = rid"
proof -
  let ?u = "fresh (srv_users s)"
  let ?usr = "\<lparr>us_userId = ''user_'' @ itoa (clock s 0), us_PeerId = peerId, us_DisplayName = '''',
     us_createTs = clock s 1 div 1000000000, us_roomId = rid, us_Device = None, us_RemoteAddress = addr,
     us_reqId = of_nat (rnd s 0 mod 1000000), us_newDataConsumerReq = False, us_closed = False, us_writer = True, us_conn = True,
     us_out = []\<rparr>"
  let ?t = "s\<lparr>clock := \<lambda>i. clock s (Suc (Suc i)), rnd := \<lambda>i. rnd s (Suc i), srv_users := AList.update ?u ?usr (srv_users s),
     ws_users := ws_users s @ [?u]\<rparr>"
  show thesis
    by (rule that[of ?t ?usr])
      (use assms in \<open>simp_all add: HandleWebSocket_def Run_Register_def rand_Intn_def draw_def time_Now_def get_user_def go_eval
        split: outcome.split\<close>)
qed

text \<open>
  C16. A connection needs the gRPC server, and a join needs a worker. In every state the server reaches before the gRPC
  server is set up, which is for good when its listen fails, a connection to any room dereferences nil in \<^verbatim>\<open>Run\<close>. After
  it, and as long as no worker is registered, a connection to a new room succeeds and registers the user, no room is
  created, and a join of that user dereferences the missing room.
\<close>

theorem connect_without_worker:
  assumes "reach sig_init sig_step s"
  shows "(\<not> gRtcServer s \<longrightarrow> HandleWebSocket rid peerId addr s = Panic NilDeref) \<and>
    (gRtcServer s \<and> wm_workers (rtc_wm s) = [] \<and> map_of (srv_rooms s) rid = None \<longrightarrow>
      (\<exists>u t. HandleWebSocket rid peerId addr s = Ret u t \<and> ws_users t = ws_users s @ [u] \<and> srv_rooms t = srv_rooms s \<and>
        (\<forall>req. handleJoin u req t = Panic NilDeref)))"
proof (intro conjI impI)
  note ok = sig.reach_invar[OF assms]
  let ?u = "fresh (srv_users s)"
  have new: "?u \<notin> set (ws_users s)" using srv_okD(5)[OF ok, of ?u] fresh_new[of "srv_users s"] by auto
  obtain t usr where run: "HandleWebSocket rid peerId addr s = bnd (GetOrCreateRoom rid)
       (\<lambda>room. bnd (if room then AddUser rid ?u else ret ()) (\<lambda>_. ret ?u)) t"
    and t: "ws_users t = ws_users s @ [?u]" "srv_rooms t = srv_rooms s" "gRtcServer t = gRtcServer s"
      "rtc_wm t = rtc_wm s" "order t = order s" "map_of (srv_users t) ?u = Some usr" "us_roomId usr = rid"
    by (rule HandleWebSocket_connects[OF new])
  show "HandleWebSocket rid peerId addr s = Panic NilDeref" if "\<not> gRtcServer s"
    using no_server_no_room[of t rid] reach_no_rooms[OF assms that] that t by (simp add: run go_eval)
  assume idle: "gRtcServer s \<and> wm_workers (rtc_wm s) = [] \<and> map_of (srv_rooms s) rid = None"
  let ?t = "t\<lparr>clock := \<lambda>i. clock t (Suc i), order := \<lambda>i. order t (Suc i)\<rparr>"
  have order: "order_ok t" "order_ok ?t" using srv_okD(2)[OF ok] t(5) by (simp_all add: order_ok_def)
  have "HandleWebSocket rid peerId addr s = Ret ?u ?t"
    using no_worker_no_room[of t rid] order(1) idle t by (simp add: run go_eval)
  moreover have "handleJoin ?u req ?t = Panic NilDeref" for req
    using no_worker_no_room[of ?t rid] order(2) idle t by (simp add: handleJoin_def get_user_def go_eval)
  ultimately show "\<exists>u t. HandleWebSocket rid peerId addr s = Ret u t \<and> ws_users t = ws_users s @ [u] \<and> srv_rooms t = srv_rooms s \<and>
      (\<forall>req. handleJoin u req t = Panic NilDeref)"
    using t(1,2) by auto
qed

theorem connect_without_worker_witness:
  "HandleWebSocket ''r'' ''alice'' ''a'' sig_boot = Panic NilDeref \<and>
   (\<exists>u t. HandleWebSocket ''r'' ''alice'' ''a'' sig_up = Ret u t \<and> handleJoin u caps_request t = Panic NilDeref)"
  using connect_without_worker[OF sig_boot_reach, of "''r''" "''alice''" "''a''"]
    connect_without_worker[OF sig_up_reach, of "''r''" "''alice''" "''a''"]
  by (auto simp: sig_up_eq sig_boot_def NewWorkerManager_def)

end
