(* ===== verification/Req_Queue.thy ===== *)
theory Req_Queue
  imports Util
begin

section \<open>Callback requests and their retry queue (httpClient.go, httpReqQueue.go)\<close>

text \<open>
  \<^verbatim>\<open>sendPost\<close> posts a JSON body; \<^verbatim>\<open>ExecuteRequest\<close> puts a request that failed into a queue, and the
  goroutine \<^verbatim>\<open>DealTimeoutReq\<close> takes requests from its front, tries them again and appends those that fail.
  The package \<^verbatim>\<open>encoding/json\<close> and the URL parser of \<^verbatim>\<open>net/http\<close> enter as an argument, since the source does
  not fix the type of the data; what the network answers to the next posts is a stream inside the state,
  and \<open>rq_posts\<close> records the requests handed to the network with what came of them. A nil interface is \<open>None\<close>.
\<close>

subsection \<open>The client\<close>

record HttpReqMgr =
  maxIdleConns :: go_int
  maxIdleConnsPerHost :: go_int
  maxConnsPerHost :: go_int

definition NewHttpReqMgr :: HttpReqMgr where
  "NewHttpReqMgr = \<lparr>maxIdleConns = 100, maxIdleConnsPerHost = 2, maxConnsPerHost = 0\<rparr>"

text \<open>
  \<^verbatim>\<open>client.Do\<close> fails, by a timeout or otherwise; or it returns a response with a status whose body cannot
  be read, or can.
\<close>

datatype http_result = DoError bool | BodyError int | HttpResponse int

record 'd http_lib =
  lib_Marshal :: "'d option \<Rightarrow> string option"
  lib_NewRequest :: "string \<Rightarrow> bool"

record 'd Request =
  rq_url :: string
  rq_data :: "'d option"
  rq_tryTimes :: go_int

record 'd ReqQueue = env_state +
  rq_queue :: "'d Request list"
  rq_httpClient :: HttpReqMgr
  rq_net :: "nat \<Rightarrow> string \<Rightarrow> string \<Rightarrow> http_result"
  rq_posts :: "(string \<times> string \<times> http_result) list"

definition http_Do :: "string \<Rightarrow> string \<Rightarrow> (http_result, ('d, 'z) ReqQueue_scheme) go" where
  "http_Do url body s =
     Ret (rq_net s 0 url body)
       (s\<lparr>rq_net := \<lambda>i. rq_net s (Suc i), rq_posts := rq_posts s @ [(url, body, rq_net s 0 url body)]\<rparr>)"

definition sendPost :: "'d http_lib \<Rightarrow> string \<Rightarrow> 'd option \<Rightarrow> (go_int, ('d, 'z) ReqQueue_scheme) go" where
  "sendPost lib url data =
     bnd (RandString 16) (\<lambda>traceId.
     case lib_Marshal lib data of
       None \<Rightarrow> ret 0
     | Some bytesData \<Rightarrow>
         if \<not> lib_NewRequest lib url then panic NilDeref
         else bnd (http_Do url bytesData) (\<lambda>response.
           case response of
             DoError timeout \<Rightarrow> ret (- 1)
           | BodyError status \<Rightarrow> ret (- 1)
           | HttpResponse status \<Rightarrow> if status \<noteq> 200 then ret (- 1) else ret 0))"

subsection \<open>The queue\<close>

definition NewReqQueue :: "('d, 'z) ReqQueue_scheme \<Rightarrow> ('d, 'z) ReqQueue_scheme" where
  "NewReqQueue s = s\<lparr>rq_queue := [], rq_httpClient := NewHttpReqMgr\<rparr>"

definition PushRequest :: "string \<Rightarrow> 'd option \<Rightarrow> (unit, ('d, 'z) ReqQueue_scheme) go" where
  "PushRequest rurl ldata =
     wr (\<lambda>s. s\<lparr>rq_queue := rq_queue s @ [\<lparr>rq_url = rurl, rq_data = ldata, rq_tryTimes = 0\<rparr>]\<rparr>)"

definition PopRequest :: "('d Request, ('d, 'z) ReqQueue_scheme) go" where
  "PopRequest =
     bnd (rd rq_queue) (\<lambda>queue.
     if 0 < length queue then
       bnd (wr (\<lambda>s. s\<lparr>rq_queue := take 0 queue @ drop 1 queue\<rparr>)) (\<lambda>_.
       ret \<lparr>rq_url = rq_url (queue ! 0), rq_data = rq_data (queue ! 0), rq_tryTimes = 0\<rparr>)
     else ret \<lparr>rq_url = '''', rq_data = None, rq_tryTimes = 0\<rparr>)"

definition ExecuteRequest :: "'d http_lib \<Rightarrow> string \<Rightarrow> 'd option \<Rightarrow> (unit, ('d, 'z) ReqQueue_scheme) go" where
  "ExecuteRequest lib url data =
     bnd (sendPost lib url data) (\<lambda>r. if r \<noteq> 0 then PushRequest url data else ret ())"

text \<open>One turn of the endless loop of \<^verbatim>\<open>DealTimeoutReq\<close>, and the first \<open>n\<close> turns of it.\<close>

definition DealTimeoutReq_turn :: "'d http_lib \<Rightarrow> (unit, ('d, 'z) ReqQueue_scheme) go" where
  "DealTimeoutReq_turn lib =
     bnd PopRequest (\<lambda>request.
     if 0 < length (rq_url request) then
       bnd (sendPost lib (rq_url request) (rq_data request)) (\<lambda>r.
       if r \<noteq> 0 then PushRequest (rq_url request) (rq_data request) else ret ())
     else ret ())"

primrec DealTimeoutReq :: "'d http_lib \<Rightarrow> nat \<Rightarrow> (unit, ('d, 'z) ReqQueue_scheme) go" where
  "DealTimeoutReq lib 0 = ret ()"
| "DealTimeoutReq lib (Suc n) = bnd (DealTimeoutReq_turn lib) (\<lambda>_. DealTimeoutReq lib n)"

subsection \<open>What a post returns\<close>

text \<open>The requests \<^verbatim>\<open>http.NewRequest\<close> accepts, and the answers that count as delivered.\<close>

definition sendable :: "'d http_lib \<Rightarrow> string \<Rightarrow> 'd option \<Rightarrow> bool" where
  "sendable lib url data \<longleftrightarrow> lib_Marshal lib data \<noteq> None \<and> lib_NewRequest lib url"

fun accepted :: "http_result \<Rightarrow> bool" where
  "accepted (HttpResponse status) \<longleftrightarrow> status = 200"
| "accepted (DoError _) \<longleftrightarrow> False"
| "accepted (BodyError _) \<longleftrightarrow> False"

lemma accepted_iff: "accepted x \<longleftrightarrow> x = HttpResponse 200"
  by (cases x) auto

definition body_of :: "'d http_lib \<Rightarrow> 'd option \<Rightarrow> string" where
  "body_of lib data = the (lib_Marshal lib data)"

definition posted :: "string \<Rightarrow> string \<Rightarrow> ('d, 'z) ReqQueue_scheme \<Rightarrow> ('d, 'z) ReqQueue_scheme" where
  "posted url body s = s\<lparr>rnd := \<lambda>i. rnd s (i + 16), rq_net := \<lambda>i. rq_net s (Suc i),
     rq_posts := rq_posts s @ [(url, body, rq_net s 0 url body)]\<rparr>"

lemma posted_sel [simp]:
  "rq_queue (posted url body s) = rq_queue s" "rq_posts (posted url body s) = rq_posts s @ [(url, body, rq_net s 0 url body)]"
  "rq_net (posted url body s) = (\<lambda>i. rq_net s (Suc i))"
  by (simp_all add: posted_def)

lemma sendPost_sendable:
  assumes "sendable lib url data"
  shows "sendPost lib url data s =
    Ret (if accepted (rq_net s 0 url (body_of lib data)) then 0 else - 1) (posted url (body_of lib data) s)"
proof -
  obtain b where b: "lib_Marshal lib data = Some b" "lib_NewRequest lib url"
    using assms by (auto simp: sendable_def)
  then show ?thesis
    by (cases "rq_net s 0 url b")
      (simp_all add: sendPost_def go_eval RandString_eq http_Do_def body_of_def posted_def)
qed

lemma sendPost_cases:
  "sendPost lib url data s =
     (if lib_Marshal lib data = None then Ret 0 (s\<lparr>rnd := \<lambda>i. rnd s (i + 16)\<rparr>)
      else if \<not> lib_NewRequest lib url then Panic NilDeref
      else Ret (if accepted (rq_net s 0 url (body_of lib data)) then 0 else - 1) (posted url (body_of lib data) s))"
proof (cases "sendable lib url data")
  case True
  then show ?thesis by (auto simp: sendPost_sendable sendable_def)
next
  case False
  then show ?thesis by (auto simp: sendPost_def sendable_def go_eval RandString_eq)
qed

lemma PopRequest_Cons:
  "rq_queue s = r # q \<Longrightarrow>
     PopRequest s = Ret \<lparr>rq_url = rq_url r, rq_data = rq_data r, rq_tryTimes = 0\<rparr> (s\<lparr>rq_queue := q\<rparr>)"
  by (simp add: PopRequest_def go_eval)

lemma PopRequest_Nil: "rq_queue s = [] \<Longrightarrow> PopRequest s = Ret \<lparr>rq_url = '''', rq_data = None, rq_tryTimes = 0\<rparr> s"
  by (simp add: PopRequest_def go_eval)


subsection \<open>One round of the retry loop\<close>

text \<open>The posts of a round with what the network makes of them, and the requests the round leaves behind.\<close>

definition again :: "'d Request \<Rightarrow> 'd Request" where
  "again r = \<lparr>rq_url = rq_url r, rq_data = rq_data r, rq_tryTimes = 0\<rparr>"

fun round_posts ::
  "'d http_lib \<Rightarrow> (nat \<Rightarrow> string \<Rightarrow> string \<Rightarrow> http_result) \<Rightarrow> 'd Request list \<Rightarrow> (string \<times> string \<times> http_result) list" where
  "round_posts lib net [] = []"
| "round_posts lib net (r # rs) =
     (rq_url r, body_of lib (rq_data r), net 0 (rq_url r) (body_of lib (rq_data r))) # round_posts lib (\<lambda>i. net (Suc i)) rs"

fun rejected :: "'d http_lib \<Rightarrow> (nat \<Rightarrow> string \<Rightarrow> string \<Rightarrow> http_result) \<Rightarrow> 'd Request list \<Rightarrow> 'd Request list" where
  "rejected lib net [] = []"
| "rejected lib net (r # rs) =
     (if accepted (net 0 (rq_url r) (body_of lib (rq_data r))) then [] else [again r]) @ rejected lib (\<lambda>i. net (Suc i)) rs"

definition has_url :: "'d Request \<Rightarrow> bool" where
  "has_url r \<longleftrightarrow> rq_url r \<noteq> ''''"

lemma DealTimeoutReq_turn_post:
  assumes "rq_queue s = r # q" and "has_url r" and "sendable lib (rq_url r) (rq_data r)"
  shows "DealTimeoutReq_turn lib s = Ret () ((posted (rq_url r) (body_of lib (rq_data r)) s)\<lparr>rq_queue :=
    q @ (if accepted (rq_net s 0 (rq_url r) (body_of lib (rq_data r))) then [] else [again r])\<rparr>)"
  using assms
  by (auto simp: DealTimeoutReq_turn_def bnd_def PopRequest_Cons sendPost_sendable has_url_def PushRequest_def
      again_def posted_def ret_apply wr_apply)

lemma DealTimeoutReq_turn_drop:
  "rq_queue s = r # q \<Longrightarrow> \<not> has_url r \<Longrightarrow> DealTimeoutReq_turn lib s = Ret () (s\<lparr>rq_queue := q\<rparr>)"
  by (simp add: DealTimeoutReq_turn_def bnd_def PopRequest_Cons has_url_def ret_apply)

lemma DealTimeoutReq_rounds:
  assumes "rq_queue s = q @ tl'" and "\<forall>r \<in> set q. sendable lib (rq_url r) (rq_data r)"
  shows "\<exists>t. DealTimeoutReq lib (length q) s = Ret () t \<and>
    rq_posts t = rq_posts s @ round_posts lib (rq_net s) (filter has_url q) \<and>
    rq_queue t = tl' @ rejected lib (rq_net s) (filter has_url q)"
  using assms
proof (induction q arbitrary: s tl')
  case Nil
  then show ?case by (simp add: ret_apply)
next
  case (Cons r q)
  show ?case
  proof (cases "has_url r")
    case True
    let ?p = "accepted (rq_net s 0 (rq_url r) (body_of lib (rq_data r)))"
    let ?s = "(posted (rq_url r) (body_of lib (rq_data r)) s)\<lparr>rq_queue := q @ tl' @ (if ?p then [] else [again r])\<rparr>"
    have turn: "DealTimeoutReq_turn lib s = Ret () ?s"
      using DealTimeoutReq_turn_post[of s r "q @ tl'" lib] Cons.prems True by simp
    obtain t where "DealTimeoutReq lib (length q) ?s = Ret () t"
        "rq_posts t = rq_posts ?s @ round_posts lib (rq_net ?s) (filter has_url q)"
        "rq_queue t = (tl' @ (if ?p then [] else [again r])) @ rejected lib (rq_net ?s) (filter has_url q)"
      using Cons.IH[of ?s "tl' @ (if ?p then [] else [again r])"] Cons.prems(2) by auto
    with turn True show ?thesis by (simp add: bnd_def)
  next
    case False
    then have "DealTimeoutReq_turn lib s = Ret () (s\<lparr>rq_queue := q @ tl'\<rparr>)"
      using DealTimeoutReq_turn_drop[of s r "q @ tl'"] Cons.prems(1) by simp
    with False Cons.IH[of "s\<lparr>rq_queue := q @ tl'\<rparr>" tl'] Cons.prems(2) show ?thesis by (simp add: bnd_def)
  qed
qed

lemma rejected_Nil_iff:
  "rejected lib net q = [] \<longleftrightarrow> (\<forall>i < length q. accepted (net i (rq_url (q ! i)) (body_of lib (rq_data (q ! i)))))"
proof (induction q arbitrary: net)
  case (Cons r q)
  then show ?case by (auto simp: nth_Cons less_Suc_eq_0_disj split: nat.splits)
qed simp

subsection \<open>The retry loop beside the callers\<close>

text \<open>
  \<^verbatim>\<open>PushRequest\<close> and \<^verbatim>\<open>PopRequest\<close> hold the mutex of the queue; between them a caller of
  \<^verbatim>\<open>ExecuteRequest\<close> or the retry loop holds its request in local variables. \<open>ob_failed\<close> holds the requests of the
  callers between the failed post and \<^verbatim>\<open>PushRequest\<close>, \<open>ob_pc\<close> the place of the retry loop with its request;
  \<open>ob_submitted\<close> and \<open>ob_done\<close> are the history: the requests given to \<^verbatim>\<open>ExecuteRequest\<close> and those for
  which \<^verbatim>\<open>sendPost\<close> returned 0.
\<close>

type_synonym 'd callback = "string \<times> 'd option"

datatype 'd deal_pc = AtPop | AtPost "'d callback" | AtPush "'d callback"

record 'd outbox =
  ob_queue :: "'d ReqQueue"
  ob_pc :: "'d deal_pc"
  ob_failed :: "'d callback multiset"
  ob_submitted :: "'d callback multiset"
  ob_done :: "'d callback multiset"

inductive outbox_step :: "'d http_lib \<Rightarrow> 'd outbox \<Rightarrow> 'd outbox \<Rightarrow> bool" for lib where
  execute_ok: "sendPost lib url data (ob_queue s) = Ret 0 q \<Longrightarrow>
    outbox_step lib s (s\<lparr>ob_queue := q, ob_submitted := add_mset (url, data) (ob_submitted s),
      ob_done := add_mset (url, data) (ob_done s)\<rparr>)"
| execute_failed: "sendPost lib url data (ob_queue s) = Ret r q \<Longrightarrow> r \<noteq> 0 \<Longrightarrow>
    outbox_step lib s (s\<lparr>ob_queue := q, ob_submitted := add_mset (url, data) (ob_submitted s),
      ob_failed := add_mset (url, data) (ob_failed s)\<rparr>)"
| execute_push: "ob_failed s = add_mset (url, data) m \<Longrightarrow> PushRequest url data (ob_queue s) = Ret () q \<Longrightarrow>
    outbox_step lib s (s\<lparr>ob_queue := q, ob_failed := m\<rparr>)"
| deal_pop: "ob_pc s = AtPop \<Longrightarrow> PopRequest (ob_queue s) = Ret r q \<Longrightarrow> 0 < length (rq_url r) \<Longrightarrow>
    outbox_step lib s (s\<lparr>ob_queue := q, ob_pc := AtPost (rq_url r, rq_data r)\<rparr>)"
| deal_idle: "ob_pc s = AtPop \<Longrightarrow> PopRequest (ob_queue s) = Ret r q \<Longrightarrow> \<not> 0 < length (rq_url r) \<Longrightarrow>
    outbox_step lib s (s\<lparr>ob_queue := q\<rparr>)"
| deal_ok: "ob_pc s = AtPost (url, data) \<Longrightarrow> sendPost lib url data (ob_queue s) = Ret 0 q \<Longrightarrow>
    outbox_step lib s (s\<lparr>ob_queue := q, ob_pc := AtPop, ob_done := add_mset (url, data) (ob_done s)\<rparr>)"
| deal_failed: "ob_pc s = AtPost (url, data) \<Longrightarrow> sendPost lib url data (ob_queue s) = Ret r q \<Longrightarrow> r \<noteq> 0 \<Longrightarrow>
    outbox_step lib s (s\<lparr>ob_queue := q, ob_pc := AtPush (url, data)\<rparr>)"
| deal_push: "ob_pc s = AtPush (url, data) \<Longrightarrow> PushRequest url data (ob_queue s) = Ret () q \<Longrightarrow>
    outbox_step lib s (s\<lparr>ob_queue := q, ob_pc := AtPop\<rparr>)"

definition outbox_init :: "'d outbox \<Rightarrow> bool" where
  "outbox_init s \<longleftrightarrow> rq_queue (ob_queue s) = [] \<and> rq_posts (ob_queue s) = [] \<and> ob_pc s = AtPop \<and> ob_failed s = {#} \<and>
     ob_submitted s = {#} \<and> ob_done s = {#}"

text \<open>
  Run without interference, \<^verbatim>\<open>ExecuteRequest\<close> and a turn of \<^verbatim>\<open>DealTimeoutReq\<close> are sequences of these steps, so the steps
  are the two functions, cut where other goroutines may run.
\<close>

lemma two_steps: "r a b \<Longrightarrow> r b c \<Longrightarrow> r\<^sup>*\<^sup>* a c"
  by auto

lemma ExecuteRequest_steps:
  assumes "ExecuteRequest lib url data (ob_queue s) = Ret () q"
  shows "\<exists>d. (outbox_step lib)\<^sup>*\<^sup>* s (s\<lparr>ob_queue := q, ob_submitted := add_mset (url, data) (ob_submitted s), ob_done := d\<rparr>)"
proof -
  obtain r q1 where post: "sendPost lib url data (ob_queue s) = Ret r q1"
    and rest: "(if r \<noteq> 0 then PushRequest url data else ret ()) q1 = Ret () q"
    using assms by (auto simp: ExecuteRequest_def bnd_def split: outcome.splits)
  show ?thesis
  proof (cases "r = 0")
    case True
    with execute_ok[of lib url data s q1] post rest show ?thesis by (auto simp: ret_apply intro!: r_into_rtranclp)
  next
    case False
    let ?t = "s\<lparr>ob_queue := q1, ob_submitted := add_mset (url, data) (ob_submitted s), ob_failed := add_mset (url, data) (ob_failed s)\<rparr>"
    have "outbox_step lib s ?t" by (rule execute_failed[OF post False])
    moreover have "outbox_step lib ?t (?t\<lparr>ob_queue := q, ob_failed := ob_failed s\<rparr>)"
      by (rule execute_push[of _ url data]) (use rest False in simp_all)
    ultimately have "(outbox_step lib)\<^sup>*\<^sup>* s (?t\<lparr>ob_queue := q, ob_failed := ob_failed s\<rparr>)" by (rule two_steps)
    then show ?thesis by (intro exI[of _ "ob_done s"]) (cases s; simp)
  qed
qed

lemma DealTimeoutReq_turn_steps:
  assumes "DealTimeoutReq_turn lib (ob_queue s) = Ret () q" and pc: "ob_pc s = AtPop"
  shows "\<exists>d. (outbox_step lib)\<^sup>*\<^sup>* s (s\<lparr>ob_queue := q, ob_done := d\<rparr>)"
proof -
  obtain x q1 where pop: "PopRequest (ob_queue s) = Ret x q1"
    using assms(1) by (auto simp: DealTimeoutReq_turn_def bnd_def split: outcome.splits)
  show ?thesis
  proof (cases "rq_url x = ''''")
    case True
    then have "q = q1" using assms(1) pop by (simp add: DealTimeoutReq_turn_def bnd_def ret_apply)
    with True deal_idle[OF pc pop] show ?thesis by (intro exI[of _ "ob_done s"]) (simp add: r_into_rtranclp)
  next
    case False
    let ?t = "s\<lparr>ob_queue := q1, ob_pc := AtPost (rq_url x, rq_data x)\<rparr>"
    have first: "outbox_step lib s ?t" using deal_pop[OF pc pop] False by simp
    obtain r q2 where post: "sendPost lib (rq_url x) (rq_data x) q1 = Ret r q2"
      and rest: "(if r \<noteq> 0 then PushRequest (rq_url x) (rq_data x) else ret ()) q2 = Ret () q"
      using assms(1) pop False by (auto simp: DealTimeoutReq_turn_def bnd_def split: outcome.splits)
    show ?thesis
    proof (cases "r = 0")
      case True
      have "outbox_step lib ?t (?t\<lparr>ob_queue := q, ob_pc := AtPop, ob_done := add_mset (rq_url x, rq_data x) (ob_done ?t)\<rparr>)"
        by (rule deal_ok) (use post rest True in \<open>simp_all add: ret_apply\<close>)
      with first have "(outbox_step lib)\<^sup>*\<^sup>* s (?t\<lparr>ob_queue := q, ob_pc := AtPop, ob_done := add_mset (rq_url x, rq_data x) (ob_done ?t)\<rparr>)"
        by (rule two_steps)
      with pc show ?thesis by (intro exI[of _ "add_mset (rq_url x, rq_data x) (ob_done s)"]) (cases s; simp)
    next
      case r: False
      let ?v = "?t\<lparr>ob_queue := q2, ob_pc := AtPush (rq_url x, rq_data x)\<rparr>"
      have "outbox_step lib ?t ?v" by (rule deal_failed[of _ _ _ _ r]) (use post r in simp_all)
      moreover have "outbox_step lib ?v (?v\<lparr>ob_queue := q, ob_pc := AtPop\<rparr>)"
        by (rule deal_push[of _ "rq_url x" "rq_data x"]) (use rest r in simp_all)
      ultimately have "(outbox_step lib)\<^sup>*\<^sup>* s (?v\<lparr>ob_queue := q, ob_pc := AtPop\<rparr>)" using first by (blast intro: converse_rtranclp_into_rtranclp two_steps)
      with pc show ?thesis by (intro exI[of _ "ob_done s"]) (cases s; simp)
    qed
  qed
qed

text \<open>
  What the component promises: a bag of open callbacks and a log of posts. An open callback whose data can be marshalled
  is posted; it leaves the bag as done exactly when the post is accepted. Without a post a callback leaves the bag only
  when its data cannot be marshalled or its URL is empty.
\<close>

record 'd mailbox =
  mb_open :: "'d callback multiset"
  mb_submitted :: "'d callback multiset"
  mb_done :: "'d callback multiset"
  mb_posts :: "(string \<times> string \<times> http_result) list"

definition mailbox_init :: "'d mailbox \<Rightarrow> bool" where
  "mailbox_init m \<longleftrightarrow> mb_open m = {#} \<and> mb_submitted m = {#} \<and> mb_done m = {#} \<and> mb_posts m = []"

inductive mailbox_step :: "'d http_lib \<Rightarrow> 'd mailbox \<Rightarrow> 'd mailbox \<Rightarrow> bool" for lib where
  mb_submit: "mailbox_step lib m (m\<lparr>mb_open := add_mset x (mb_open m), mb_submitted := add_mset x (mb_submitted m)\<rparr>)"
| mb_deliver: "mb_open m = add_mset (url, data) xs \<Longrightarrow> lib_Marshal lib data = Some body \<Longrightarrow> accepted answer \<Longrightarrow>
    mailbox_step lib m (m\<lparr>mb_open := xs, mb_done := add_mset (url, data) (mb_done m), mb_posts := mb_posts m @ [(url, body, answer)]\<rparr>)"
| mb_refused: "(url, data) \<in># mb_open m \<Longrightarrow> lib_Marshal lib data = Some body \<Longrightarrow> \<not> accepted answer \<Longrightarrow>
    mailbox_step lib m (m\<lparr>mb_posts := mb_posts m @ [(url, body, answer)]\<rparr>)"
| mb_unsendable: "mb_open m = add_mset (url, data) xs \<Longrightarrow> lib_Marshal lib data = None \<Longrightarrow>
    mailbox_step lib m (m\<lparr>mb_open := xs, mb_done := add_mset (url, data) (mb_done m)\<rparr>)"
| mb_discard: "mb_open m = add_mset x xs \<Longrightarrow> fst x = '''' \<Longrightarrow> mailbox_step lib m (m\<lparr>mb_open := xs\<rparr>)"

fun held :: "'d deal_pc \<Rightarrow> 'd callback multiset" where
  "held AtPop = {#}"
| "held (AtPost x) = {#x#}"
| "held (AtPush x) = {#x#}"

definition queued :: "('d, 'z) ReqQueue_scheme \<Rightarrow> 'd callback multiset" where
  "queued q = mset (map (\<lambda>r. (rq_url r, rq_data r)) (rq_queue q))"

definition mailbox_of :: "'d outbox \<Rightarrow> 'd mailbox" where
  "mailbox_of s = \<lparr>mb_open = queued (ob_queue s) + held (ob_pc s) + ob_failed s,
     mb_submitted = ob_submitted s, mb_done = ob_done s, mb_posts = rq_posts (ob_queue s)\<rparr>"

lemma sendPost_queued: "sendPost lib url data s = Ret r q \<Longrightarrow> queued q = queued s"
  by (auto simp: sendPost_cases queued_def split: if_splits)

lemma PushRequest_queued: "PushRequest url data s = Ret () q \<Longrightarrow> queued q = add_mset (url, data) (queued s)"
  by (auto simp: PushRequest_def wr_apply queued_def)

lemma PopRequest_queued:
  assumes "PopRequest s = Ret r q"
  shows "queued s = add_mset (rq_url r, rq_data r) (queued q) \<or> rq_url r = '''' \<and> queued q = queued s"
proof (cases "rq_queue s")
  case Nil
  with assms show ?thesis by (auto simp: PopRequest_Nil)
next
  case (Cons a as)
  with assms show ?thesis by (auto simp: PopRequest_Cons queued_def)
qed

lemma PopRequest_queued_url:
  assumes "PopRequest s = Ret r q" and "rq_url r \<noteq> ''''"
  shows "queued s = add_mset (rq_url r, rq_data r) (queued q)"
  using PopRequest_queued[OF assms(1)] assms(2) by blast

lemma PushRequest_posts: "PushRequest url data s = Ret () q \<Longrightarrow> rq_posts q = rq_posts s"
  by (auto simp: PushRequest_def wr_apply)

lemma PopRequest_posts: "PopRequest s = Ret r q \<Longrightarrow> rq_posts q = rq_posts s"
  by (cases "rq_queue s") (auto simp: PopRequest_Cons PopRequest_Nil)

text \<open>A post by somebody who holds the callback is a step of the bag, by which the callback leaves it or not.\<close>

lemma post_done:
  assumes "sendPost lib url data s = Ret 0 q" and "mb_open m = add_mset (url, data) xs" and "mb_posts m = rq_posts s"
  shows "mailbox_step lib m (m\<lparr>mb_open := xs, mb_done := add_mset (url, data) (mb_done m), mb_posts := rq_posts q\<rparr>)"
proof (cases "lib_Marshal lib data")
  case None
  then have "rq_posts q = mb_posts m" using assms(1,3) by (auto simp: sendPost_cases)
  then have "m\<lparr>mb_open := xs, mb_done := add_mset (url, data) (mb_done m), mb_posts := rq_posts q\<rparr> =
      m\<lparr>mb_open := xs, mb_done := add_mset (url, data) (mb_done m)\<rparr>" by (cases m) simp
  with mb_unsendable[OF assms(2) None] show ?thesis by simp
next
  case (Some body)
  with assms(1) have "accepted (rq_net s 0 url body)" "rq_posts q = rq_posts s @ [(url, body, rq_net s 0 url body)]"
    by (auto simp: sendPost_cases body_of_def split: if_splits)
  with mb_deliver[OF assms(2) Some] assms(3) show ?thesis by simp
qed

lemma post_refused:
  assumes "sendPost lib url data s = Ret r q" and "r \<noteq> 0" and "(url, data) \<in># mb_open m" and "mb_posts m = rq_posts s"
  shows "mailbox_step lib m (m\<lparr>mb_posts := rq_posts q\<rparr>)"
proof (cases "lib_Marshal lib data")
  case None
  with assms show ?thesis by (auto simp: sendPost_cases)
next
  case (Some body)
  with assms(1,2) have "\<not> accepted (rq_net s 0 url body)" "rq_posts q = rq_posts s @ [(url, body, rq_net s 0 url body)]"
    by (auto simp: sendPost_cases body_of_def split: if_splits)
  with mb_refused[OF assms(3) Some] assms(4) show ?thesis by simp
qed

lemma outbox_simulates: "outbox_step lib s t \<Longrightarrow> (mailbox_step lib)\<^sup>*\<^sup>* (mailbox_of s) (mailbox_of t)"
proof (induction rule: outbox_step.induct)
  case (execute_ok url data s q)
  let ?m = "(mailbox_of s)\<lparr>mb_open := add_mset (url, data) (mb_open (mailbox_of s)), mb_submitted := add_mset (url, data) (ob_submitted s)\<rparr>"
  have "mailbox_step lib (mailbox_of s) ?m" using mb_submit[of lib "mailbox_of s"] by (simp add: mailbox_of_def)
  moreover have "mailbox_step lib ?m (mailbox_of (s\<lparr>ob_queue := q, ob_submitted := add_mset (url, data) (ob_submitted s),
      ob_done := add_mset (url, data) (ob_done s)\<rparr>))"
    using post_done[OF execute_ok, of ?m "mb_open (mailbox_of s)"] sendPost_queued[OF execute_ok] by (simp add: mailbox_of_def)
  ultimately show ?case by (rule two_steps)
next
  case (execute_failed url data s r q)
  let ?m = "(mailbox_of s)\<lparr>mb_open := add_mset (url, data) (mb_open (mailbox_of s)), mb_submitted := add_mset (url, data) (ob_submitted s)\<rparr>"
  have "mailbox_step lib (mailbox_of s) ?m" using mb_submit[of lib "mailbox_of s"] by (simp add: mailbox_of_def)
  moreover have "mailbox_step lib ?m (mailbox_of (s\<lparr>ob_queue := q, ob_submitted := add_mset (url, data) (ob_submitted s),
      ob_failed := add_mset (url, data) (ob_failed s)\<rparr>))"
    using post_refused[OF execute_failed, of ?m] sendPost_queued[OF execute_failed(1)] by (simp add: mailbox_of_def)
  ultimately show ?case by (rule two_steps)
next
  case (execute_push s url data m q)
  then show ?case by (simp add: mailbox_of_def PushRequest_queued PushRequest_posts)
next
  case (deal_pop s r q)
  then show ?case by (simp add: mailbox_of_def PopRequest_queued_url PopRequest_posts)
next
  case (deal_idle s r q)
  then show ?case
    using PopRequest_queued[OF deal_idle(2)] PopRequest_posts[OF deal_idle(2)]
      mb_discard[of "mailbox_of s" "(rq_url r, rq_data r)" "queued q + held (ob_pc s) + ob_failed s" lib]
    by (auto simp: mailbox_of_def r_into_rtranclp)
next
  case (deal_ok s url data q)
  then show ?case
    using post_done[OF deal_ok(2), of "mailbox_of s" "queued q + ob_failed s"] sendPost_queued[OF deal_ok(2)]
    by (simp add: mailbox_of_def r_into_rtranclp)
next
  case (deal_failed s url data r q)
  then show ?case
    using post_refused[OF deal_failed(2,3), of "mailbox_of s"] sendPost_queued[OF deal_failed(2)]
    by (simp add: mailbox_of_def r_into_rtranclp)
next
  case (deal_push s url data q)
  then show ?case by (simp add: mailbox_of_def PushRequest_queued PushRequest_posts)
qed


subsection \<open>The queue refines the bag of open callbacks\<close>

text \<open>Forward simulation, where one step of the program may be any number of steps of its specification.\<close>

locale simulation =
  fixes cinit :: "'c \<Rightarrow> bool" and cstep :: "'c \<Rightarrow> 'c \<Rightarrow> bool"
    and ainit :: "'a \<Rightarrow> bool" and astep :: "'a \<Rightarrow> 'a \<Rightarrow> bool"
    and abs :: "'c \<Rightarrow> 'a"
  assumes sim_init: "cinit s \<Longrightarrow> ainit (abs s)"
    and sim_step: "cstep s t \<Longrightarrow> astep\<^sup>*\<^sup>* (abs s) (abs t)"
begin

lemma reach_abs: "reach cinit cstep s \<Longrightarrow> reach ainit astep (abs s)"
  by (induction rule: reach.induct) (auto intro: reach_init sim_init reach_rtranclp sim_step)

end

interpretation ob: simulation outbox_init "outbox_step lib" mailbox_init "mailbox_step lib" mailbox_of for lib
  by unfold_locales (simp add: outbox_init_def mailbox_init_def mailbox_of_def queued_def, rule outbox_simulates)

text \<open>The posts of the callbacks that are done, and the accepted posts of a log.\<close>

definition due_posts :: "'d http_lib \<Rightarrow> 'd callback multiset \<Rightarrow> (string \<times> string) multiset" where
  "due_posts lib cs = {#(fst x, body_of lib (snd x)). x \<in># {#x \<in># cs. lib_Marshal lib (snd x) \<noteq> None#}#}"

definition accepted_posts :: "(string \<times> string \<times> http_result) list \<Rightarrow> (string \<times> string) multiset" where
  "accepted_posts ps = mset (map (\<lambda>p. (fst p, fst (snd p))) (filter (\<lambda>p. accepted (snd (snd p))) ps))"

definition mailbox_ok :: "'d http_lib \<Rightarrow> 'd mailbox \<Rightarrow> bool" where
  "mailbox_ok lib m \<longleftrightarrow> (\<exists>d. mb_submitted m = mb_done m + mb_open m + d \<and> (\<forall>x \<in># d. fst x = '''')) \<and>
     due_posts lib (mb_done m) = accepted_posts (mb_posts m)"

lemma mailbox_step_ok: "mailbox_step lib m n \<Longrightarrow> mailbox_ok lib m \<Longrightarrow> mailbox_ok lib n"
proof (induction rule: mailbox_step.induct)
  case (mb_discard m x xs)
  then obtain d where d: "mb_submitted m = mb_done m + mb_open m + d" "\<forall>x \<in># d. fst x = ''''"
    by (auto simp: mailbox_ok_def)
  with mb_discard show ?case
    by (auto simp: mailbox_ok_def intro!: exI[of _ "add_mset x d"])
qed (auto simp: mailbox_ok_def due_posts_def accepted_posts_def body_of_def)

interpretation mb: invariant_system mailbox_init "mailbox_step lib" "mailbox_ok lib" for lib
  by unfold_locales (simp add: mailbox_init_def mailbox_ok_def due_posts_def accepted_posts_def, rule mailbox_step_ok)

text \<open>Only requests that reached the network are ever queued.\<close>

definition open_ok :: "'d http_lib \<Rightarrow> 'd outbox \<Rightarrow> bool" where
  "open_ok lib s \<longleftrightarrow> (\<forall>x \<in># queued (ob_queue s) + held (ob_pc s) + ob_failed s. sendable lib (fst x) (snd x))"

lemma sendPost_failed: "sendPost lib url data s = Ret r q \<Longrightarrow> r \<noteq> 0 \<Longrightarrow> sendable lib url data"
  by (auto simp: sendPost_cases sendable_def split: if_splits)

lemma outbox_step_open_ok: "outbox_step lib s t \<Longrightarrow> open_ok lib s \<Longrightarrow> open_ok lib t"
proof (induction rule: outbox_step.induct)
  case (deal_idle s r q)
  then show ?case using PopRequest_queued[OF deal_idle(2)] by (auto simp: open_ok_def)
next
  case (deal_pop s r q)
  then show ?case using PopRequest_queued_url[OF deal_pop(2)] by (auto simp: open_ok_def)
qed (auto simp: open_ok_def sendPost_queued PushRequest_queued dest: sendPost_failed)

interpretation ob_open: invariant_system outbox_init "outbox_step lib" "open_ok lib" for lib
  by unfold_locales (simp add: outbox_init_def open_ok_def queued_def, rule outbox_step_open_ok)

text \<open>
  C22. Refinement: however callers of \<^verbatim>\<open>ExecuteRequest\<close> and the retry loop interleave, the queue, the request in the
  hands of the retry loop, those in the hands of failed callers and the log of posts implement the bag of open callbacks.
  In it an open callback that is posted leaves the bag exactly when the post is accepted, and otherwise one
  leaves it only if its data cannot be marshalled or its URL is empty.
\<close>

theorem queue_refines_mailbox:
  assumes "reach outbox_init (outbox_step lib) s"
  shows "reach mailbox_init (mailbox_step lib) (mailbox_of s)"
  by (rule ob.reach_abs[OF assms])

text \<open>
  C21. No callback is lost and none is delivered twice: the callbacks ever given to \<^verbatim>\<open>ExecuteRequest\<close> are, with
  multiplicities, those done, those in the queue or in the hands of a goroutine, and discarded ones, all of these with an
  empty URL; and the done callbacks with marshallable data are, with multiplicities, exactly the posts that were
  answered with a readable response of status 200. (Done callbacks whose data cannot be marshalled were never posted.)
\<close>

theorem no_callback_lost:
  assumes "reach outbox_init (outbox_step lib) s"
  shows "(\<exists>d. ob_submitted s = ob_done s + (queued (ob_queue s) + held (ob_pc s) + ob_failed s) + d \<and> (\<forall>x \<in># d. fst x = '''')) \<and>
    {#(fst x, body_of lib (snd x)). x \<in># {#x \<in># ob_done s. lib_Marshal lib (snd x) \<noteq> None#}#} =
    mset (map (\<lambda>p. (fst p, fst (snd p))) (filter (\<lambda>p. snd (snd p) = HttpResponse 200) (rq_posts (ob_queue s))))"
  using mb.reach_invar[OF ob.reach_abs[OF assms]]
  by (simp add: mailbox_ok_def mailbox_of_def due_posts_def accepted_posts_def accepted_iff)

text \<open>
  C23. One round of the retry loop, from any queue that calls and retries have built up: as many turns as there are
  requests in the queue return, without a panic. They post every queued request that has a URL, once and in the order of
  the queue, and leave in the queue exactly those that were not answered with a readable 200, in their order; the queued
  requests with an empty URL are dropped without a post.
\<close>

theorem DealTimeoutReq_round:
  assumes "reach outbox_init (outbox_step lib) s"
  shows "let q = ob_queue s; rs = filter (\<lambda>r. rq_url r \<noteq> '''') (rq_queue q) in
    \<exists>t. DealTimeoutReq lib (length (rq_queue q)) q = Ret () t \<and>
      rq_posts t = rq_posts q @ round_posts lib (rq_net q) rs \<and> rq_queue t = rejected lib (rq_net q) rs \<and>
      (rq_queue t = [] \<longleftrightarrow> (\<forall>i < length rs. accepted (rq_net q i (rq_url (rs ! i)) (body_of lib (rq_data (rs ! i))))))"
proof -
  have "sendable lib (rq_url r) (rq_data r)" if "r \<in> set (rq_queue (ob_queue s))" for r
    using ob_open.reach_invar[OF assms] that by (force simp: open_ok_def queued_def)
  from DealTimeoutReq_rounds[of "ob_queue s" "rq_queue (ob_queue s)" "[]" lib] this show ?thesis
    by (auto simp: Let_def has_url_def[abs_def] rejected_Nil_iff)
qed

subsection \<open>A concrete queue\<close>

text \<open>Data are strings, sent as they are; the URL parser refuses a leading colon; the network answers 200 to one host only.\<close>

definition demo_lib :: "string http_lib" where
  "demo_lib = \<lparr>lib_Marshal = (\<lambda>d. case d of None \<Rightarrow> Some ''null'' | Some x \<Rightarrow> Some x),
     lib_NewRequest = (\<lambda>u. take 1 u \<noteq> '':'')\<rparr>"

definition demo_queue :: "string Request list \<Rightarrow> string ReqQueue" where
  "demo_queue q = \<lparr>rnd = (\<lambda>i. i), clock = (\<lambda>_. 0), order = (\<lambda>_ ks. ks), rq_queue = q, rq_httpClient = NewHttpReqMgr,
     rq_net = (\<lambda>_ u _. if u = ''up'' then HttpResponse 200 else DoError True), rq_posts = []\<rparr>"

definition demo_requests :: "string Request list" where
  "demo_requests = [\<lparr>rq_url = ''down'', rq_data = Some ''a'', rq_tryTimes = 0\<rparr>]"

definition demo_start :: "string outbox" where
  "demo_start = \<lparr>ob_queue = demo_queue [], ob_pc = AtPop, ob_failed = {#}, ob_submitted = {#}, ob_done = {#}\<rparr>"

definition demo_failed :: "string outbox" where
  "demo_failed = \<lparr>ob_queue = posted ''down'' ''a'' (demo_queue []), ob_pc = AtPop, ob_failed = {#(''down'', Some ''a'')#},
     ob_submitted = {#(''down'', Some ''a'')#}, ob_done = {#}\<rparr>"

definition demo_pushed :: "string outbox" where
  "demo_pushed = demo_failed\<lparr>ob_queue := (ob_queue demo_failed)\<lparr>rq_queue := demo_requests\<rparr>, ob_failed := {#}\<rparr>"

lemma demo_failed_reach: "reach outbox_init (outbox_step demo_lib) demo_failed"
proof -
  have post: "sendPost demo_lib ''down'' (Some ''a'') (ob_queue demo_start) = Ret (- 1) (posted ''down'' ''a'' (demo_queue []))"
    by (simp add: sendPost_cases demo_lib_def demo_queue_def body_of_def demo_start_def)
  have "reach outbox_init (outbox_step demo_lib) demo_start"
    by (rule reach_init) (simp add: outbox_init_def demo_queue_def demo_start_def)
  moreover have "outbox_step demo_lib demo_start demo_failed"
    using execute_failed[OF post] by (simp add: demo_failed_def demo_start_def)
  ultimately show ?thesis by (rule reach_step)
qed

lemma demo_pushed_reach: "reach outbox_init (outbox_step demo_lib) demo_pushed"
proof (rule reach_step[OF demo_failed_reach])
  have "PushRequest ''down'' (Some ''a'') (ob_queue demo_failed) = Ret () ((ob_queue demo_failed)\<lparr>rq_queue := demo_requests\<rparr>)"
    by (simp add: PushRequest_def wr_apply demo_failed_def demo_queue_def demo_requests_def)
  from execute_push[OF _ this, of "{#}"] show "outbox_step demo_lib demo_failed demo_pushed"
    by (simp add: demo_pushed_def demo_failed_def)
qed

theorem DealTimeoutReq_round_witness:
  "\<exists>t. DealTimeoutReq demo_lib 1 (ob_queue demo_pushed) = Ret () t \<and> rq_queue t = demo_requests \<and>
     rq_posts t = [(''down'', ''a'', DoError True), (''down'', ''a'', DoError True)]"
proof -
  have "length (rq_queue (ob_queue demo_pushed)) = 1" "filter (\<lambda>r. rq_url r \<noteq> '''') (rq_queue (ob_queue demo_pushed)) = demo_requests"
    "rq_posts (ob_queue demo_pushed) @ round_posts demo_lib (rq_net (ob_queue demo_pushed)) demo_requests =
      [(''down'', ''a'', DoError True), (''down'', ''a'', DoError True)]"
    "rejected demo_lib (rq_net (ob_queue demo_pushed)) demo_requests = demo_requests"
    by (simp_all add: demo_pushed_def demo_failed_def demo_queue_def demo_requests_def demo_lib_def body_of_def again_def)
  with DealTimeoutReq_round[OF demo_pushed_reach] show ?thesis unfolding Let_def by metis
qed

theorem queue_refines_mailbox_witness:
  "reach mailbox_init (mailbox_step demo_lib) \<lparr>mb_open = {#(''down'', Some ''a'')#}, mb_submitted = {#(''down'', Some ''a'')#},
     mb_done = {#}, mb_posts = [(''down'', ''a'', DoError True)]\<rparr>"
  using queue_refines_mailbox[OF demo_failed_reach] by (simp add: mailbox_of_def demo_failed_def queued_def demo_queue_def)

theorem no_callback_lost_witness:
  "ob_submitted demo_failed = ob_done demo_failed + (queued (ob_queue demo_failed) + held (ob_pc demo_failed) + ob_failed demo_failed)"
  using no_callback_lost[OF demo_failed_reach] by (auto simp: demo_failed_def queued_def demo_queue_def)

end
