(* ===== verification/Email_Format.thy ===== *)
theory Email_Format
  imports Json
begin

section \<open>The format of an e-mail address (httpHandler.go)\<close>

text \<open>
  \<^verbatim>\<open>validateEmail\<close> matches a regular expression. The theory has the regular expressions over character
  classes that the source uses, their language, a matcher by derivatives, and the string functions
  \<^verbatim>\<open>strings.ToLower\<close> and \<^verbatim>\<open>strings.TrimSpace\<close> on ASCII text.
\<close>

subsection \<open>Regular expressions over character classes\<close>

datatype regex =
    Nothing
  | Empty
  | Class "char \<Rightarrow> bool"
  | Seq regex regex
  | Alt regex regex
  | Many regex

inductive matches :: "regex \<Rightarrow> string \<Rightarrow> bool" where
  m_empty: "matches Empty []"
| m_class: "p c \<Longrightarrow> matches (Class p) [c]"
| m_seq: "matches r u \<Longrightarrow> matches s v \<Longrightarrow> matches (Seq r s) (u @ v)"
| m_left: "matches r u \<Longrightarrow> matches (Alt r s) u"
| m_right: "matches s u \<Longrightarrow> matches (Alt r s) u"
| m_stop: "matches (Many r) []"
| m_more: "matches r u \<Longrightarrow> matches (Many r) v \<Longrightarrow> matches (Many r) (u @ v)"

inductive_simps matches_Nothing [simp]: "matches Nothing w"
inductive_simps matches_Empty [simp]: "matches Empty w"
inductive_simps matches_Class: "matches (Class p) w"
inductive_simps matches_Seq: "matches (Seq r s) w"
inductive_simps matches_Alt [simp]: "matches (Alt r s) w"

primrec accepts_empty :: "regex \<Rightarrow> bool" where
  "accepts_empty Nothing = False"
| "accepts_empty Empty = True"
| "accepts_empty (Class p) = False"
| "accepts_empty (Seq r s) = (accepts_empty r \<and> accepts_empty s)"
| "accepts_empty (Alt r s) = (accepts_empty r \<or> accepts_empty s)"
| "accepts_empty (Many r) = True"

primrec after :: "char \<Rightarrow> regex \<Rightarrow> regex" where
  "after c Nothing = Nothing"
| "after c Empty = Nothing"
| "after c (Class p) = (if p c then Empty else Nothing)"
| "after c (Seq r s) = (if accepts_empty r then Alt (Seq (after c r) s) (after c s) else Seq (after c r) s)"
| "after c (Alt r s) = Alt (after c r) (after c s)"
| "after c (Many r) = Seq (after c r) (Many r)"

primrec MatchString :: "regex \<Rightarrow> string \<Rightarrow> bool" where
  "MatchString r [] = accepts_empty r"
| "MatchString r (c # w) = MatchString (after c r) w"

lemma accepts_empty_iff: "accepts_empty r \<longleftrightarrow> matches r []"
  by (induction r) (auto simp: matches_Class matches_Seq intro: m_stop)

lemma matches_Many_Cons:
  "matches (Many r) (c # w) \<longleftrightarrow> (\<exists>u v. w = u @ v \<and> matches r (c # u) \<and> matches (Many r) v)"
proof
  have "R = Many r \<Longrightarrow> x = c # w \<Longrightarrow> \<exists>u v. w = u @ v \<and> matches r (c # u) \<and> matches (Many r) v"
    if "matches R x" for R x
    using that by (induction arbitrary: w rule: matches.induct) (auto simp: append_eq_Cons_conv)
  then show "matches (Many r) (c # w) \<Longrightarrow> \<exists>u v. w = u @ v \<and> matches r (c # u) \<and> matches (Many r) v" by blast
next
  assume "\<exists>u v. w = u @ v \<and> matches r (c # u) \<and> matches (Many r) v"
  then obtain u v where "w = u @ v" "matches r (c # u)" "matches (Many r) v" by blast
  then show "matches (Many r) (c # w)" using m_more[of r "c # u" v] by simp
qed

lemma matches_Seq_Cons:
  "matches (Seq r s) (c # w) \<longleftrightarrow>
     (\<exists>u v. w = u @ v \<and> matches r (c # u) \<and> matches s v) \<or> matches r [] \<and> matches s (c # w)"
proof
  show "matches (Seq r s) (c # w) \<Longrightarrow>
     (\<exists>u v. w = u @ v \<and> matches r (c # u) \<and> matches s v) \<or> matches r [] \<and> matches s (c # w)"
    by (auto simp: matches_Seq Cons_eq_append_conv)
next
  show "(\<exists>u v. w = u @ v \<and> matches r (c # u) \<and> matches s v) \<or> matches r [] \<and> matches s (c # w) \<Longrightarrow>
     matches (Seq r s) (c # w)"
    using m_seq[of r "[]" s "c # w"] m_seq[of r "c # u" s v for u v] by auto
qed

lemma matches_after: "matches (after c r) w \<longleftrightarrow> matches r (c # w)"
proof (induction r arbitrary: w)
  case (Seq r s)
  then show ?case unfolding matches_Seq_Cons by (auto simp: accepts_empty_iff matches_Seq)
next
  case (Many r)
  then show ?case by (auto simp: matches_Many_Cons matches_Seq)
qed (auto simp: matches_Class)

lemma MatchString_iff: "MatchString r w \<longleftrightarrow> matches r w"
  by (induction w arbitrary: r) (simp_all add: accepts_empty_iff matches_after)

lemma matches_Many_Class: "matches (Many (Class p)) w \<longleftrightarrow> list_all p w"
proof (induction w)
  case Nil
  show ?case by (simp add: m_stop)
next
  case (Cons c w)
  then show ?case by (auto simp: matches_Many_Cons matches_Class)
qed

lemma matches_Seq_Class: "matches (Seq (Class p) r) w \<longleftrightarrow> (\<exists>c v. w = c # v \<and> p c \<and> matches r v)"
  by (simp add: matches_Seq matches_Class) (metis append_Cons append_Nil)

subsection \<open>The address\<close>

definition ascii_between :: "nat \<Rightarrow> nat \<Rightarrow> char \<Rightarrow> bool" where
  "ascii_between a b c \<longleftrightarrow> a \<le> of_char c \<and> of_char c \<le> b"

definition is_alpha :: "char \<Rightarrow> bool" where
  "is_alpha c \<longleftrightarrow> ascii_between 97 122 c \<or> ascii_between 65 90 c"

definition is_digit :: "char \<Rightarrow> bool" where
  "is_digit c \<longleftrightarrow> ascii_between 48 57 c"

definition local_char :: "char \<Rightarrow> bool" where
  "local_char c \<longleftrightarrow> is_alpha c \<or> is_digit c \<or> c \<in> set ''._%+-''"

definition domain_char :: "char \<Rightarrow> bool" where
  "domain_char c \<longleftrightarrow> is_alpha c \<or> is_digit c \<or> c \<in> set ''.-''"

definition some_of :: "(char \<Rightarrow> bool) \<Rightarrow> regex" where
  "some_of p = Seq (Class p) (Many (Class p))"

definition two_or_more :: "(char \<Rightarrow> bool) \<Rightarrow> regex" where
  "two_or_more p = Seq (Class p) (some_of p)"

text \<open>\<^verbatim>\<open>^[a-zA-Z0-9._%+-]+@[a-zA-Z0-9.-]+\.[a-zA-Z]{2,}$\<close>\<close>

definition emailRegex :: regex where
  "emailRegex = Seq (some_of local_char) (Seq (Class (\<lambda>c. c = CHR ''@'')) (Seq (some_of domain_char)
     (Seq (Class (\<lambda>c. c = CHR ''.'')) (two_or_more is_alpha))))"

definition validateEmail :: "string \<Rightarrow> bool" where
  "validateEmail email = MatchString emailRegex email"

lemma matches_some_of: "matches (some_of p) w \<longleftrightarrow> w \<noteq> [] \<and> list_all p w"
  by (cases w) (auto simp: some_of_def matches_Seq_Class matches_Many_Class)

lemma matches_two_or_more: "matches (two_or_more p) w \<longleftrightarrow> 2 \<le> length w \<and> list_all p w"
  by (cases w) (auto simp: two_or_more_def matches_Seq_Class matches_some_of Suc_le_eq)

text \<open>
  C35. \<^verbatim>\<open>validateEmail\<close> accepts exactly the strings made of a non-empty local part, an at sign, a non-empty
  domain, a dot and a top-level domain of at least two letters, each over the characters allowed there.
\<close>

theorem validateEmail_iff:
  "validateEmail email \<longleftrightarrow> (\<exists>local domain tld. email = local @ ''@'' @ domain @ ''.'' @ tld \<and>
     local \<noteq> [] \<and> list_all local_char local \<and> domain \<noteq> [] \<and> list_all domain_char domain \<and>
     2 \<le> length tld \<and> list_all is_alpha tld)"
  unfolding validateEmail_def MatchString_iff emailRegex_def
  by (simp add: matches_Seq[of "some_of q" for q] matches_Seq_Class matches_some_of matches_two_or_more) blast

subsection \<open>Normalisation\<close>

definition is_space :: "char \<Rightarrow> bool" where
  "is_space c \<longleftrightarrow> ascii_between 9 13 c \<or> c = CHR '' ''"

definition ToLower :: "string \<Rightarrow> string" where
  "ToLower s = map lower s"

definition TrimSpace :: "string \<Rightarrow> string" where
  "TrimSpace s = rev (dropWhile is_space (rev (dropWhile is_space s)))"

lemma of_char_lower:
  "(of_char (lower c) :: nat) = (if 65 \<le> (of_char c :: nat) \<and> (of_char c :: nat) \<le> 90 then (of_char c :: nat) + 32 else of_char c)"
  by (simp add: lower_def)

lemma lower_lower [simp]: "lower (lower c) = lower c"
  by (simp add: lower_def)

lemma ToLower_idem [simp]: "ToLower (ToLower s) = ToLower s"
  by (simp add: ToLower_def)

end
