(* ===== verification/Accounts.thy ===== *)
theory Accounts
  imports Email_Format
begin

section \<open>Accounts (httpHandler.go, emailService.go, authDB.go)\<close>

text \<open>
  Registration by a mailed code, and login. The packages the handlers call enter as arguments: the redis
  client, the gorm database and bcrypt are a record of operations on an abstract world, each of which may
  fail; the binding of the JSON body by gin is an optional request, \<open>None\<close> when \<^verbatim>\<open>ShouldBindJSON\<close>
  returns an error. Whether \<^verbatim>\<open>crypto/rand\<close> and \<^verbatim>\<open>smtp.SendMail\<close> succeed is a stream inside the state.
  \<open>acc_issued\<close> is history: the codes given to redis, with the address they were generated for.
  A handler returns the status and the body of its one call of \<^verbatim>\<open>c.JSON\<close>. The database handle is set.
\<close>

subsection \<open>Data\<close>

definition CODE_SUCCESS :: int where "CODE_SUCCESS = 0"
definition CODE_ERROR :: int where "CODE_ERROR = 400"
definition CODE_INVALID_PARAM :: int where "CODE_INVALID_PARAM = 401"
definition CODE_FORBIDDEN_PARAM :: int where "CODE_FORBIDDEN_PARAM = 403"
definition CODE_REPEAT_PARAM :: int where "CODE_REPEAT_PARAM = 404"
definition CODE_SERVERBUSY_PARAM :: int where "CODE_SERVERBUSY_PARAM = 501"

lemmas code_defs = CODE_SUCCESS_def CODE_ERROR_def CODE_INVALID_PARAM_def CODE_FORBIDDEN_PARAM_def
  CODE_REPEAT_PARAM_def CODE_SERVERBUSY_PARAM_def

record RegisterRequest =
  rr_Email :: string
  rr_Password :: string
  rr_Username :: string

record VerifyEmailRequest =
  ve_Email :: string
  ve_Code :: string

record CompleteRequest =
  cr_Email :: string
  cr_Code :: string
  cr_Password :: string
  cr_Username :: string

record LoginRequest =
  lr_Email :: string
  lr_Password :: string

record AuthUser =
  au_ID :: u64
  au_Email :: string
  au_Password :: string
  au_Username :: string
  au_IsActive :: bool
  au_CreatedAt :: int
  au_UpdatedAt :: int

datatype auth_data = NoData | UserData u64 string string

record AuthResponse =
  ar_Code :: int
  ar_Message :: string
  ar_Data :: auth_data

type_synonym http_reply = "int \<times> AuthResponse"

record EmailService =
  es_smtpHost :: string
  es_smtpPort :: go_int
  es_fromEmail :: string
  es_password :: string

record mail =
  mail_addr :: string
  mail_from :: string
  mail_to :: "string list"
  mail_msg :: string

record 'w services =
  redis_Set :: "string \<Rightarrow> string \<Rightarrow> int \<Rightarrow> 'w \<Rightarrow> bool \<times> 'w"
  redis_Get :: "string \<Rightarrow> 'w \<Rightarrow> string option \<times> 'w"
  redis_Del :: "string \<Rightarrow> 'w \<Rightarrow> bool \<times> 'w"
  db_First :: "string \<Rightarrow> 'w \<Rightarrow> AuthUser option \<times> 'w"
  db_Create :: "AuthUser \<Rightarrow> 'w \<Rightarrow> AuthUser option \<times> 'w"
  bcrypt_Generate :: "string \<Rightarrow> 'w \<Rightarrow> string option \<times> 'w"
  bcrypt_Compare :: "string \<Rightarrow> string \<Rightarrow> bool"

record 'w acc_state = env_state +
  acc_world :: 'w
  gEmailService :: "EmailService option"
  gRedisClient :: bool
  gAuthDB :: bool
  acc_rand :: "nat \<Rightarrow> bool"
  acc_smtp :: "nat \<Rightarrow> bool"
  acc_mails :: "mail list"
  acc_issued :: "(string \<times> string) list"

definition ext_call :: "('w \<Rightarrow> 'a \<times> 'w) \<Rightarrow> ('a, ('w, 'z) acc_state_scheme) go" where
  "ext_call f s = Ret (fst (f (acc_world s))) (s\<lparr>acc_world := snd (f (acc_world s))\<rparr>)"

text \<open>The first query through the handle \<^verbatim>\<open>GetAuthDB\<close> returns: a method of an unset handle dereferences nil.\<close>

definition db_call :: "('w \<Rightarrow> 'a \<times> 'w) \<Rightarrow> ('a, ('w, 'z) acc_state_scheme) go" where
  "db_call f = bnd (rd gAuthDB) (\<lambda>db. if \<not> db then panic NilDeref else ext_call f)"

lemma db_call_apply: "db_call f s = (if gAuthDB s then ext_call f s else Panic NilDeref)"
  by (simp add: db_call_def bnd_def rd_def panic_def)

subsection \<open>The e-mail service\<close>

definition InitEmailService :: "Config \<Rightarrow> EmailService" where
  "InitEmailService cfg = \<lparr>es_smtpHost = email_SMTPHost (cfg_Email cfg), es_smtpPort = email_SMTPPort (cfg_Email cfg),
     es_fromEmail = email_FromEmail (cfg_Email cfg), es_password = email_Password (cfg_Email cfg)\<rparr>"

text \<open>\<^verbatim>\<open>rand.Int\<close>: a draw below the bound, or an error of the random source.\<close>

definition crypto_Int :: "nat \<Rightarrow> (nat option, ('w, 'z) acc_state_scheme) go" where
  "crypto_Int n s = (let t = s\<lparr>acc_rand := \<lambda>i. acc_rand s (Suc i)\<rparr> in
     if acc_rand s 0 then Ret (Some (rnd s 0 mod n)) (t\<lparr>rnd := \<lambda>i. rnd s (Suc i)\<rparr>) else Ret None t)"

primrec generateCode_loop :: "nat \<Rightarrow> (string option, ('w, 'z) acc_state_scheme) go" where
  "generateCode_loop 0 = ret (Some [])"
| "generateCode_loop (Suc n) =
     bnd (crypto_Int (length ''0123456789'')) (\<lambda>num.
     case num of
       None \<Rightarrow> ret None
     | Some i \<Rightarrow> bnd (generateCode_loop n) (\<lambda>r. ret (map_option (\<lambda>code. ''0123456789'' ! i # code) r)))"

definition generateCode :: "(string option, ('w, 'z) acc_state_scheme) go" where
  "generateCode = generateCode_loop 6"

definition getVerificationCodeKey :: "string \<Rightarrow> string" where
  "getVerificationCodeKey email = ''verification_code:'' @ ToLower email"

datatype send_error = GenerateFailed | RedisNotInitialized | StoreFailed | SendFailed

definition smtp_SendMail :: "mail \<Rightarrow> (bool, ('w, 'z) acc_state_scheme) go" where
  "smtp_SendMail m s = Ret (acc_smtp s 0) (s\<lparr>acc_smtp := \<lambda>i. acc_smtp s (Suc i), acc_mails := acc_mails s @ [m]\<rparr>)"

definition newline :: string where "newline = [char_of (10 :: nat)]"
definition crlf :: string where "crlf = [char_of (13 :: nat), char_of (10 :: nat)]"

definition sendEmail :: "EmailService \<Rightarrow> string \<Rightarrow> string \<Rightarrow> string \<Rightarrow> (send_error option, ('w, 'z) acc_state_scheme) go" where
  "sendEmail es to subject body =
     (let msg = ''From: '' @ es_fromEmail es @ crlf @ ''To: '' @ to @ crlf @ ''Subject: '' @ subject @ crlf @ crlf @ body in
      bnd (smtp_SendMail \<lparr>mail_addr = es_smtpHost es @ '':'' @ itoa (sint (es_smtpPort es)), mail_from = es_fromEmail es,
        mail_to = [to], mail_msg = msg\<rparr>) (\<lambda>ok.
      ret (if ok then None else Some SendFailed)))"

definition code_body :: "string \<Rightarrow> string" where
  "code_body code = ''Your verification code is: '' @ code @ newline @ ''This code will expire in 10 minutes.''"

definition store_code :: "'w services \<Rightarrow> string \<Rightarrow> string \<Rightarrow> (bool, ('w, 'z) acc_state_scheme) go" where
  "store_code svc email code =
     bnd (wr (\<lambda>s. s\<lparr>acc_issued := acc_issued s @ [(email, code)]\<rparr>)) (\<lambda>_.
     ext_call (redis_Set svc (getVerificationCodeKey email) code (10 * 60 * 10 ^ 9)))"

definition store_and_send ::
    "'w services \<Rightarrow> EmailService \<Rightarrow> string \<Rightarrow> string \<Rightarrow> (send_error option, ('w, 'z) acc_state_scheme) go" where
  "store_and_send svc es email code =
     bnd (rd gRedisClient) (\<lambda>redisClient.
     if \<not> redisClient then ret (Some RedisNotInitialized)
     else
       bnd (store_code svc email code) (\<lambda>ok.
       if \<not> ok then ret (Some StoreFailed)
       else sendEmail es email ''Your Verification Code'' (code_body code)))"

definition SendVerificationCode ::
    "'w services \<Rightarrow> EmailService \<Rightarrow> string \<Rightarrow> (send_error option, ('w, 'z) acc_state_scheme) go" where
  "SendVerificationCode svc es email =
     bnd generateCode (\<lambda>r.
     case r of
       None \<Rightarrow> ret (Some GenerateFailed)
     | Some code \<Rightarrow> store_and_send svc es email code)"

definition VerifyCode :: "'w services \<Rightarrow> string \<Rightarrow> string \<Rightarrow> (bool, ('w, 'z) acc_state_scheme) go" where
  "VerifyCode svc email code =
     bnd (rd gRedisClient) (\<lambda>redisClient.
     if \<not> redisClient then ret False
     else
       bnd (ext_call (redis_Get svc (getVerificationCodeKey email))) (\<lambda>r.
       case r of
         None \<Rightarrow> ret False
       | Some storedCode \<Rightarrow>
           if storedCode = code then
             bnd (ext_call (redis_Del svc (getVerificationCodeKey email))) (\<lambda>_. ret True)
           else ret False))"

subsection \<open>The handlers\<close>

definition reply :: "int \<Rightarrow> int \<Rightarrow> string \<Rightarrow> http_reply" where
  "reply status code msg = (status, \<lparr>ar_Code = code, ar_Message = msg, ar_Data = NoData\<rparr>)"

definition user_reply :: "string \<Rightarrow> AuthUser \<Rightarrow> http_reply" where
  "user_reply msg user = (200, \<lparr>ar_Code = CODE_SUCCESS, ar_Message = msg,
     ar_Data = UserData (au_ID user) (au_Email user) (au_Username user)\<rparr>)"

definition Register :: "'w services \<Rightarrow> RegisterRequest option \<Rightarrow> (http_reply, ('w, 'z) acc_state_scheme) go" where
  "Register svc body =
     (case body of
        None \<Rightarrow> ret (reply 400 CODE_INVALID_PARAM ''Invalid request parameters'')
      | Some req \<Rightarrow>
          let email = ToLower (TrimSpace (rr_Email req)) in
          if \<not> validateEmail email then ret (reply 400 CODE_INVALID_PARAM ''Invalid email format'')
          else if length (rr_Password req) < 6 then
            ret (reply 400 CODE_INVALID_PARAM ''Password must be at least 6 characters'')
          else
            bnd (db_call (db_First svc email)) (\<lambda>existingUser.
            if existingUser \<noteq> None then ret (reply 400 CODE_REPEAT_PARAM ''Email already registered'')
            else
              bnd (rd gEmailService) (\<lambda>emailService.
              case emailService of
                None \<Rightarrow> ret (reply 500 CODE_SERVERBUSY_PARAM ''Email service not available'')
              | Some es \<Rightarrow>
                  bnd (SendVerificationCode svc es email) (\<lambda>err.
                  if err \<noteq> None then ret (reply 500 CODE_SERVERBUSY_PARAM ''Failed to send verification code'')
                  else ret (reply 200 CODE_SUCCESS ''Verification code sent to email'')))))"

definition VerifyEmail :: "'w services \<Rightarrow> VerifyEmailRequest option \<Rightarrow> (http_reply, ('w, 'z) acc_state_scheme) go" where
  "VerifyEmail svc body =
     (case body of
        None \<Rightarrow> ret (reply 400 CODE_INVALID_PARAM ''Invalid request parameters'')
      | Some req \<Rightarrow>
          let email = ToLower (TrimSpace (ve_Email req)) in
          if \<not> validateEmail email then ret (reply 400 CODE_INVALID_PARAM ''Invalid email format'')
          else
            bnd (rd gEmailService) (\<lambda>emailService.
            if emailService = None then ret (reply 500 CODE_SERVERBUSY_PARAM ''Email service not available'')
            else
              bnd (VerifyCode svc email (ve_Code req)) (\<lambda>valid.
              if \<not> valid then ret (reply 400 CODE_INVALID_PARAM ''Invalid or expired verification code'')
              else ret (reply 200 CODE_SUCCESS ''Email verified successfully''))))"

definition create_account :: "'w services \<Rightarrow> string \<Rightarrow> CompleteRequest \<Rightarrow> (http_reply, ('w, 'z) acc_state_scheme) go" where
  "create_account svc email req =
     bnd (db_call (db_First svc email)) (\<lambda>existingUser.
     if existingUser \<noteq> None then ret (reply 400 CODE_REPEAT_PARAM ''Email already registered'')
     else
       bnd (ext_call (bcrypt_Generate svc (cr_Password req))) (\<lambda>hashed.
       case hashed of
         None \<Rightarrow> ret (reply 500 CODE_SERVERBUSY_PARAM ''Failed to process password'')
       | Some hashedPassword \<Rightarrow>
           bnd (ext_call (db_Create svc \<lparr>au_ID = 0, au_Email = email, au_Password = hashedPassword,
              au_Username = TrimSpace (cr_Username req), au_IsActive = True, au_CreatedAt = 0, au_UpdatedAt = 0\<rparr>)) (\<lambda>created.
           case created of
             None \<Rightarrow> ret (reply 500 CODE_SERVERBUSY_PARAM ''Failed to create user'')
           | Some user \<Rightarrow> ret (user_reply ''User registered successfully'' user))))"

definition CompleteRegistration ::
    "'w services \<Rightarrow> CompleteRequest option \<Rightarrow> (http_reply, ('w, 'z) acc_state_scheme) go" where
  "CompleteRegistration svc body =
     (case body of
        None \<Rightarrow> ret (reply 400 CODE_INVALID_PARAM ''Invalid request parameters'')
      | Some req \<Rightarrow>
          let email = ToLower (TrimSpace (cr_Email req)) in
          if \<not> validateEmail email then ret (reply 400 CODE_INVALID_PARAM ''Invalid email format'')
          else
            bnd (rd gEmailService) (\<lambda>emailService.
            if emailService = None then ret (reply 500 CODE_SERVERBUSY_PARAM ''Email service not available'')
            else
              bnd (VerifyCode svc email (cr_Code req)) (\<lambda>valid.
              if \<not> valid then ret (reply 400 CODE_INVALID_PARAM ''Invalid or expired verification code'')
              else create_account svc email req)))"

definition Login :: "'w services \<Rightarrow> LoginRequest option \<Rightarrow> (http_reply, ('w, 'z) acc_state_scheme) go" where
  "Login svc body =
     (case body of
        None \<Rightarrow> ret (reply 400 CODE_INVALID_PARAM ''Invalid request parameters'')
      | Some req \<Rightarrow>
          let email = ToLower (TrimSpace (lr_Email req)) in
          if \<not> validateEmail email then ret (reply 400 CODE_INVALID_PARAM ''Invalid email format'')
          else
            bnd (db_call (db_First svc email)) (\<lambda>found.
            case found of
              None \<Rightarrow> ret (reply 401 CODE_ERROR ''Invalid email or password'')
            | Some user \<Rightarrow>
                if \<not> au_IsActive user then ret (reply 403 CODE_FORBIDDEN_PARAM ''Account not activated'')
                else if \<not> bcrypt_Compare svc (au_Password user) (lr_Password req) then
                  ret (reply 401 CODE_ERROR ''Invalid email or password'')
                else ret (user_reply ''Login successful'' user)))"


subsection \<open>What the handlers rely on\<close>

text \<open>
  The documented behaviour of the packages, over two views of the world: the values redis holds and the
  accounts in the table by address. A key may expire during any call. A redis read returns the value that
  is held; a successful deletion removes it. A query returns an account of the table; an insertion refuses
  an address that is already there (the column has a unique index), stores the given columns and fills in
  the id and the times. A hash of bcrypt matches the password it was made from.
\<close>

type_synonym 'w code_view = "'w \<Rightarrow> string \<Rightarrow> string option"
type_synonym 'w user_view = "'w \<Rightarrow> string \<Rightarrow> AuthUser option"

definition redis_laws :: "'w services \<Rightarrow> 'w code_view \<Rightarrow> 'w user_view \<Rightarrow> bool" where
  "redis_laws svc codes users \<longleftrightarrow>
     (\<forall>k v ttl w k' x. codes (snd (redis_Set svc k v ttl w)) k' = Some x \<longrightarrow> codes w k' = Some x \<or> k' = k \<and> x = v) \<and>
     (\<forall>k w. codes (snd (redis_Get svc k w)) \<subseteq>\<^sub>m codes w) \<and>
     (\<forall>k w x. fst (redis_Get svc k w) = Some x \<longrightarrow> codes w k = Some x) \<and>
     (\<forall>k w. codes (snd (redis_Del svc k w)) \<subseteq>\<^sub>m codes w) \<and>
     (\<forall>k w. fst (redis_Del svc k w) \<longrightarrow> codes (snd (redis_Del svc k w)) k = None) \<and>
     (\<forall>k v ttl w. users (snd (redis_Set svc k v ttl w)) = users w) \<and>
     (\<forall>k w. users (snd (redis_Get svc k w)) = users w) \<and>
     (\<forall>k w. users (snd (redis_Del svc k w)) = users w)"

definition stored_as :: "AuthUser \<Rightarrow> AuthUser \<Rightarrow> bool" where
  "stored_as u u' \<longleftrightarrow> u' = u\<lparr>au_ID := au_ID u', au_CreatedAt := au_CreatedAt u', au_UpdatedAt := au_UpdatedAt u'\<rparr>"

definition db_laws :: "'w services \<Rightarrow> 'w code_view \<Rightarrow> 'w user_view \<Rightarrow> bool" where
  "db_laws svc codes users \<longleftrightarrow>
     (\<forall>e w u. fst (db_First svc e w) = Some u \<longrightarrow> users w e = Some u) \<and>
     (\<forall>e w. users (snd (db_First svc e w)) = users w) \<and>
     (\<forall>u w. users w \<subseteq>\<^sub>m users (snd (db_Create svc u w))) \<and>
     (\<forall>u w u'. fst (db_Create svc u w) = Some u' \<longrightarrow>
        users w (au_Email u) = None \<and> stored_as u u' \<and> users (snd (db_Create svc u w)) = (users w)(au_Email u \<mapsto> u')) \<and>
     (\<forall>e w. codes (snd (db_First svc e w)) \<subseteq>\<^sub>m codes w) \<and>
     (\<forall>u w. codes (snd (db_Create svc u w)) \<subseteq>\<^sub>m codes w)"

definition bcrypt_laws :: "'w services \<Rightarrow> 'w code_view \<Rightarrow> 'w user_view \<Rightarrow> bool" where
  "bcrypt_laws svc codes users \<longleftrightarrow>
     (\<forall>p w h. fst (bcrypt_Generate svc p w) = Some h \<longrightarrow> bcrypt_Compare svc h p) \<and>
     (\<forall>p w. users (snd (bcrypt_Generate svc p w)) = users w) \<and>
     (\<forall>p w. codes (snd (bcrypt_Generate svc p w)) \<subseteq>\<^sub>m codes w)"

definition services_ok :: "'w services \<Rightarrow> 'w code_view \<Rightarrow> 'w user_view \<Rightarrow> bool" where
  "services_ok svc codes users \<longleftrightarrow> redis_laws svc codes users \<and> db_laws svc codes users \<and> bcrypt_laws svc codes users"

subsection \<open>What every handler keeps\<close>

text \<open>
  From \<open>s\<close> to \<open>t\<close> no account disappears or changes, no history is lost, the database handle stays, and a code held in redis for an
  address in lower case was held before or has been issued for that address.
\<close>

definition acc_rel :: "'w code_view \<Rightarrow> 'w user_view \<Rightarrow> ('w, 'z) acc_state_scheme \<Rightarrow> ('w, 'z) acc_state_scheme \<Rightarrow> bool" where
  "acc_rel codes users s t \<longleftrightarrow>
     gAuthDB t = gAuthDB s \<and> set (acc_issued s) \<subseteq> set (acc_issued t) \<and> users (acc_world s) \<subseteq>\<^sub>m users (acc_world t) \<and>
     (\<forall>e c. ToLower e = e \<longrightarrow> codes (acc_world t) (getVerificationCodeKey e) = Some c \<longrightarrow>
        codes (acc_world s) (getVerificationCodeKey e) = Some c \<or> (e, c) \<in> set (acc_issued t))"

lemma acc_rel_refl [simp]: "acc_rel codes users s s"
  by (simp add: acc_rel_def)

lemma acc_rel_trans: "acc_rel codes users r s \<Longrightarrow> acc_rel codes users s t \<Longrightarrow> acc_rel codes users r t"
  unfolding acc_rel_def by (blast intro: map_le_trans)

lemma key_inject: "ToLower e = e \<Longrightarrow> ToLower f = f \<Longrightarrow> getVerificationCodeKey e = getVerificationCodeKey f \<longleftrightarrow> e = f"
  by (simp add: getVerificationCodeKey_def)

lemma acc_rel_world:
  "codes w \<subseteq>\<^sub>m codes (acc_world s) \<Longrightarrow> users (acc_world s) \<subseteq>\<^sub>m users w \<Longrightarrow> acc_rel codes users s (s\<lparr>acc_world := w\<rparr>)"
  by (auto simp: acc_rel_def map_le_def dom_def)

definition tame :: "'w code_view \<Rightarrow> 'w user_view \<Rightarrow> ('a, ('w, 'z) acc_state_scheme) go \<Rightarrow> bool" where
  "tame codes users m \<longleftrightarrow> (\<forall>s. wp m (\<lambda>_. acc_rel codes users s) (\<lambda>e. e = NilDeref) (\<lambda>_. False) s)"

named_theorems tame_intros \<open>statements that keep the accounts\<close>

lemma tame_bnd [tame_intros]:
  assumes "tame codes users m" and "\<And>x. tame codes users (f x)"
  shows "tame codes users (bnd m f)"
  unfolding tame_def
proof
  fix s
  have "wp m (\<lambda>_. acc_rel codes users s) (\<lambda>e. e = NilDeref) (\<lambda>_. False) s" using assms(1) by (simp add: tame_def)
  then have "wp m (\<lambda>x. wp (f x) (\<lambda>_. acc_rel codes users s) (\<lambda>e. e = NilDeref) (\<lambda>_. False)) (\<lambda>e. e = NilDeref) (\<lambda>_. False) s"
  proof (rule wp_mono)
    fix x t assume st: "acc_rel codes users s t"
    have "wp (f x) (\<lambda>_. acc_rel codes users t) (\<lambda>e. e = NilDeref) (\<lambda>_. False) t" using assms(2) by (simp add: tame_def)
    then show "wp (f x) (\<lambda>_. acc_rel codes users s) (\<lambda>e. e = NilDeref) (\<lambda>_. False) t"
      by (rule wp_mono) (auto intro: acc_rel_trans[OF st])
  qed simp_all
  then show "wp (bnd m f) (\<lambda>_. acc_rel codes users s) (\<lambda>e. e = NilDeref) (\<lambda>_. False) s" by simp
qed

lemma tame_ret [tame_intros]: "tame codes users (ret x)"
  by (simp add: tame_def)

lemma tame_rd [tame_intros]: "tame codes users (rd f)"
  by (simp add: tame_def)

lemma tame_if [tame_intros]: "tame codes users m \<Longrightarrow> tame codes users n \<Longrightarrow> tame codes users (if b then m else n)"
  by simp

lemma tame_option [tame_intros]:
  "tame codes users m \<Longrightarrow> (\<And>y. tame codes users (n y)) \<Longrightarrow> tame codes users (case x of None \<Rightarrow> m | Some y \<Rightarrow> n y)"
  by (simp split: option.split)

lemma wp_ext_call [simp, wp_rules]:
  "wp (ext_call f) Q F R s \<longleftrightarrow> Q (fst (f (acc_world s))) (s\<lparr>acc_world := snd (f (acc_world s))\<rparr>)"
  by (simp add: wp_def ext_call_def)

lemma tame_ext_call:
  "(\<And>w. codes (snd (f w)) \<subseteq>\<^sub>m codes w) \<Longrightarrow> (\<And>w. users w \<subseteq>\<^sub>m users (snd (f w))) \<Longrightarrow> tame codes users (ext_call f)"
  by (simp add: tame_def acc_rel_world)

lemma tame_db_call:
  "(\<And>w. codes (snd (f w)) \<subseteq>\<^sub>m codes w) \<Longrightarrow> (\<And>w. users w \<subseteq>\<^sub>m users (snd (f w))) \<Longrightarrow> tame codes users (db_call f)"
  unfolding db_call_def by (intro tame_bnd tame_rd tame_if tame_ext_call) (simp_all add: tame_def)

lemma tame_services [tame_intros]:
  assumes "services_ok svc codes users"
  shows "tame codes users (ext_call (redis_Get svc k))" and "tame codes users (ext_call (redis_Del svc k))"
    and "tame codes users (db_call (db_First svc e))" and "tame codes users (ext_call (db_Create svc u))"
    and "tame codes users (ext_call (bcrypt_Generate svc p))"
  using assms by (simp_all add: tame_ext_call tame_db_call services_ok_def redis_laws_def db_laws_def bcrypt_laws_def)

lemma tame_crypto_Int [tame_intros]: "tame codes users (crypto_Int n)"
  by (simp add: tame_def crypto_Int_def wp_def Let_def acc_rel_def)

lemma tame_smtp [tame_intros]: "tame codes users (smtp_SendMail m)"
  by (simp add: tame_def smtp_SendMail_def wp_def acc_rel_def)

lemma tame_generateCode [tame_intros]: "tame codes users generateCode"
proof -
  have "tame codes users (generateCode_loop n)" for n
    by (induction n) (auto intro!: tame_intros)
  then show ?thesis by (simp add: generateCode_def)
qed

lemma tame_sendEmail [tame_intros]: "tame codes users (sendEmail es to subject body)"
  by (auto simp: sendEmail_def Let_def intro!: tame_intros)


lemma redis_SetD:
  assumes "services_ok svc codes users"
  shows "codes (snd (redis_Set svc k v ttl w)) k' = Some x \<Longrightarrow> codes w k' = Some x \<or> k' = k \<and> x = v"
    and "users (snd (redis_Set svc k v ttl w)) = users w"
  using assms by (auto simp: services_ok_def redis_laws_def)

lemma redis_GetD:
  assumes "services_ok svc codes users"
  shows "fst (redis_Get svc k w) = Some x \<Longrightarrow> codes w k = Some x"
    and "codes (snd (redis_Get svc k w)) \<subseteq>\<^sub>m codes w" and "users (snd (redis_Get svc k w)) = users w"
  using assms by (auto simp: services_ok_def redis_laws_def)

lemma redis_DelD:
  assumes "services_ok svc codes users"
  shows "fst (redis_Del svc k w) \<Longrightarrow> codes (snd (redis_Del svc k w)) k = None"
    and "codes (snd (redis_Del svc k w)) \<subseteq>\<^sub>m codes w" and "users (snd (redis_Del svc k w)) = users w"
  using assms by (auto simp: services_ok_def redis_laws_def)

lemma acc_rel_store:
  assumes "services_ok svc codes users" and "ToLower email = email" and "set (acc_issued s) \<subseteq> set issued"
    and "(email, code) \<in> set issued"
  shows "acc_rel codes users s (s\<lparr>acc_issued := issued,
    acc_world := snd (redis_Set svc (getVerificationCodeKey email) code ttl (acc_world s))\<rparr>)"
proof -
  let ?w = "snd (redis_Set svc (getVerificationCodeKey email) code ttl (acc_world s))"
  have "codes (acc_world s) (getVerificationCodeKey e) = Some c \<or> (e, c) \<in> set issued"
    if "ToLower e = e" "codes ?w (getVerificationCodeKey e) = Some c" for e c
    using redis_SetD(1)[OF assms(1) that(2)] key_inject[OF that(1) assms(2)] assms(4) by auto
  with assms(3) redis_SetD(2)[OF assms(1)] show ?thesis by (simp add: acc_rel_def)
qed

lemma tame_store_code:
  assumes "services_ok svc codes users" and "ToLower email = email"
  shows "tame codes users (store_code svc email code)"
  unfolding tame_def
proof
  fix s
  show "wp (store_code svc email code) (\<lambda>_. acc_rel codes users s) (\<lambda>e. e = NilDeref) (\<lambda>_. False) s"
    using acc_rel_store[OF assms, of s "acc_issued s @ [(email, code)]" code] by (auto simp: store_code_def)
qed

lemma tame_store_and_send:
  "services_ok svc codes users \<Longrightarrow> ToLower email = email \<Longrightarrow> tame codes users (store_and_send svc es email code)"
  unfolding store_and_send_def by (intro tame_intros tame_store_code)

lemma tame_SendVerificationCode:
  assumes "services_ok svc codes users" and "ToLower email = email"
  shows "tame codes users (SendVerificationCode svc es email)"
  unfolding SendVerificationCode_def
  by (intro tame_intros tame_store_and_send[OF assms])

lemma tame_VerifyCode:
  "services_ok svc codes users \<Longrightarrow> tame codes users (VerifyCode svc email code)"
  unfolding VerifyCode_def by (intro tame_intros)

lemma tame_create_account:
  "services_ok svc codes users \<Longrightarrow> tame codes users (create_account svc email req)"
  unfolding create_account_def by (intro tame_intros)

lemma tame_handlers:
  assumes "services_ok svc codes users"
  shows "tame codes users (Register svc r)" "tame codes users (VerifyEmail svc v)"
    "tame codes users (CompleteRegistration svc c)" "tame codes users (Login svc l)"
  using assms
  by (auto simp: Register_def VerifyEmail_def CompleteRegistration_def Login_def Let_def split: option.split
      intro!: tame_intros tame_SendVerificationCode tame_VerifyCode tame_create_account)

subsection \<open>The service as a transition system\<close>

inductive acc_step :: "'w services \<Rightarrow> 'w acc_state \<Rightarrow> 'w acc_state \<Rightarrow> bool" for svc where
  acc_register: "Register svc r s = Ret x t \<Longrightarrow> acc_step svc s t"
| acc_verify: "VerifyEmail svc v s = Ret x t \<Longrightarrow> acc_step svc s t"
| acc_complete: "CompleteRegistration svc c s = Ret x t \<Longrightarrow> acc_step svc s t"
| acc_login: "Login svc l s = Ret x t \<Longrightarrow> acc_step svc s t"

definition acc_init :: "'w code_view \<Rightarrow> 'w acc_state \<Rightarrow> bool" where
  "acc_init codes s \<longleftrightarrow> codes (acc_world s) = (\<lambda>_. None)"

lemma tameD: "tame codes users m \<Longrightarrow> m s = Ret x t \<Longrightarrow> acc_rel codes users s t"
  unfolding tame_def by (drule spec[of _ s]) (simp add: wp_def)

lemma acc_step_rel:
  assumes "services_ok svc codes users" and "acc_step svc s t"
  shows "acc_rel codes users s t"
  using assms(2) by cases (blast intro: tameD[OF tame_handlers(1)[OF assms(1)]] tameD[OF tame_handlers(2)[OF assms(1)]]
    tameD[OF tame_handlers(3)[OF assms(1)]] tameD[OF tame_handlers(4)[OF assms(1)]])+

lemma acc_steps_rel:
  assumes "services_ok svc codes users" and "(acc_step svc)\<^sup>*\<^sup>* s t"
  shows "acc_rel codes users s t"
  using assms(2) by (induction rule: rtranclp_induct) (auto intro: acc_rel_trans acc_step_rel[OF assms(1)])

text \<open>Every code redis holds for an address was issued for it.\<close>

definition codes_issued :: "'w code_view \<Rightarrow> 'w acc_state \<Rightarrow> bool" where
  "codes_issued codes s \<longleftrightarrow> (\<forall>e c. ToLower e = e \<longrightarrow> codes (acc_world s) (getVerificationCodeKey e) = Some c \<longrightarrow> (e, c) \<in> set (acc_issued s))"

lemma acc_step_issued:
  "services_ok svc codes users \<Longrightarrow> acc_step svc s t \<Longrightarrow> codes_issued codes s \<Longrightarrow> codes_issued codes t"
  using acc_step_rel[of svc codes users s t] unfolding codes_issued_def acc_rel_def by blast

lemma reach_issued:
  assumes "services_ok svc codes users" and "reach (acc_init codes) (acc_step svc) s"
  shows "codes_issued codes s"
  using assms(2)
proof (induction rule: reach.induct)
  case (reach_init s)
  then show ?case by (simp add: acc_init_def codes_issued_def)
next
  case (reach_step s t)
  then show ?case using acc_step_issued[OF assms(1)] by blast
qed


subsection \<open>Registration\<close>

definition normalised :: "string \<Rightarrow> string" where
  "normalised email = ToLower (TrimSpace email)"

lemma ToLower_normalised [simp]: "ToLower (normalised e) = normalised e"
  by (simp add: normalised_def)

lemma VerifyCode_True:
  assumes "services_ok svc codes users" and "VerifyCode svc e c s = Ret True t"
  shows "codes (acc_world s) (getVerificationCodeKey e) = Some c" and "users (acc_world t) = users (acc_world s)"
    and "gRedisClient s" and "\<exists>w. t = s\<lparr>acc_world := snd (redis_Del svc (getVerificationCodeKey e) w)\<rparr>"
proof -
  let ?k = "getVerificationCodeKey e"
  have *: "gRedisClient s \<and> fst (redis_Get svc ?k (acc_world s)) = Some c \<and>
      t = s\<lparr>acc_world := snd (redis_Del svc ?k (snd (redis_Get svc ?k (acc_world s))))\<rparr>"
    using assms(2) by (auto simp: VerifyCode_def go_eval ext_call_def split: if_splits option.splits)
  then show "codes (acc_world s) ?k = Some c" "gRedisClient s" "\<exists>w. t = s\<lparr>acc_world := snd (redis_Del svc ?k w)\<rparr>"
    using redis_GetD(1)[OF assms(1)] by auto
  show "users (acc_world t) = users (acc_world s)"
    using * redis_DelD(3)[OF assms(1)] redis_GetD(3)[OF assms(1)] by simp
qed

lemma VerifyCode_no_code:
  assumes "services_ok svc codes users" and "codes (acc_world s) (getVerificationCodeKey e) = None"
  shows "\<exists>t. VerifyCode svc e c s = Ret False t"
proof -
  have "fst (redis_Get svc (getVerificationCodeKey e) (acc_world s)) = None"
    using redis_GetD(1)[OF assms(1), of "getVerificationCodeKey e" "acc_world s"] assms(2)
    by (cases "fst (redis_Get svc (getVerificationCodeKey e) (acc_world s))") auto
  then show ?thesis by (simp add: VerifyCode_def go_eval ext_call_def)
qed

definition account_for :: "'w services \<Rightarrow> CompleteRequest \<Rightarrow> AuthUser \<Rightarrow> bool" where
  "account_for svc req u \<longleftrightarrow> au_Email u = normalised (cr_Email req) \<and> au_Username u = TrimSpace (cr_Username req) \<and>
     au_IsActive u \<and> bcrypt_Compare svc (au_Password u) (cr_Password req)"

lemma stored_asD:
  assumes "stored_as u u'"
  shows "au_Email u' = au_Email u" "au_Username u' = au_Username u" "au_IsActive u' = au_IsActive u"
    "au_Password u' = au_Password u"
  using assms unfolding stored_as_def by (metis AuthUser.select_convs AuthUser.surjective AuthUser.update_convs)+

lemma ar_Code_reply [simp]: "ar_Code (snd (reply status code msg)) = code" "ar_Code (snd (user_reply msg u)) = CODE_SUCCESS"
  by (simp_all add: reply_def user_reply_def)

lemma CODE_SUCCESS_neq [simp]:
  "CODE_INVALID_PARAM \<noteq> CODE_SUCCESS" "CODE_ERROR \<noteq> CODE_SUCCESS" "CODE_FORBIDDEN_PARAM \<noteq> CODE_SUCCESS"
  "CODE_REPEAT_PARAM \<noteq> CODE_SUCCESS" "CODE_SERVERBUSY_PARAM \<noteq> CODE_SUCCESS"
  by (simp_all add: code_defs)

lemma create_account_success:
  assumes ok: "services_ok svc codes users" and run: "create_account svc (normalised (cr_Email req)) req s = Ret r t"
    and code: "ar_Code (snd r) = CODE_SUCCESS"
  shows "\<exists>u. users (acc_world s) (normalised (cr_Email req)) = None \<and>
    users (acc_world t) = (users (acc_world s))(normalised (cr_Email req) \<mapsto> u) \<and> gAuthDB s \<and>
    account_for svc req u \<and> r = user_reply ''User registered successfully'' u"
proof -
  let ?e = "normalised (cr_Email req)"
  let ?w1 = "snd (db_First svc ?e (acc_world s))"
  let ?w2 = "snd (bcrypt_Generate svc (cr_Password req) ?w1)"
  obtain h u where h: "fst (bcrypt_Generate svc (cr_Password req) ?w1) = Some h"
    and u: "fst (db_Create svc \<lparr>au_ID = 0, au_Email = ?e, au_Password = h, au_Username = TrimSpace (cr_Username req),
        au_IsActive = True, au_CreatedAt = 0, au_UpdatedAt = 0\<rparr> ?w2) = Some u"
    and t: "acc_world t = snd (db_Create svc \<lparr>au_ID = 0, au_Email = ?e, au_Password = h,
        au_Username = TrimSpace (cr_Username req), au_IsActive = True, au_CreatedAt = 0, au_UpdatedAt = 0\<rparr> ?w2)"
    and r: "r = user_reply ''User registered successfully'' u" and db: "gAuthDB s"
    using run code
    by (auto simp: create_account_def go_eval db_call_apply ext_call_def split: if_splits option.splits)
  have w: "users ?w2 = users (acc_world s)" and cmp: "bcrypt_Compare svc h (cr_Password req)"
    using ok h by (auto simp: services_ok_def db_laws_def bcrypt_laws_def)
  have "users ?w2 ?e = None \<and> stored_as \<lparr>au_ID = 0, au_Email = ?e, au_Password = h, au_Username = TrimSpace (cr_Username req),
        au_IsActive = True, au_CreatedAt = 0, au_UpdatedAt = 0\<rparr> u \<and> users (acc_world t) = (users ?w2)(?e \<mapsto> u)"
    using ok u unfolding t services_ok_def db_laws_def by fastforce
  with w cmp r db show ?thesis by (auto simp: account_for_def stored_asD)
qed

lemma CompleteRegistration_success:
  assumes ok: "services_ok svc codes users" and run: "CompleteRegistration svc (Some req) s = Ret r t"
    and code: "ar_Code (snd r) = CODE_SUCCESS"
  shows "codes (acc_world s) (getVerificationCodeKey (normalised (cr_Email req))) = Some (cr_Code req) \<and>
    validateEmail (normalised (cr_Email req)) \<and> users (acc_world s) (normalised (cr_Email req)) = None \<and>
    (\<exists>u. users (acc_world t) = (users (acc_world s))(normalised (cr_Email req) \<mapsto> u) \<and>
      account_for svc req u \<and> r = user_reply ''User registered successfully'' u)"
proof -
  let ?e = "normalised (cr_Email req)"
  obtain t1 where v: "VerifyCode svc ?e (cr_Code req) s = Ret True t1" and c: "create_account svc ?e req t1 = Ret r t"
    and e: "validateEmail ?e"
    using run code
    by (auto simp: CompleteRegistration_def Let_def normalised_def[symmetric] go_eval split: if_splits outcome.splits)
  from create_account_success[OF ok c code] VerifyCode_True[OF ok v] e show ?thesis by auto
qed

text \<open>
  C17. An account is created only with a code issued for its address. Over every sequence of requests, a
  successful \<^verbatim>\<open>CompleteRegistration\<close> presented a code that the server generated for that address, the address
  had no account before, the table gains exactly the one account with the requested name, active and with a
  hash of the requested password, and the reply names that account.
\<close>

theorem registration_needs_issued_code:
  assumes "services_ok svc codes users" and "reach (acc_init codes) (acc_step svc) s"
    and "CompleteRegistration svc (Some req) s = Ret r t" and "ar_Code (snd r) = CODE_SUCCESS"
  shows "(normalised (cr_Email req), cr_Code req) \<in> set (acc_issued s) \<and>
    users (acc_world s) (normalised (cr_Email req)) = None \<and>
    (\<exists>u. users (acc_world t) = (users (acc_world s))(normalised (cr_Email req) \<mapsto> u) \<and>
      account_for svc req u \<and> r = user_reply ''User registered successfully'' u)"
  using CompleteRegistration_success[OF assms(1,3,4)] reach_issued[OF assms(1,2)]
  unfolding codes_issued_def by (metis ToLower_normalised)

text \<open>
  C31. A code is used up by its first successful check, provided that redis deletes what it is told to delete: the
  \<^verbatim>\<open>CompleteRegistration\<close> for the same address that follows a \<^verbatim>\<open>VerifyEmail\<close> which accepted a code, with no new code sent in
  between, is refused whatever code it presents. So verifying an address first makes completing its registration
  impossible until a new code is sent.
\<close>

theorem verified_code_is_used_up:
  assumes "services_ok svc codes users" and "\<forall>k w. fst (redis_Del svc k w)"
    and "VerifyEmail svc (Some v) s = Ret r t" and "ar_Code (snd r) = CODE_SUCCESS"
    and "normalised (cr_Email req) = normalised (ve_Email v)"
  shows "\<exists>u. CompleteRegistration svc (Some req) t =
    Ret (reply 400 CODE_INVALID_PARAM ''Invalid or expired verification code'') u"
proof -
  let ?e = "normalised (ve_Email v)"
  have ver: "VerifyCode svc ?e (ve_Code v) s = Ret True t" and e: "validateEmail ?e" "gEmailService s \<noteq> None"
    using assms(3,4)
    by (auto simp: VerifyEmail_def Let_def normalised_def[symmetric] go_eval split: if_splits outcome.splits)
  obtain w where t: "t = s\<lparr>acc_world := snd (redis_Del svc (getVerificationCodeKey ?e) w)\<rparr>"
    using VerifyCode_True(4)[OF assms(1) ver] by blast
  then have "codes (acc_world t) (getVerificationCodeKey ?e) = None"
    using redis_DelD(1)[OF assms(1)] assms(2) by simp
  then obtain u where "VerifyCode svc ?e (cr_Code req) t = Ret False u"
    using VerifyCode_no_code[OF assms(1)] by blast
  moreover have "gEmailService t \<noteq> None" using e t by simp
  ultimately show ?thesis
    using e assms(5) by (auto simp: CompleteRegistration_def Let_def normalised_def[symmetric] go_eval)
qed

subsection \<open>Login\<close>

text \<open>
  C32. A login succeeds only for an active account of the table whose password hash matches the presented
  password, and it changes no account. For a well-formed address, an address without account and a wrong password of an
  active account get one and the same reply, byte for byte, so the reply does not tell whether the address has an
  active account; the only further refusals are those of a malformed address and of an account that is not active.
\<close>

theorem login_sound:
  assumes "services_ok svc codes users" and "Login svc (Some l) s = Ret r t"
  shows "users (acc_world t) = users (acc_world s) \<and>
    (ar_Code (snd r) = CODE_SUCCESS \<longrightarrow> (\<exists>u. users (acc_world s) (normalised (lr_Email l)) = Some u \<and> au_IsActive u \<and>
       bcrypt_Compare svc (au_Password u) (lr_Password l) \<and> r = user_reply ''Login successful'' u)) \<and>
    (validateEmail (normalised (lr_Email l)) \<longrightarrow>
       (case users (acc_world s) (normalised (lr_Email l)) of
          None \<Rightarrow> True
        | Some u \<Rightarrow> au_IsActive u \<and> \<not> bcrypt_Compare svc (au_Password u) (lr_Password l)) \<longrightarrow>
       r = reply 401 CODE_ERROR ''Invalid email or password'') \<and>
    (ar_Code (snd r) \<noteq> CODE_SUCCESS \<longrightarrow> r \<in> {reply 400 CODE_INVALID_PARAM ''Invalid email format'',
       reply 401 CODE_ERROR ''Invalid email or password'', reply 403 CODE_FORBIDDEN_PARAM ''Account not activated''})"
proof -
  let ?e = "normalised (lr_Email l)"
  have "users (snd (db_First svc ?e w)) = users w" "fst (db_First svc ?e w) = Some u \<Longrightarrow> users w ?e = Some u" for w u
    using assms(1) by (auto simp: services_ok_def db_laws_def)
  with assms(2) show ?thesis
    by (auto simp: Login_def Let_def normalised_def[symmetric] go_eval db_call_apply ext_call_def split: if_splits option.splits)
qed

text \<open>
  C18. Registration then login: once a registration has succeeded, the same address in any spelling that
  normalises to it and the same password log in to that account after any further requests, as long as the
  database answers the query.
\<close>

theorem login_after_registration:
  assumes "services_ok svc codes users" and "CompleteRegistration svc (Some req) s = Ret r t"
    and "ar_Code (snd r) = CODE_SUCCESS" and "(acc_step svc)\<^sup>*\<^sup>* t t'"
    and "normalised (lr_Email l) = normalised (cr_Email req)" and "lr_Password l = cr_Password req"
    and "fst (db_First svc (normalised (cr_Email req)) (acc_world t')) = users (acc_world t') (normalised (cr_Email req))"
  shows "\<exists>r' v. Login svc (Some l) t' = Ret r' v \<and> fst r' = 200 \<and> ar_Code (snd r') = CODE_SUCCESS \<and>
    ar_Data (snd r') = ar_Data (snd r)"
proof -
  let ?e = "normalised (cr_Email req)"
  obtain u where u: "users (acc_world t) ?e = Some u" "account_for svc req u" "r = user_reply ''User registered successfully'' u"
    and e: "validateEmail ?e"
    using CompleteRegistration_success[OF assms(1-3)] by auto
  have "gAuthDB s" using assms(2,3)
    by (auto simp: CompleteRegistration_def Let_def normalised_def[symmetric] go_eval create_account_def db_call_apply
        VerifyCode_def ext_call_def split: if_splits outcome.splits option.splits)
  then have db: "gAuthDB t'" using tameD[OF tame_handlers(3)[OF assms(1)] assms(2)] acc_steps_rel[OF assms(1,4)] by (simp add: acc_rel_def)
  have "users (acc_world t) \<subseteq>\<^sub>m users (acc_world t')"
    using acc_steps_rel[OF assms(1,4)] by (simp add: acc_rel_def)
  then have "users (acc_world t') ?e = Some u" using u(1) by (metis domI map_le_def)
  with assms(5-7) u e db show ?thesis
    by (simp add: Login_def Let_def normalised_def[symmetric] go_eval db_call_apply ext_call_def account_for_def user_reply_def)
qed


subsection \<open>A concrete run\<close>

text \<open>Services over two lists: the keys of redis and the table of accounts; nothing fails or expires.\<close>

type_synonym demo_world = "(string, string) gomap \<times> AuthUser list"

definition demo_users :: "demo_world user_view" where
  "demo_users w e = find (\<lambda>u. au_Email u = e) (snd w)"

definition demo_codes :: "demo_world code_view" where
  "demo_codes w k = map_of (fst w) k"

definition demo_services :: "demo_world services" where
  "demo_services = \<lparr>redis_Set = (\<lambda>k v ttl w. (True, (AList.update k v (fst w), snd w))),
     redis_Get = (\<lambda>k w. (map_of (fst w) k, w)),
     redis_Del = (\<lambda>k w. (True, (AList.delete k (fst w), snd w))),
     db_First = (\<lambda>e w. (find (\<lambda>u. au_Email u = e) (snd w), w)),
     db_Create = (\<lambda>u w. if find (\<lambda>x. au_Email x = au_Email u) (snd w) \<noteq> None then (None, w)
        else let u' = u\<lparr>au_ID := of_nat (Suc (length (snd w)))\<rparr> in (Some u', (fst w, snd w @ [u']))),
     bcrypt_Generate = (\<lambda>p w. (Some (''hash:'' @ p), w)),
     bcrypt_Compare = (\<lambda>h p. h = ''hash:'' @ p)\<rparr>"

lemma find_snoc: "find P (xs @ [x]) = (case find P xs of None \<Rightarrow> if P x then Some x else None | Some y \<Rightarrow> Some y)"
  by (induction xs) auto

lemma demo_services_ok: "services_ok demo_services demo_codes demo_users"
proof -
  have "redis_laws demo_services demo_codes demo_users"
    by (auto simp: redis_laws_def demo_services_def demo_codes_def demo_users_def map_le_def fun_eq_iff split: if_splits)
  moreover have "db_laws demo_services demo_codes demo_users"
    unfolding db_laws_def demo_services_def demo_codes_def demo_users_def
    by (auto simp: map_le_def fun_eq_iff find_snoc stored_as_def Let_def split: if_splits option.splits)
  moreover have "bcrypt_laws demo_services demo_codes demo_users"
    by (auto simp: bcrypt_laws_def demo_services_def demo_codes_def demo_users_def map_le_def fun_eq_iff)
  ultimately show ?thesis by (simp add: services_ok_def)
qed

definition demo_acc :: "demo_world \<Rightarrow> mail list \<Rightarrow> (string \<times> string) list \<Rightarrow> demo_world acc_state" where
  "demo_acc w mails issued = \<lparr>rnd = (\<lambda>_. 7), clock = (\<lambda>_. 0), order = (\<lambda>_ ks. ks), acc_world = w,
     gEmailService = Some \<lparr>es_smtpHost = ''smtp'', es_smtpPort = 25, es_fromEmail = ''f'', es_password = ''p''\<rparr>,
     gRedisClient = True, gAuthDB = True, acc_rand = (\<lambda>_. True), acc_smtp = (\<lambda>_. True), acc_mails = mails, acc_issued = issued\<rparr>"

definition demo_key :: string where "demo_key = getVerificationCodeKey ''al@ex.io''"

lemma demo_email: "normalised '' Al@Ex.io'' = ''al@ex.io''" "normalised ''al@ex.io'' = ''al@ex.io''" "validateEmail ''al@ex.io''"
  by code_simp+

lemma demo_generateCode: "generateCode (demo_acc w mails issued) = Ret (Some ''777777'') (demo_acc w mails issued)"
proof -
  have "''0123456789'' ! 7 = CHR ''7''" by code_simp
  then have step: "crypto_Int (length ''0123456789'') (demo_acc w mails issued) = Ret (Some 7) (demo_acc w mails issued)"
    by (simp add: crypto_Int_def demo_acc_def Let_def)
  have "generateCode_loop n (demo_acc w mails issued) = Ret (Some (replicate n CHR ''7'')) (demo_acc w mails issued)" for n
  proof (induction n)
    case (Suc n)
    then show ?case
      unfolding generateCode_loop.simps(2) bnd_def step by (simp add: ret_apply)
  qed (simp add: ret_apply)
  moreover have "replicate 6 CHR ''7'' = ''777777''" by (simp add: eval_nat_numeral)
  ultimately show ?thesis by (simp add: generateCode_def)
qed

lemma demo_sendEmail: "\<exists>mails'. sendEmail es to subject body (demo_acc w mails issued) = Ret None (demo_acc w mails' issued)"
  by (simp add: sendEmail_def Let_def go_eval smtp_SendMail_def demo_acc_def)

lemma demo_store:
  "store_and_send demo_services es email code (demo_acc (cs, us) mails issued) =
     sendEmail es email ''Your Verification Code'' (code_body code)
       (demo_acc (AList.update (getVerificationCodeKey email) code cs, us) mails (issued @ [(email, code)]))"
  by (simp add: store_and_send_def store_code_def go_eval ext_call_def demo_acc_def demo_services_def)

lemma demo_register:
  "\<exists>mails. Register demo_services (Some \<lparr>rr_Email = '' Al@Ex.io'', rr_Password = ''secret'', rr_Username = ''Al''\<rparr>) (demo_acc ([], []) [] [])
     = Ret (reply 200 CODE_SUCCESS ''Verification code sent to email'') (demo_acc ([(demo_key, ''777777'')], []) mails [(''al@ex.io'', ''777777'')])"
proof -
  have "\<exists>mails. SendVerificationCode demo_services es ''al@ex.io'' (demo_acc ([], []) [] []) =
      Ret None (demo_acc ([(demo_key, ''777777'')], []) mails [(''al@ex.io'', ''777777'')])" for es
    using demo_sendEmail[of es "''al@ex.io''" "''Your Verification Code''" "code_body ''777777''" "([(demo_key, ''777777'')], [])" "[]"
        "[(''al@ex.io'', ''777777'')]"]
    by (simp add: SendVerificationCode_def bnd_def demo_generateCode demo_store demo_key_def)
  then obtain mails where send: "SendVerificationCode demo_services (the (gEmailService (demo_acc ([], []) [] []))) ''al@ex.io'' (demo_acc ([], []) [] []) =
      Ret None (demo_acc ([(demo_key, ''777777'')], []) mails [(''al@ex.io'', ''777777'')])" by blast
  have first: "db_call (db_First demo_services e) (demo_acc ([], []) [] []) = Ret None (demo_acc ([], []) [] [])" for e
    by (simp add: db_call_apply ext_call_def demo_services_def demo_acc_def)
  have "gEmailService (demo_acc ([], []) [] []) \<noteq> None" by (simp add: demo_acc_def)
  with send show ?thesis
    by (auto simp: Register_def Let_def normalised_def[symmetric] demo_email bnd_def first rd_apply ret_apply)
qed


definition demo_complete_req :: CompleteRequest where
  "demo_complete_req = \<lparr>cr_Email = ''al@ex.io'', cr_Code = ''777777'', cr_Password = ''secret'', cr_Username = ''Al''\<rparr>"

definition demo_account :: AuthUser where
  "demo_account = \<lparr>au_ID = 1, au_Email = ''al@ex.io'', au_Password = ''hash:secret'', au_Username = ''Al'', au_IsActive = True,
     au_CreatedAt = 0, au_UpdatedAt = 0\<rparr>"

lemma demo_VerifyCode:
  "VerifyCode demo_services ''al@ex.io'' ''777777'' (demo_acc ([(demo_key, ''777777'')], us) mails issued) = Ret True (demo_acc ([], us) mails issued)"
  by (simp add: VerifyCode_def go_eval ext_call_def demo_acc_def demo_services_def demo_key_def)

lemma demo_create:
  "create_account demo_services ''al@ex.io'' demo_complete_req (demo_acc ([], []) mails issued) =
     Ret (user_reply ''User registered successfully'' demo_account) (demo_acc ([], [demo_account]) mails issued)"
proof -
  have "TrimSpace ''Al'' = ''Al''" by code_simp
  then show ?thesis
    by (simp add: create_account_def go_eval db_call_apply ext_call_def demo_acc_def demo_services_def demo_complete_req_def demo_account_def Let_def)
qed

lemma demo_email_service [simp]: "gEmailService (demo_acc w mails issued) \<noteq> None"
  by (simp add: demo_acc_def)

lemma demo_complete:
  "CompleteRegistration demo_services (Some demo_complete_req) (demo_acc ([(demo_key, ''777777'')], []) mails issued) =
     Ret (user_reply ''User registered successfully'' demo_account) (demo_acc ([], [demo_account]) mails issued)"
proof -
  have "cr_Email demo_complete_req = ''al@ex.io''" "cr_Code demo_complete_req = ''777777''" by (simp_all add: demo_complete_req_def)
  then show ?thesis
    by (simp add: CompleteRegistration_def Let_def normalised_def[symmetric] demo_email bnd_def rd_apply demo_VerifyCode demo_create)
qed

lemma demo_verify:
  "VerifyEmail demo_services (Some \<lparr>ve_Email = '' Al@Ex.io'', ve_Code = ''777777''\<rparr>) (demo_acc ([(demo_key, ''777777'')], []) mails issued) =
     Ret (reply 200 CODE_SUCCESS ''Email verified successfully'') (demo_acc ([], []) mails issued)"
  by (simp add: VerifyEmail_def Let_def normalised_def[symmetric] demo_email bnd_def rd_apply ret_apply demo_VerifyCode)

lemma demo_issued:
  obtains mails where "reach (acc_init demo_codes) (acc_step demo_services)
    (demo_acc ([(demo_key, ''777777'')], []) mails [(''al@ex.io'', ''777777'')])"
proof -
  have "reach (acc_init demo_codes) (acc_step demo_services) (demo_acc ([], []) [] [])"
    by (rule reach_init) (simp add: acc_init_def demo_codes_def demo_acc_def fun_eq_iff)
  with demo_register that show thesis by (meson reach_step acc_register)
qed

theorem registration_needs_issued_code_witness:
  "\<exists>mails. (''al@ex.io'', ''777777'') \<in> set (acc_issued (demo_acc ([(demo_key, ''777777'')], []) mails [(''al@ex.io'', ''777777'')])) \<and>
     account_for demo_services demo_complete_req demo_account"
proof -
  obtain mails where r: "reach (acc_init demo_codes) (acc_step demo_services)
      (demo_acc ([(demo_key, ''777777'')], []) mails [(''al@ex.io'', ''777777'')])" by (rule demo_issued)
  have req: "cr_Email demo_complete_req = ''al@ex.io''" "cr_Code demo_complete_req = ''777777''"
    by (simp_all add: demo_complete_req_def)
  have "demo_users (acc_world (demo_acc ([], [demo_account]) mails [(''al@ex.io'', ''777777'')])) ''al@ex.io'' = Some demo_account"
    by (simp add: demo_users_def demo_acc_def demo_account_def)
  with registration_needs_issued_code[OF demo_services_ok r demo_complete] show ?thesis
    by (auto simp: req demo_email)
qed

theorem verified_code_is_used_up_witness:
  "\<exists>u. CompleteRegistration demo_services (Some demo_complete_req) (demo_acc ([], []) [] []) =
     Ret (reply 400 CODE_INVALID_PARAM ''Invalid or expired verification code'') u"
  by (rule verified_code_is_used_up[OF demo_services_ok _ demo_verify])
    (simp_all add: demo_services_def demo_complete_req_def demo_email)

definition demo_login :: LoginRequest where
  "demo_login = \<lparr>lr_Email = '' Al@Ex.io'', lr_Password = ''secret''\<rparr>"

lemma demo_Login:
  "Login demo_services (Some demo_login) (demo_acc ([], [demo_account]) [] []) =
     Ret (user_reply ''Login successful'' demo_account) (demo_acc ([], [demo_account]) [] [])"
  by (simp add: Login_def Let_def normalised_def[symmetric] demo_email demo_login_def)
    (simp add: go_eval db_call_apply ext_call_def demo_services_def demo_acc_def demo_account_def)

theorem login_sound_witness:
  "\<exists>u. demo_users (acc_world (demo_acc ([], [demo_account]) [] [])) ''al@ex.io'' = Some u \<and> au_IsActive u \<and>
     bcrypt_Compare demo_services (au_Password u) ''secret''"
  using login_sound[OF demo_services_ok demo_Login] by (auto simp: demo_login_def demo_email)

theorem login_after_registration_witness:
  "\<exists>r v. Login demo_services (Some demo_login) (demo_acc ([], [demo_account]) [] []) = Ret r v \<and> fst r = 200 \<and>
     ar_Code (snd r) = CODE_SUCCESS \<and> ar_Data (snd r) = UserData 1 ''al@ex.io'' ''Al''"
proof -
  have db: "fst (db_First demo_services e w) = demo_users w e" for e w by (simp add: demo_services_def demo_users_def)
  have data: "ar_Data (snd (user_reply m demo_account)) = UserData 1 ''al@ex.io'' ''Al''" for m
    by (simp add: user_reply_def demo_account_def)
  show ?thesis
    using login_after_registration[OF demo_services_ok demo_complete, of "[]" "[]" "demo_acc ([], [demo_account]) [] []" demo_login]
    by (simp add: db data demo_login_def demo_complete_req_def demo_email)
qed


subsection \<open>The generated code\<close>

lemma wp_bnd_ret: "wp (bnd m (\<lambda>r. ret (f r))) Q F R s \<longleftrightarrow> wp m (\<lambda>r. Q (f r)) F R s"
  by (simp add: wp_def bnd_def ret_apply split: outcome.split)

lemma generateCode_loop_digits:
  "wp (generateCode_loop n) (\<lambda>r _. \<forall>code. r = Some code \<longrightarrow> length code = n \<and> list_all is_digit code) (\<lambda>_. False) (\<lambda>_. False) s"
proof (induction n arbitrary: s)
  case (Suc n)
  have digit: "is_digit (''0123456789'' ! (k mod 10))" for k
  proof -
    have "list_all is_digit ''0123456789''" by code_simp
    then show ?thesis unfolding list_all_length by (rule allE[of _ "k mod 10"]) simp
  qed
  have loop: "wp (generateCode_loop n) (\<lambda>r _. \<forall>code. map_option (\<lambda>c. ''0123456789'' ! (k mod 10) # c) r = Some code \<longrightarrow>
      length code = Suc n \<and> list_all is_digit code) (\<lambda>_. False) (\<lambda>_. False)
      (s\<lparr>acc_rand := \<lambda>i. acc_rand s (Suc i), rnd := \<lambda>i. rnd s (Suc i)\<rparr>)" for k
    by (rule wp_mono[OF Suc.IH]) (use digit in auto)
  have int: "wp (crypto_Int 10) (\<lambda>num. wp (case num of None \<Rightarrow> ret None
      | Some i \<Rightarrow> bnd (generateCode_loop n) (\<lambda>r. ret (map_option (\<lambda>c. ''0123456789'' ! i # c) r)))
      (\<lambda>r _. \<forall>code. r = Some code \<longrightarrow> length code = Suc n \<and> list_all is_digit code) (\<lambda>_. False) (\<lambda>_. False)) (\<lambda>_. False) (\<lambda>_. False) s"
    using loop[of "rnd s 0"] by (simp add: wp_def[of "crypto_Int 10"] crypto_Int_def Let_def wp_bnd_ret del: wp_bnd)
  have "length ''0123456789'' = 10" by simp
  then show ?case unfolding generateCode_loop.simps(2) wp_bnd using int by metis
qed simp

text \<open>
  C38. \<^verbatim>\<open>generateCode\<close> always returns, and when the random source does not fail, its result is a string of
  exactly six decimal digits, the length the requests with a code must have.
\<close>

theorem generateCode_six_digits:
  "\<exists>r t. generateCode s = Ret r t \<and> (\<forall>code. r = Some code \<longrightarrow> length code = 6 \<and> list_all is_digit code)"
  using generateCode_loop_digits[of 6 s] by (auto simp: generateCode_def wp_total)

theorem generateCode_six_digits_witness:
  "\<exists>t. generateCode (demo_acc ([], []) [] []) = Ret (Some ''777777'') t \<and> length ''777777'' = 6 \<and> list_all is_digit ''777777''"
  using generateCode_six_digits[of "demo_acc ([], []) [] []"] by (auto simp: demo_generateCode)

end
