(* ===== verification/Account_Threads.thy ===== *)
theory Account_Threads
  imports Accounts
begin

section \<open>Account requests side by side (httpHandler.go, emailService.go)\<close>

text \<open>
  The HTTP server runs every request in a goroutine of its own. A goroutine is a tree of the steps it has left,
  where a step is one call of redis, the database, bcrypt or the mail server; between two steps of one request
  other requests run. The theory has the handlers in this form, shows that a handler that runs alone is the
  handler of \<open>Accounts\<close>, and what holds when any number of requests interleave.
\<close>

subsection \<open>Goroutines as trees of steps\<close>

datatype ('a, 's) thread =
    Done 'a
  | Crash go_panic
  | Block
  | Act "'s \<Rightarrow> ('a, 's) thread \<times> 's"

primrec seq :: "('a, 's) thread \<Rightarrow> ('a \<Rightarrow> ('b, 's) thread) \<Rightarrow> ('b, 's) thread" where
  "seq (Done x) f = f x"
| "seq (Crash e) f = Crash e"
| "seq Block f = Block"
| "seq (Act g) f = Act (map_prod (\<lambda>t. seq t f) id \<circ> g)"

primrec run_thread :: "('a, 's) thread \<Rightarrow> ('a, 's) go" where
  "run_thread (Done x) = ret x"
| "run_thread (Crash e) = panic e"
| "run_thread Block = Stuck"
| "run_thread (Act g) = (\<lambda>s. case (map_prod run_thread id \<circ> g) s of (m, t) \<Rightarrow> m t)"

definition lift :: "('a, 's) go \<Rightarrow> ('a, 's) thread" where
  "lift m = Act (\<lambda>s. case m s of Ret x t \<Rightarrow> (Done x, t) | Panic e \<Rightarrow> (Crash e, s) | Stuck t \<Rightarrow> (Block, t))"

lemma run_seq: "run_thread (seq m f) = bnd (run_thread m) (\<lambda>x. run_thread (f x))"
proof (induction m)
  case (Act g)
  show ?case
  proof
    fix s
    obtain t s' where g: "g s = (t, s')" by force
    have "run_thread (seq t f) = bnd (run_thread t) (\<lambda>x. run_thread (f x))"
      using Act[of "g s" t] rangeI[of g s] g by simp
    with g show "run_thread (seq (Act g) f) s = bnd (run_thread (Act g)) (\<lambda>x. run_thread (f x)) s"
      by (simp add: bnd_def)
  qed
qed (simp_all add: fun_eq_iff bnd_def ret_apply panic_apply)

lemma run_lift [simp]: "run_thread (lift m) = m"
  by (simp add: fun_eq_iff lift_def ret_apply panic_apply split: outcome.split)

lemma run_if: "run_thread (if b then m else n) = (if b then run_thread m else run_thread n)"
  by simp

lemma run_option: "run_thread (case x of None \<Rightarrow> m | Some y \<Rightarrow> n y) = (case x of None \<Rightarrow> run_thread m | Some y \<Rightarrow> run_thread (n y))"
  by (simp split: option.split)

lemmas run_simps = run_seq run_if run_option

subsection \<open>The handlers\<close>

type_synonym ('a, 'w) acc_thread = "('a, 'w acc_state) thread"

definition VerifyCode_thread :: "'w services \<Rightarrow> string \<Rightarrow> string \<Rightarrow> (bool \<Rightarrow> (http_reply, 'w) acc_thread) \<Rightarrow> (http_reply, 'w) acc_thread" where
  "VerifyCode_thread svc email code k =
     seq (lift (rd gRedisClient)) (\<lambda>redisClient.
     if \<not> redisClient then k False
     else
       seq (lift (ext_call (redis_Get svc (getVerificationCodeKey email)))) (\<lambda>r.
       case r of
         None \<Rightarrow> k False
       | Some storedCode \<Rightarrow>
           if storedCode = code then
             seq (lift (ext_call (redis_Del svc (getVerificationCodeKey email)))) (\<lambda>_. k True)
           else k False))"

definition send_reply :: "send_error option \<Rightarrow> http_reply" where
  "send_reply err = (if err \<noteq> None then reply 500 CODE_SERVERBUSY_PARAM ''Failed to send verification code''
     else reply 200 CODE_SUCCESS ''Verification code sent to email'')"

definition SendVerificationCode_thread :: "'w services \<Rightarrow> EmailService \<Rightarrow> string \<Rightarrow> (http_reply, 'w) acc_thread" where
  "SendVerificationCode_thread svc es email =
     seq (lift generateCode) (\<lambda>r.
     case r of
       None \<Rightarrow> Done (send_reply (Some GenerateFailed))
     | Some code \<Rightarrow>
         seq (lift (rd gRedisClient)) (\<lambda>redisClient.
         if \<not> redisClient then Done (send_reply (Some RedisNotInitialized))
         else
           seq (lift (store_code svc email code)) (\<lambda>ok.
           if \<not> ok then Done (send_reply (Some StoreFailed))
           else
             seq (lift (sendEmail es email ''Your Verification Code'' (code_body code))) (\<lambda>err.
             Done (send_reply err)))))"

definition Register_thread :: "'w services \<Rightarrow> RegisterRequest option \<Rightarrow> (http_reply, 'w) acc_thread" where
  "Register_thread svc body =
     (case body of
        None \<Rightarrow> Done (reply 400 CODE_INVALID_PARAM ''Invalid request parameters'')
      | Some req \<Rightarrow>
          let email = ToLower (TrimSpace (rr_Email req)) in
          if \<not> validateEmail email then Done (reply 400 CODE_INVALID_PARAM ''Invalid email format'')
          else if length (rr_Password req) < 6 then
            Done (reply 400 CODE_INVALID_PARAM ''Password must be at least 6 characters'')
          else
            seq (lift (db_call (db_First svc email))) (\<lambda>existingUser.
            if existingUser \<noteq> None then Done (reply 400 CODE_REPEAT_PARAM ''Email already registered'')
            else
              seq (lift (rd gEmailService)) (\<lambda>emailService.
              case emailService of
                None \<Rightarrow> Done (reply 500 CODE_SERVERBUSY_PARAM ''Email service not available'')
              | Some es \<Rightarrow> SendVerificationCode_thread svc es email)))"

definition VerifyEmail_thread :: "'w services \<Rightarrow> VerifyEmailRequest option \<Rightarrow> (http_reply, 'w) acc_thread" where
  "VerifyEmail_thread svc body =
     (case body of
        None \<Rightarrow> Done (reply 400 CODE_INVALID_PARAM ''Invalid request parameters'')
      | Some req \<Rightarrow>
          let email = ToLower (TrimSpace (ve_Email req)) in
          if \<not> validateEmail email then Done (reply 400 CODE_INVALID_PARAM ''Invalid email format'')
          else
            seq (lift (rd gEmailService)) (\<lambda>emailService.
            if emailService = None then Done (reply 500 CODE_SERVERBUSY_PARAM ''Email service not available'')
            else
              VerifyCode_thread svc email (ve_Code req) (\<lambda>valid.
              if \<not> valid then Done (reply 400 CODE_INVALID_PARAM ''Invalid or expired verification code'')
              else Done (reply 200 CODE_SUCCESS ''Email verified successfully''))))"

definition create_account_thread :: "'w services \<Rightarrow> string \<Rightarrow> CompleteRequest \<Rightarrow> (http_reply, 'w) acc_thread" where
  "create_account_thread svc email req =
     seq (lift (db_call (db_First svc email))) (\<lambda>existingUser.
     if existingUser \<noteq> None then Done (reply 400 CODE_REPEAT_PARAM ''Email already registered'')
     else
       seq (lift (ext_call (bcrypt_Generate svc (cr_Password req)))) (\<lambda>hashed.
       case hashed of
         None \<Rightarrow> Done (reply 500 CODE_SERVERBUSY_PARAM ''Failed to process password'')
       | Some hashedPassword \<Rightarrow>
           seq (lift (ext_call (db_Create svc \<lparr>au_ID = 0, au_Email = email, au_Password = hashedPassword,
              au_Username = TrimSpace (cr_Username req), au_IsActive = True, au_CreatedAt = 0, au_UpdatedAt = 0\<rparr>))) (\<lambda>created.
           case created of
             None \<Rightarrow> Done (reply 500 CODE_SERVERBUSY_PARAM ''Failed to create user'')
           | Some user \<Rightarrow> Done (user_reply ''User registered successfully'' user))))"

definition CompleteRegistration_thread :: "'w services \<Rightarrow> CompleteRequest option \<Rightarrow> (http_reply, 'w) acc_thread" where
  "CompleteRegistration_thread svc body =
     (case body of
        None \<Rightarrow> Done (reply 400 CODE_INVALID_PARAM ''Invalid request parameters'')
      | Some req \<Rightarrow>
          let email = ToLower (TrimSpace (cr_Email req)) in
          if \<not> validateEmail email then Done (reply 400 CODE_INVALID_PARAM ''Invalid email format'')
          else
            seq (lift (rd gEmailService)) (\<lambda>emailService.
            if emailService = None then Done (reply 500 CODE_SERVERBUSY_PARAM ''Email service not available'')
            else
              VerifyCode_thread svc email (cr_Code req) (\<lambda>valid.
              if \<not> valid then Done (reply 400 CODE_INVALID_PARAM ''Invalid or expired verification code'')
              else create_account_thread svc email req)))"

definition Login_thread :: "'w services \<Rightarrow> LoginRequest option \<Rightarrow> (http_reply, 'w) acc_thread" where
  "Login_thread svc body =
     (case body of
        None \<Rightarrow> Done (reply 400 CODE_INVALID_PARAM ''Invalid request parameters'')
      | Some req \<Rightarrow>
          let email = ToLower (TrimSpace (lr_Email req)) in
          if \<not> validateEmail email then Done (reply 400 CODE_INVALID_PARAM ''Invalid email format'')
          else
            seq (lift (db_call (db_First svc email))) (\<lambda>found.
            case found of
              None \<Rightarrow> Done (reply 401 CODE_ERROR ''Invalid email or password'')
            | Some user \<Rightarrow>
                if \<not> au_IsActive user then Done (reply 403 CODE_FORBIDDEN_PARAM ''Account not activated'')
                else if \<not> bcrypt_Compare svc (au_Password user) (lr_Password req) then
                  Done (reply 401 CODE_ERROR ''Invalid email or password'')
                else Done (user_reply ''Login successful'' user)))"

datatype http_call =
    CallRegister "RegisterRequest option"
  | CallVerify "VerifyEmailRequest option"
  | CallComplete "CompleteRequest option"
  | CallLogin "LoginRequest option"

text \<open>The routes of \<^verbatim>\<open>NewHttpHandler\<close>: the goroutine of a call, and the handler it runs.\<close>

fun handler_thread :: "'w services \<Rightarrow> http_call \<Rightarrow> (http_reply, 'w) acc_thread" where
  "handler_thread svc (CallRegister r) = Register_thread svc r"
| "handler_thread svc (CallVerify v) = VerifyEmail_thread svc v"
| "handler_thread svc (CallComplete c) = CompleteRegistration_thread svc c"
| "handler_thread svc (CallLogin l) = Login_thread svc l"

fun handler :: "'w services \<Rightarrow> http_call \<Rightarrow> (http_reply, 'w acc_state) go" where
  "handler svc (CallRegister r) = Register svc r"
| "handler svc (CallVerify v) = VerifyEmail svc v"
| "handler svc (CallComplete c) = CompleteRegistration svc c"
| "handler svc (CallLogin l) = Login svc l"


subsection \<open>Alone, a goroutine is its handler\<close>

lemma run_VerifyCode: "run_thread (VerifyCode_thread svc email code k) = bnd (VerifyCode svc email code) (\<lambda>r. run_thread (k r))"
  by (simp add: VerifyCode_thread_def VerifyCode_def run_simps bnd_laws cong: if_cong option.case_cong)

lemma run_SendVerificationCode:
  "run_thread (SendVerificationCode_thread svc es email) = bnd (SendVerificationCode svc es email) (\<lambda>err. ret (send_reply err))"
  by (simp add: SendVerificationCode_thread_def SendVerificationCode_def store_and_send_def run_simps bnd_laws cong: if_cong option.case_cong)

lemma run_create_account: "run_thread (create_account_thread svc email req) = create_account svc email req"
  by (simp add: create_account_thread_def create_account_def run_simps cong: if_cong option.case_cong)

text \<open>
  The goroutine of a request is its handler, cut at the external calls: run from its first to its last step
  without interference it equals the handler, for all four routes.
\<close>

lemma handler_thread_alone_eq: "run_thread (handler_thread svc call) = handler svc call"
proof (cases call)
  case (CallRegister r)
  then show ?thesis
    by (simp add: Register_thread_def Register_def Let_def run_simps run_SendVerificationCode send_reply_def if_distrib[of ret] cong: if_cong option.case_cong)
next
  case (CallVerify v)
  then show ?thesis
    by (simp add: VerifyEmail_thread_def VerifyEmail_def Let_def run_simps run_VerifyCode cong: if_cong option.case_cong)
next
  case (CallComplete c)
  then show ?thesis
    by (simp add: CompleteRegistration_thread_def CompleteRegistration_def Let_def run_simps run_VerifyCode run_create_account
        cong: if_cong option.case_cong)
next
  case (CallLogin l)
  then show ?thesis
    by (simp add: Login_thread_def Login_def Let_def run_simps cong: if_cong option.case_cong)
qed

subsection \<open>Any number of requests\<close>

record 'w acc_pool =
  pool_state :: "'w acc_state"
  pool_threads :: "(http_reply, 'w) acc_thread list"

inductive pool_step :: "'w services \<Rightarrow> 'w acc_pool \<Rightarrow> 'w acc_pool \<Rightarrow> bool" for svc where
  pool_call: "pool_step svc p (p\<lparr>pool_threads := pool_threads p @ [handler_thread svc call]\<rparr>)"
| pool_act: "i < length (pool_threads p) \<Longrightarrow> pool_threads p ! i = Act g \<Longrightarrow> g (pool_state p) = (t, s) \<Longrightarrow>
    pool_step svc p \<lparr>pool_state = s, pool_threads = (pool_threads p)[i := t]\<rparr>"

definition pool_init :: "'w code_view \<Rightarrow> 'w acc_pool \<Rightarrow> bool" where
  "pool_init codes p \<longleftrightarrow> acc_init codes (pool_state p) \<and> pool_threads p = []"

abbreviation registered :: "AuthUser \<Rightarrow> http_reply" where
  "registered u \<equiv> user_reply ''User registered successfully'' u"

definition has_account :: "'w user_view \<Rightarrow> AuthUser \<Rightarrow> 'w acc_state \<Rightarrow> bool" where
  "has_account users u s \<longleftrightarrow> (\<exists>v. users (acc_world s) (au_Email u) = Some v \<and> au_Email v = au_Email u \<and> au_ID v = au_ID u \<and>
     au_Username v = au_Username u)"

lemma registered_eq: "registered u = registered v \<longleftrightarrow> au_Email u = au_Email v \<and> au_ID u = au_ID v \<and> au_Username u = au_Username v"
  by (auto simp: user_reply_def)

text \<open>
  \<open>safe\<close>: every step keeps what \<open>acc_rel\<close> keeps, and the step that ends a goroutine with a registration has just
  inserted that account at an address without account.
\<close>

inductive safe :: "'w code_view \<Rightarrow> 'w user_view \<Rightarrow> (http_reply, 'w) acc_thread \<Rightarrow> bool" for codes users where
  safe_done: "safe codes users (Done r)"
| safe_crash: "safe codes users (Crash e)"
| safe_act: "(\<And>s t s'. g s = (t, s') \<Longrightarrow> acc_rel codes users s s' \<and> safe codes users t \<and>
      (\<forall>u. t = Done (registered u) \<longrightarrow> users (acc_world s) (au_Email u) = None \<and> has_account users u s')) \<Longrightarrow>
    safe codes users (Act g)"

inductive_cases safe_ActE: "safe codes users (Act g)"

lemma seq_lift: "seq (lift m) f = Act (\<lambda>s. case m s of Ret x t \<Rightarrow> (f x, t) | Panic e \<Rightarrow> (Crash e, s) | Stuck t \<Rightarrow> (Block, t))"
  by (simp add: lift_def fun_eq_iff split: outcome.split)

text \<open>\<open>no_reg\<close>: not the end of a registration.\<close>

definition no_reg :: "(http_reply, 'w) acc_thread \<Rightarrow> bool" where
  "no_reg t \<longleftrightarrow> (\<forall>u. t \<noteq> Done (registered u))"

named_theorems safe_intros \<open>goroutines that keep the accounts\<close>

lemma no_reg_intros [safe_intros]:
  "no_reg (Done (reply a b c))" "no_reg (Done (user_reply ''Login successful'' v))" "no_reg (Done (send_reply err))"
  "no_reg (seq (lift m) f)"
  by (simp_all add: no_reg_def reply_def user_reply_def send_reply_def seq_lift)

lemma no_reg_if [safe_intros]: "no_reg m \<Longrightarrow> no_reg n \<Longrightarrow> no_reg (if b then m else n)"
  by simp

lemma no_reg_option [safe_intros]: "no_reg m \<Longrightarrow> (\<And>y. no_reg (n y)) \<Longrightarrow> no_reg (case x of None \<Rightarrow> m | Some y \<Rightarrow> n y)"
  by (simp split: option.split)

lemma no_reg_threads [safe_intros]:
  "no_reg (SendVerificationCode_thread svc es email)" "no_reg (VerifyCode_thread svc email code k)"
  "no_reg (create_account_thread svc email req)"
  unfolding SendVerificationCode_thread_def VerifyCode_thread_def create_account_thread_def by (rule no_reg_intros)+

lemma safe_seq_lift [safe_intros]:
  assumes "tame codes users m" and "\<And>x. safe codes users (f x)" and "\<And>x. no_reg (f x)"
  shows "safe codes users (seq (lift m) f)"
  unfolding seq_lift
proof (rule safe_act, goal_cases)
  case (1 s t s')
  consider x where "m s = Ret x s'" "t = f x" | e where "t = Crash e" "s' = s"
    using 1 assms(1) unfolding tame_def wp_def by (cases "m s") (auto dest: spec[of _ s])
  then show ?case using tameD[OF assms(1), of s] assms(2,3) by cases (auto simp: no_reg_def intro: safe_crash)
qed

declare safe_done [safe_intros]

lemma safe_if [safe_intros]: "safe codes users m \<Longrightarrow> safe codes users n \<Longrightarrow> safe codes users (if b then m else n)"
  by simp

lemma safe_option [safe_intros]:
  "safe codes users m \<Longrightarrow> (\<And>y. safe codes users (n y)) \<Longrightarrow> safe codes users (case x of None \<Rightarrow> m | Some y \<Rightarrow> n y)"
  by (simp split: option.split)

lemma safe_create_step:
  assumes "services_ok svc codes users"
  shows "safe codes users (seq (lift (ext_call (db_Create svc a))) (\<lambda>created.
      case created of None \<Rightarrow> Done (reply 500 CODE_SERVERBUSY_PARAM ''Failed to create user'') | Some user \<Rightarrow> Done (registered user)))"
  unfolding seq_lift
proof (rule safe_act, goal_cases)
  case (1 s t s')
  have s': "s' = s\<lparr>acc_world := snd (db_Create svc a (acc_world s))\<rparr>"
    and t: "t = (case fst (db_Create svc a (acc_world s)) of None \<Rightarrow> Done (reply 500 CODE_SERVERBUSY_PARAM ''Failed to create user'')
        | Some user \<Rightarrow> Done (registered user))"
    using 1 by (auto simp: ext_call_def)
  have "acc_rel codes users s s'" using tameD[OF tame_services(4)[OF assms], of a s] unfolding s' by (simp add: ext_call_def)
  moreover have "users (acc_world s) (au_Email u) = None \<and> has_account users u s'" if reg: "t = Done (registered u)" for u
  proof -
    obtain v where v: "fst (db_Create svc a (acc_world s)) = Some v" "registered v = registered u"
      using reg t no_reg_intros(1) by (cases "fst (db_Create svc a (acc_world s))") (auto simp: no_reg_def)
    have "users (acc_world s) (au_Email a) = None" "stored_as a v" "users (acc_world s') = (users (acc_world s))(au_Email a \<mapsto> v)"
      using assms v(1) unfolding s' by (auto simp: services_ok_def db_laws_def)
    with v(2) stored_asD(1)[of a v] show ?thesis by (auto simp: has_account_def registered_eq)
  qed
  ultimately show ?case using t by (auto intro: safe_done split: option.split)
qed


lemma safe_VerifyCode [safe_intros]:
  assumes "services_ok svc codes users" and "\<And>b. safe codes users (k b)" and "\<And>b. no_reg (k b)"
  shows "safe codes users (VerifyCode_thread svc email code k)"
  unfolding VerifyCode_thread_def by (intro safe_intros assms tame_intros)

lemma safe_create_account [safe_intros]:
  assumes "services_ok svc codes users"
  shows "safe codes users (create_account_thread svc email req)"
  unfolding create_account_thread_def by (intro safe_create_step[OF assms] safe_intros assms tame_intros)

lemma safe_SendVerificationCode [safe_intros]:
  assumes "services_ok svc codes users" and "ToLower email = email"
  shows "safe codes users (SendVerificationCode_thread svc es email)"
  unfolding SendVerificationCode_thread_def by (intro safe_intros assms tame_intros tame_store_code)

lemma safe_handler:
  assumes "services_ok svc codes users"
  shows "safe codes users (handler_thread svc call)" and "no_reg (handler_thread svc call)"
proof -
  show "safe codes users (handler_thread svc call)"
    by (cases call) (auto simp: Register_thread_def VerifyEmail_thread_def CompleteRegistration_thread_def Login_thread_def Let_def
        split: option.split intro!: safe_intros assms tame_intros)
  show "no_reg (handler_thread svc call)"
    by (cases call) (auto simp: Register_thread_def VerifyEmail_thread_def CompleteRegistration_thread_def Login_thread_def Let_def
        split: option.split intro!: safe_intros)
qed

definition pool_ok :: "'w code_view \<Rightarrow> 'w user_view \<Rightarrow> 'w acc_pool \<Rightarrow> bool" where
  "pool_ok codes users p \<longleftrightarrow> codes_issued codes (pool_state p) \<and> list_all (safe codes users) (pool_threads p) \<and>
     (\<forall>i u. i < length (pool_threads p) \<longrightarrow> pool_threads p ! i = Done (registered u) \<longrightarrow> has_account users u (pool_state p)) \<and>
     (\<forall>i j u v. i < length (pool_threads p) \<longrightarrow> j < length (pool_threads p) \<longrightarrow> i \<noteq> j \<longrightarrow>
        pool_threads p ! i = Done (registered u) \<longrightarrow> pool_threads p ! j = Done (registered v) \<longrightarrow> au_Email u \<noteq> au_Email v)"

lemma has_account_keeps: "has_account users u s \<Longrightarrow> acc_rel codes users s t \<Longrightarrow> has_account users u t"
  by (auto simp: has_account_def acc_rel_def map_le_def dom_def)

lemma pool_step_ok:
  assumes ok: "services_ok svc codes users" and step: "pool_step svc p q" and inv: "pool_ok codes users p"
  shows "pool_ok codes users q"
  using step
proof cases
  case (pool_call call)
  then show ?thesis
    using inv safe_handler[OF ok, of call] by (auto simp: pool_ok_def nth_append less_Suc_eq no_reg_def)
next
  case (pool_act i g t s)
  let ?ts = "pool_threads p"
  have "safe codes users (Act g)" using inv pool_act(2,3) by (metis pool_ok_def list_all_length)
  then have rel: "acc_rel codes users (pool_state p) s" and safe: "safe codes users t"
    and new: "\<And>u. t = Done (registered u) \<Longrightarrow> users (acc_world (pool_state p)) (au_Email u) = None \<and> has_account users u s"
    using pool_act(4) by (auto elim: safe_ActE)
  have old: "has_account users u (pool_state p)" if "j < length ?ts" "?ts ! j = Done (registered u)" for j u
    using that inv by (simp add: pool_ok_def)
  have "codes_issued codes s" using inv rel unfolding pool_ok_def codes_issued_def acc_rel_def by blast
  moreover have "list_all (safe codes users) (?ts[i := t])"
    using inv safe pool_act(2) by (auto simp: pool_ok_def list_all_length nth_list_update)
  moreover have "has_account users u s" if "j < length ?ts" "?ts[i := t] ! j = Done (registered u)" for j u
    using that old[of j u] new[of u] has_account_keeps[OF _ rel] by (cases "j = i") auto
  moreover have "au_Email u \<noteq> au_Email v"
    if jk: "j < length ?ts" "k < length ?ts" "j \<noteq> k" "?ts[i := t] ! j = Done (registered u)" "?ts[i := t] ! k = Done (registered v)" for j k u v
  proof (cases "j = i \<or> k = i")
    case True
    then consider "t = Done (registered u)" "?ts ! k = Done (registered v)" | "t = Done (registered v)" "?ts ! j = Done (registered u)"
      using jk by (auto simp: nth_list_update)
    then show ?thesis
    proof cases
      case 1
      from new[OF 1(1)] old[OF jk(2) 1(2)] show ?thesis by (auto simp: has_account_def)
    next
      case 2
      from new[OF 2(1)] old[OF jk(1) 2(2)] show ?thesis by (auto simp: has_account_def)
    qed
  next
    case False
    with jk inv show ?thesis by (simp add: pool_ok_def)
  qed
  ultimately show ?thesis unfolding pool_ok_def pool_act(1) by simp
qed

lemma pool_reach_ok:
  assumes "services_ok svc codes users" and "reach (pool_init codes) (pool_step svc) p"
  shows "pool_ok codes users p"
  using assms(2)
proof (induction rule: reach.induct)
  case (reach_init p)
  then show ?case by (simp add: pool_init_def pool_ok_def acc_init_def codes_issued_def)
next
  case (reach_step p q)
  then show ?case using pool_step_ok[OF assms(1)] by blast
qed


text \<open>
  C19. Requests that run side by side cannot register one address twice: under every interleaving of any
  number of requests, two goroutines that ended with a registration ended with different addresses, the account of
  each is in the table, and every code redis holds for an address was issued for it.
\<close>

theorem concurrent_registrations:
  assumes "services_ok svc codes users" and "reach (pool_init codes) (pool_step svc) p"
  shows "(\<forall>i j u v. i < length (pool_threads p) \<and> j < length (pool_threads p) \<and> i \<noteq> j \<and>
        pool_threads p ! i = Done (registered u) \<and> pool_threads p ! j = Done (registered v) \<longrightarrow> au_Email u \<noteq> au_Email v) \<and>
    (\<forall>i u. i < length (pool_threads p) \<and> pool_threads p ! i = Done (registered u) \<longrightarrow> has_account users u (pool_state p)) \<and>
    codes_issued codes (pool_state p)"
  using pool_reach_ok[OF assms] unfolding pool_ok_def by blast

subsection \<open>One code, two requests\<close>

text \<open>The steps of a \<^verbatim>\<open>VerifyEmail\<close> for a valid address.\<close>

lemma VerifyEmail_thread_steps:
  assumes "validateEmail (normalised (ve_Email v))"
  shows "VerifyEmail_thread svc (Some v) = seq (lift (rd gEmailService)) (\<lambda>emailService.
      if emailService = None then Done (reply 500 CODE_SERVERBUSY_PARAM ''Email service not available'')
      else VerifyCode_thread svc (normalised (ve_Email v)) (ve_Code v) (\<lambda>valid.
        if \<not> valid then Done (reply 400 CODE_INVALID_PARAM ''Invalid or expired verification code'')
        else Done (reply 200 CODE_SUCCESS ''Email verified successfully'')))"
  using assms by (simp add: VerifyEmail_thread_def Let_def normalised_def cong: if_cong)

abbreviation verified :: http_reply where
  "verified \<equiv> reply 200 CODE_SUCCESS ''Email verified successfully''"

definition delete_code :: "'w services \<Rightarrow> string \<Rightarrow> (http_reply, 'w) acc_thread" where
  "delete_code svc email = seq (lift (ext_call (redis_Del svc (getVerificationCodeKey email)))) (\<lambda>_. Done verified)"

text \<open>A goroutine that read the code it presents has only the deletion left.\<close>

lemma pool_turn:
  assumes "i < length ts" and "ts ! i = seq (lift m) f" and "m s = Ret x s'"
  shows "pool_step svc \<lparr>pool_state = s, pool_threads = ts\<rparr> \<lparr>pool_state = s', pool_threads = ts[i := f x]\<rparr>"
  using pool_act[of i "\<lparr>pool_state = s, pool_threads = ts\<rparr>" _ "f x" s' svc] assms by (simp add: seq_lift)

lemma verify_reads_code:
  assumes v: "validateEmail (normalised (ve_Email v))" and s: "gEmailService s \<noteq> None" "gRedisClient s"
    and get: "redis_Get svc (getVerificationCodeKey (normalised (ve_Email v))) (acc_world s) = (Some (ve_Code v), w)"
    and i: "i < length ts" "ts ! i = VerifyEmail_thread svc (Some v)"
  shows "(pool_step svc)\<^sup>*\<^sup>* \<lparr>pool_state = s, pool_threads = ts\<rparr>
    \<lparr>pool_state = s\<lparr>acc_world := w\<rparr>, pool_threads = ts[i := delete_code svc (normalised (ve_Email v))]\<rparr>"
proof -
  let ?e = "normalised (ve_Email v)"
  define k :: "bool \<Rightarrow> (http_reply, 'a) acc_thread" where
    "k = (\<lambda>valid. if \<not> valid then Done (reply 400 CODE_INVALID_PARAM ''Invalid or expired verification code'') else Done verified)"
  let ?t1 = "VerifyCode_thread svc ?e (ve_Code v) k"
  define f where "f = (\<lambda>r. case r of None \<Rightarrow> k False
       | Some storedCode \<Rightarrow> if storedCode = ve_Code v then
             seq (lift (ext_call (redis_Del svc (getVerificationCodeKey ?e)))) (\<lambda>_. k True) else k False)"
  define t2 where "t2 = seq (lift (ext_call (redis_Get svc (getVerificationCodeKey ?e)))) f"
  have f: "f (Some (ve_Code v)) = delete_code svc ?e" by (simp add: f_def k_def delete_code_def)
  have "pool_step svc \<lparr>pool_state = s, pool_threads = ts\<rparr> \<lparr>pool_state = s, pool_threads = ts[i := ?t1]\<rparr>"
    using pool_turn[OF i(1) i(2)[unfolded VerifyEmail_thread_steps[OF v]], of s "gEmailService s" s svc] s(1) by (simp add: rd_apply k_def)
  moreover have "pool_step svc \<lparr>pool_state = s, pool_threads = ts[i := ?t1]\<rparr> \<lparr>pool_state = s, pool_threads = ts[i := t2]\<rparr>"
  proof -
    have "ts[i := ?t1] ! i = seq (lift (rd gRedisClient)) (\<lambda>c. if \<not> c then k False else t2)"
      using i(1) unfolding VerifyCode_thread_def t2_def f_def by simp
    from pool_turn[OF _ this, of s "gRedisClient s" s svc] show ?thesis using i(1) s(2) by (simp add: rd_apply cong: if_cong)
  qed
  moreover have "pool_step svc \<lparr>pool_state = s, pool_threads = ts[i := t2]\<rparr>
      \<lparr>pool_state = s\<lparr>acc_world := w\<rparr>, pool_threads = ts[i := delete_code svc ?e]\<rparr>"
  proof -
    have "ts[i := t2] ! i = seq (lift (ext_call (redis_Get svc (getVerificationCodeKey ?e)))) f" using i(1) by (simp add: t2_def)
    from pool_turn[OF _ this, of s "Some (ve_Code v)" "s\<lparr>acc_world := w\<rparr>" svc] show ?thesis
      using get f i(1) by (simp add: ext_call_def)
  qed
  ultimately show ?thesis by (meson converse_rtranclp_into_rtranclp rtranclp.rtrancl_refl)
qed

lemma verify_deletes_code:
  assumes "i < length ts" and "ts ! i = delete_code svc e"
  shows "(pool_step svc)\<^sup>*\<^sup>* \<lparr>pool_state = s, pool_threads = ts\<rparr>
    \<lparr>pool_state = s\<lparr>acc_world := snd (redis_Del svc (getVerificationCodeKey e) (acc_world s))\<rparr>, pool_threads = ts[i := Done verified]\<rparr>"
  using pool_turn[OF assms(1) assms(2)[unfolded delete_code_def]] by (blast intro: r_into_rtranclp ext_call_def)

text \<open>
  C20. A code is not single use when requests run side by side: two \<^verbatim>\<open>VerifyEmail\<close> requests that present the
  code redis holds can both read it before either deletes it, and then both succeed.
\<close>

theorem code_accepted_twice:
  assumes "validateEmail (normalised (ve_Email v))" and "gEmailService s \<noteq> None" and "gRedisClient s"
    and "redis_Get svc (getVerificationCodeKey (normalised (ve_Email v))) (acc_world s) = (Some (ve_Code v), w)"
    and "redis_Get svc (getVerificationCodeKey (normalised (ve_Email v))) w = (Some (ve_Code v), w')"
  shows "\<exists>t. (pool_step svc)\<^sup>*\<^sup>*
    \<lparr>pool_state = s, pool_threads = [handler_thread svc (CallVerify (Some v)), handler_thread svc (CallVerify (Some v))]\<rparr>
    \<lparr>pool_state = t, pool_threads = [Done verified, Done verified]\<rparr>"
proof -
  let ?e = "normalised (ve_Email v)" and ?V = "VerifyEmail_thread svc (Some v)"
  let ?D = "delete_code svc ?e"
  have 1: "(pool_step svc)\<^sup>*\<^sup>* \<lparr>pool_state = s, pool_threads = [?V, ?V]\<rparr> \<lparr>pool_state = s\<lparr>acc_world := w\<rparr>, pool_threads = [?D, ?V]\<rparr>"
    using verify_reads_code[OF assms(1-4), of 0 "[?V, ?V]"] by simp
  have 2: "(pool_step svc)\<^sup>*\<^sup>* \<lparr>pool_state = s\<lparr>acc_world := w\<rparr>, pool_threads = [?D, ?V]\<rparr> \<lparr>pool_state = s\<lparr>acc_world := w'\<rparr>, pool_threads = [?D, ?D]\<rparr>"
    using verify_reads_code[of v "s\<lparr>acc_world := w\<rparr>" svc w' 1 "[?D, ?V]"] assms by simp
  have 3: "(pool_step svc)\<^sup>*\<^sup>* \<lparr>pool_state = s\<lparr>acc_world := w'\<rparr>, pool_threads = [?D, ?D]\<rparr>
      \<lparr>pool_state = s\<lparr>acc_world := snd (redis_Del svc (getVerificationCodeKey ?e) w')\<rparr>, pool_threads = [Done verified, ?D]\<rparr>"
    using verify_deletes_code[of 0 "[?D, ?D]" svc ?e "s\<lparr>acc_world := w'\<rparr>"] by simp
  have 4: "(pool_step svc)\<^sup>*\<^sup>* \<lparr>pool_state = s\<lparr>acc_world := snd (redis_Del svc (getVerificationCodeKey ?e) w')\<rparr>, pool_threads = [Done verified, ?D]\<rparr>
      \<lparr>pool_state = s\<lparr>acc_world := snd (redis_Del svc (getVerificationCodeKey ?e) (snd (redis_Del svc (getVerificationCodeKey ?e) w')))\<rparr>,
        pool_threads = [Done verified, Done verified]\<rparr>"
    using verify_deletes_code[of 1 "[Done verified, ?D]" svc ?e "s\<lparr>acc_world := snd (redis_Del svc (getVerificationCodeKey ?e) w')\<rparr>"] by simp
  from rtranclp_trans[OF rtranclp_trans[OF 1 2] rtranclp_trans[OF 3 4]] show ?thesis by auto
qed

subsection \<open>On the concrete services\<close>

lemma pool_runs_thread:
  "run_thread t s = Ret x s' \<Longrightarrow> i < length ts \<Longrightarrow> ts ! i = t \<Longrightarrow>
     (pool_step svc)\<^sup>*\<^sup>* \<lparr>pool_state = s, pool_threads = ts\<rparr> \<lparr>pool_state = s', pool_threads = ts[i := Done x]\<rparr>"
proof (induction t arbitrary: s ts)
  case (Done y)
  then have "ts[i := Done x] = ts" "s' = s" by (auto simp: ret_apply list_update_same_conv)
  then show ?case by simp
next
  case (Act g)
  obtain t1 s1 where g: "g s = (t1, s1)" by force
  have "pool_step svc \<lparr>pool_state = s, pool_threads = ts\<rparr> \<lparr>pool_state = s1, pool_threads = ts[i := t1]\<rparr>"
    using pool_act[of i "\<lparr>pool_state = s, pool_threads = ts\<rparr>" g t1 s1 svc] Act.prems g by simp
  moreover have "(pool_step svc)\<^sup>*\<^sup>* \<lparr>pool_state = s1, pool_threads = ts[i := t1]\<rparr> \<lparr>pool_state = s', pool_threads = ts[i := t1, i := Done x]\<rparr>"
    by (rule Act.IH[of "g s"]) (use Act.prems g rangeI[of g s] in auto)
  ultimately show ?case by (simp add: converse_rtranclp_into_rtranclp)
qed (simp_all add: panic_apply)

lemma pool_serves:
  assumes "reach (pool_init codes) (pool_step svc) \<lparr>pool_state = s, pool_threads = ts\<rparr>" and "handler svc call s = Ret r s'"
  shows "reach (pool_init codes) (pool_step svc) \<lparr>pool_state = s', pool_threads = ts @ [Done r]\<rparr>"
proof -
  let ?p = "\<lparr>pool_state = s, pool_threads = ts @ [handler_thread svc call]\<rparr>"
  have "reach (pool_init codes) (pool_step svc) ?p"
    using reach_step[OF assms(1) pool_call[of svc "\<lparr>pool_state = s, pool_threads = ts\<rparr>" call]] by simp
  moreover have "(pool_step svc)\<^sup>*\<^sup>* ?p \<lparr>pool_state = s', pool_threads = ts @ [Done r]\<rparr>"
    using pool_runs_thread[of "handler_thread svc call" s r s' "length ts" "ts @ [handler_thread svc call]" svc] assms(2)
    by (simp add: handler_thread_alone_eq)
  ultimately show ?thesis by (blast intro: reach_rtranclp)
qed

theorem concurrent_registrations_witness:
  "\<exists>p. pool_threads p = [Done (reply 200 CODE_SUCCESS ''Verification code sent to email''), Done (registered demo_account)] \<and>
     has_account demo_users demo_account (pool_state p)"
proof -
  obtain mails where reg: "handler demo_services (CallRegister (Some \<lparr>rr_Email = '' Al@Ex.io'', rr_Password = ''secret'', rr_Username = ''Al''\<rparr>))
      (demo_acc ([], []) [] []) = Ret (reply 200 CODE_SUCCESS ''Verification code sent to email'')
        (demo_acc ([(demo_key, ''777777'')], []) mails [(''al@ex.io'', ''777777'')])"
    using demo_register by auto
  have com: "handler demo_services (CallComplete (Some demo_complete_req)) (demo_acc ([(demo_key, ''777777'')], []) mails [(''al@ex.io'', ''777777'')]) =
      Ret (registered demo_account) (demo_acc ([], [demo_account]) mails [(''al@ex.io'', ''777777'')])"
    by (simp add: demo_complete)
  have "reach (pool_init demo_codes) (pool_step demo_services) \<lparr>pool_state = demo_acc ([], []) [] [], pool_threads = []\<rparr>"
    by (rule reach_init) (simp add: pool_init_def acc_init_def demo_codes_def demo_acc_def fun_eq_iff)
  from concurrent_registrations[OF demo_services_ok pool_serves[OF pool_serves[OF this reg] com]]
  have "has_account demo_users demo_account (demo_acc ([], [demo_account]) mails [(''al@ex.io'', ''777777'')])"
    by (elim conjE allE[where x = "1 :: nat"] allE[where x = demo_account]) (simp add: registered_eq)
  then show ?thesis by (metis acc_pool.select_convs(1,2))
qed

definition demo_verify_req :: VerifyEmailRequest where
  "demo_verify_req = \<lparr>ve_Email = '' Al@Ex.io'', ve_Code = ''777777''\<rparr>"

theorem code_accepted_twice_witness:
  "\<exists>t. (pool_step demo_services)\<^sup>*\<^sup>*
    \<lparr>pool_state = demo_acc ([(demo_key, ''777777'')], []) [] [],
      pool_threads = [handler_thread demo_services (CallVerify (Some demo_verify_req)), handler_thread demo_services (CallVerify (Some demo_verify_req))]\<rparr>
    \<lparr>pool_state = t, pool_threads = [Done verified, Done verified]\<rparr>"
  by (rule code_accepted_twice[where w = "([(demo_key, ''777777'')], [])" and w' = "([(demo_key, ''777777'')], [])"])
    (simp_all add: demo_verify_req_def demo_email, simp_all add: demo_services_def demo_acc_def demo_key_def)

end
