(* ===== verification/Redis_Script.thy ===== *)
theory Redis_Script
  imports Util
begin

section \<open>Composition of redis scripts (redis.go)\<close>

text \<open>
  Several Lua scripts with named keys and arguments are joined into one script, in which every script is
  a local function whose names are bound to positions of \<^verbatim>\<open>KEYS\<close> and \<^verbatim>\<open>ARGV\<close>. The values of the
  arguments have an unspecified type, as they are empty interfaces. The keys given to the functions are not nil.
  The redis client enters as an argument of \<^verbatim>\<open>Run\<close>.
\<close>

subsection \<open>Keys and scripts\<close>

type_synonym 'v RedisScriptArguments = "(string, 'v) gomap"

record 'v RedisKey =
  rk_id :: string
  rk_staticValue :: string
  rk_dynamicValue :: "('v RedisScriptArguments \<Rightarrow> string) option"

definition NewStaticKey :: "string \<Rightarrow> string \<Rightarrow> 'v RedisKey" where
  "NewStaticKey ident val = \<lparr>rk_id = ident, rk_staticValue = val, rk_dynamicValue = None\<rparr>"

definition NewDynamicKey :: "string \<Rightarrow> ('v RedisScriptArguments \<Rightarrow> string) \<Rightarrow> 'v RedisKey" where
  "NewDynamicKey ident generator = \<lparr>rk_id = ident, rk_staticValue = '''', rk_dynamicValue = Some generator\<rparr>"

definition Key :: "'v RedisKey \<Rightarrow> string" where
  "Key k = rk_id k"

definition Value :: "'v RedisKey \<Rightarrow> 'v RedisScriptArguments \<Rightarrow> string" where
  "Value k args = (case rk_dynamicValue k of None \<Rightarrow> rk_staticValue k | Some f \<Rightarrow> f args)"

record RedisScript =
  rs_scriptText :: string
  rs_args :: "string list"
  rs_keys :: "string list"

definition NewRedisScript :: "string list \<Rightarrow> string list \<Rightarrow> string \<Rightarrow> RedisScript" where
  "NewRedisScript rkeys args scriptText = \<lparr>rs_scriptText = scriptText, rs_args = args, rs_keys = rkeys\<rparr>"

text \<open>Reading a missing key of a \<^verbatim>\<open>map[string]bool\<close> gives false.\<close>

definition flag :: "(string, bool) gomap \<Rightarrow> string \<Rightarrow> bool" where
  "flag m k = (case map_of m k of None \<Rightarrow> False | Some b \<Rightarrow> b)"

fun unique_names_loop :: "string list \<Rightarrow> (string, bool) gomap \<times> string list \<Rightarrow> (string, bool) gomap \<times> string list" where
  "unique_names_loop [] st = st"
| "unique_names_loop (k # ks) (uniqueArgs, names) =
     (if \<not> flag uniqueArgs k then unique_names_loop ks (AList.update k True uniqueArgs, names @ [k])
      else unique_names_loop ks (uniqueArgs, names))"

definition getScriptsUniqueArgNames :: "RedisScript list \<Rightarrow> string list" where
  "getScriptsUniqueArgNames scripts = snd (fold (\<lambda>script. unique_names_loop (rs_args script)) scripts ([], []))"

fun unique_keys_loop :: "'v RedisKey list \<Rightarrow> (string, bool) gomap \<Rightarrow> 'v RedisKey list \<Rightarrow> go_panic + 'v RedisKey list" where
  "unique_keys_loop [] uniqueKeys names = Inr names"
| "unique_keys_loop (k # ks) uniqueKeys names =
     (if \<not> flag uniqueKeys (Key k) then unique_keys_loop ks (AList.update (Key k) True uniqueKeys) (names @ [k])
      else Inl (PanicWith (''Duplicate key: '' @ Key k)))"

definition getUniqueKeys :: "'v RedisKey list \<Rightarrow> go_panic + 'v RedisKey list" where
  "getUniqueKeys rkeys = unique_keys_loop rkeys [] []"

fun used_keys_loop :: "(string, bool) gomap \<Rightarrow> 'v RedisKey list \<Rightarrow> (string, bool) gomap \<Rightarrow> 'v RedisKey list \<Rightarrow> 'v RedisKey list" where
  "used_keys_loop usedKeys [] uniqueKeys names = names"
| "used_keys_loop usedKeys (k # ks) uniqueKeys names =
     (if flag usedKeys (Key k) \<and> \<not> flag uniqueKeys (Key k)
      then used_keys_loop usedKeys ks (AList.update (Key k) True uniqueKeys) (names @ [k])
      else used_keys_loop usedKeys ks uniqueKeys names)"

definition getUniqueUsedKeys :: "RedisScript list \<Rightarrow> 'v RedisKey list \<Rightarrow> 'v RedisKey list" where
  "getUniqueUsedKeys scripts rkeys =
     (let usedKeys = fold (\<lambda>script. fold (\<lambda>k. AList.update k True) (rs_keys script)) scripts [] in
      used_keys_loop usedKeys rkeys [] [])"

subsection \<open>Joining\<close>

definition NL :: string where "NL = [char_of (10 :: nat)]"

definition bind_line :: "string \<Rightarrow> string \<Rightarrow> nat \<Rightarrow> string" where
  "bind_line arr name i = ''local '' @ name @ '' = '' @ arr @ ''['' @ itoa (int i + 1) @ ''];'' @ NL"

definition bind_lines :: "string \<Rightarrow> string list \<Rightarrow> string" where
  "bind_lines arr names = concat (map (\<lambda>(i, name). bind_line arr name i) (enumerate 0 names))"

definition function_name :: "nat \<Rightarrow> string" where
  "function_name i = ''____joinedRedisScripts_'' @ itoa (int i) @ ''____''"

definition enveloped :: "'v RedisKey list \<Rightarrow> string list \<Rightarrow> nat \<Rightarrow> RedisScript \<Rightarrow> string" where
  "enveloped rkeys args i script = ''local function '' @ function_name i @ ''()'' @ NL @ bind_lines ''KEYS'' (map Key rkeys) @ NL @
     bind_lines ''ARGV'' args @ NL @ rs_scriptText script @ NL @ ''end''"

definition join_turn :: "'v RedisKey list \<Rightarrow> string list \<Rightarrow> nat \<times> RedisScript \<Rightarrow> RedisScript \<times> string list \<Rightarrow> RedisScript \<times> string list" where
  "join_turn rkeys args = (\<lambda>(scriptIndex, script) (result, functionCalls).
     (result\<lparr>rs_args := rs_args result @ args, rs_keys := rs_keys result @ map Key rkeys,
        rs_scriptText := (if 0 < length (rs_scriptText result)
          then rs_scriptText result @ NL @ enveloped rkeys args scriptIndex script
          else enveloped rkeys args scriptIndex script)\<rparr>,
      functionCalls @ [function_name scriptIndex @ ''()'']))"

fun strings_Join :: "string list \<Rightarrow> string \<Rightarrow> string" where
  "strings_Join [] sep = ''''"
| "strings_Join [x] sep = x"
| "strings_Join (x # y # xs) sep = x @ sep @ strings_Join (y # xs) sep"

definition joinRedisScripts :: "RedisScript list \<Rightarrow> 'v RedisKey list \<Rightarrow> string list \<Rightarrow> RedisScript" where
  "joinRedisScripts scripts rkeys args =
     (let (result, functionCalls) = fold (join_turn rkeys args) (enumerate 0 scripts)
        (\<lparr>rs_scriptText = '''', rs_args = [], rs_keys = []\<rparr>, []) in
      result\<lparr>rs_scriptText := rs_scriptText result @ NL @ ''return {'' @ strings_Join functionCalls '', '' @ ''}'' @ NL\<rparr>)"

subsection \<open>Compilation\<close>

record 'v CompiledRedisScript =
  cs_script :: RedisScript
  cs_scriptText :: string
  cs_keys :: "'v RedisKey list"
  cs_args :: "string list"
  cs_redisScript :: "string option"

definition CompileRedisScripts :: "RedisScript list \<Rightarrow> 'v RedisKey list \<Rightarrow> string + 'v CompiledRedisScript" where
  "CompileRedisScripts scripts rkeys =
     (let suppliedKeys = fold (\<lambda>k. AList.update (Key k) k) rkeys [] in
      case find (\<lambda>k. map_of suppliedKeys (Key k) = None) rkeys of
        Some k \<Rightarrow> Inl (''Missing required LUA script key: '' @ Key k)
      | None \<Rightarrow>
          let uniqueKeys = getUniqueUsedKeys scripts rkeys;
              uniqueArgs = getScriptsUniqueArgNames scripts;
              script = joinRedisScripts scripts uniqueKeys uniqueArgs in
          Inr \<lparr>cs_script = script, cs_scriptText = rs_scriptText script, cs_keys = uniqueKeys, cs_args = uniqueArgs,
            cs_redisScript = None\<rparr>)"

definition Keys :: "'v CompiledRedisScript \<Rightarrow> 'v RedisScriptArguments \<Rightarrow> string list" where
  "Keys c args = map (\<lambda>k. Value k args) (cs_keys c)"

fun args_loop :: "'v RedisScriptArguments \<Rightarrow> string list \<Rightarrow> 'v list \<Rightarrow> string + 'v list" where
  "args_loop args [] result = Inr result"
| "args_loop args (arg # rest) result =
     (case map_of args arg of
        None \<Rightarrow> Inl (''Missing required Redis LUA script argument: '' @ arg)
      | Some val \<Rightarrow> args_loop args rest (result @ [val]))"

definition Args :: "'v CompiledRedisScript \<Rightarrow> 'v RedisScriptArguments \<Rightarrow> string + 'v list" where
  "Args c args = args_loop args (rs_args (cs_script c)) []"

text \<open>The accessors of a script and of a compiled script.\<close>

definition script_String :: "RedisScript \<Rightarrow> string" where
  "script_String script = rs_scriptText script"

definition script_Keys :: "RedisScript \<Rightarrow> string list" where
  "script_Keys script = rs_keys script"

definition script_Args :: "RedisScript \<Rightarrow> string list" where
  "script_Args script = rs_args script"

definition compiled_String :: "'v CompiledRedisScript \<Rightarrow> string" where
  "compiled_String c = cs_scriptText c"

text \<open>
  \<^verbatim>\<open>Run\<close>: the client gets the text, the keys and the values and returns a result or an error; an error
  panics unless the context has ended.
\<close>

definition Run :: "(string \<Rightarrow> string list \<Rightarrow> 'v list \<Rightarrow> (string + 'r)) \<Rightarrow> bool \<Rightarrow> 'v RedisScriptArguments \<Rightarrow>
    (string + 'r, 'v CompiledRedisScript) go" where
  "Run client ctx_ended args =
     bnd (rd id) (\<lambda>c.
     bnd (if cs_redisScript c = None then wr (\<lambda>c. c\<lparr>cs_redisScript := Some (cs_scriptText c)\<rparr>) else ret ()) (\<lambda>_.
     case Args c args of
       Inl err \<Rightarrow> panic (PanicWith err)
     | Inr vals \<Rightarrow>
         bnd (rd cs_redisScript) (\<lambda>script.
         case client (the script) (Keys c args) vals of
           Inl err \<Rightarrow> if \<not> ctx_ended then panic (PanicWith (''Script run error: '' @ err)) else ret (Inl err)
         | Inr r \<Rightarrow> ret (Inr r))))"

text \<open>
  \<^verbatim>\<open>RunDebug\<close>: as \<^verbatim>\<open>Run\<close>, and what it prints, the keys, the values and the text, is appended to the second part of
  the state.
\<close>

definition RunDebug :: "(string \<Rightarrow> string list \<Rightarrow> 'v list \<Rightarrow> (string + 'r)) \<Rightarrow> bool \<Rightarrow> 'v RedisScriptArguments \<Rightarrow>
    (string + 'r, 'v CompiledRedisScript \<times> (string list \<times> 'v list \<times> string) list) go" where
  "RunDebug client ctx_ended args =
     bnd (rd fst) (\<lambda>c.
     bnd (if cs_redisScript c = None then wr (apfst (\<lambda>c. c\<lparr>cs_redisScript := Some (cs_scriptText c)\<rparr>)) else ret ()) (\<lambda>_.
     case Args c args of
       Inl err \<Rightarrow> panic (PanicWith err)
     | Inr vals \<Rightarrow>
         bnd (wr (apsnd (\<lambda>out. out @ [(Keys c args, vals, cs_scriptText c)]))) (\<lambda>_.
         bnd (rd (\<lambda>(c, _). cs_redisScript c)) (\<lambda>script.
         case client (the script) (Keys c args) vals of
           Inl err \<Rightarrow> if \<not> ctx_ended then panic (PanicWith (''Script run error: '' @ err)) else ret (Inl err)
         | Inr r \<Rightarrow> ret (Inr r)))))"

subsection \<open>Names of the keys\<close>

definition getMediaCenterSetKey :: string where
  "getMediaCenterSetKey = ''mediacenter:set''"

definition getMediaCenterStatusKey :: "string \<Rightarrow> string" where
  "getMediaCenterStatusKey mcId = ''mediacenterstatus:'' @ mcId"

definition getMediaCenterTaskSetKey :: string where
  "getMediaCenterTaskSetKey = ''mediacenter:taskSet''"

definition getMediaCenterTaskKey :: "string \<Rightarrow> string" where
  "getMediaCenterTaskKey taskname = ''mediacenter:task:'' @ taskname"

definition getAwaitTaskSetKey :: string where
  "getAwaitTaskSetKey = ''mediacenter:awaitTaskSet''"

definition getMediaCenterTasksKey :: "string \<Rightarrow> string" where
  "getMediaCenterTasksKey mcId = ''mediacenter:tasks:'' @ mcId"

definition getZLMTasksKey :: "string \<Rightarrow> string" where
  "getZLMTasksKey zlmId = ''mediacenter:zlmtasks:'' @ zlmId"

definition getMediaCenterZLMStatusKey :: "string \<Rightarrow> string" where
  "getMediaCenterZLMStatusKey zlmId = ''mediacenter:zlmstatus:'' @ zlmId"

definition getMediaCenterZLMPushStreamNumsKey :: "string \<Rightarrow> string" where
  "getMediaCenterZLMPushStreamNumsKey zlmId = ''mediacenter:zlmPushStreamNums:'' @ zlmId"

definition getMediaCenterZLMBandwidthUsageKey :: "string \<Rightarrow> string" where
  "getMediaCenterZLMBandwidthUsageKey zlmId = ''mediacenter:zlmBandwidthUsage:'' @ zlmId"

definition getMediaCenterAllocateNodeKey :: "string \<Rightarrow> string" where
  "getMediaCenterAllocateNodeKey deviceId = ''mediacenter:zlmAllocateNode:'' @ deviceId"


subsection \<open>The collected names and keys\<close>

lemma flag_update [simp]: "flag (AList.update k True m) k' \<longleftrightarrow> k' = k \<or> flag m k'"
  by (simp add: flag_def)

lemma flag_Nil [simp]: "\<not> flag [] k"
  by (simp add: flag_def)

text \<open>First occurrences in order: the reference for both loops.\<close>

fun first_occurrences :: "('a \<Rightarrow> 'b) \<Rightarrow> 'a list \<Rightarrow> 'a list" where
  "first_occurrences f [] = []"
| "first_occurrences f (x # xs) = x # filter (\<lambda>y. f y \<noteq> f x) (first_occurrences f xs)"

lemma set_first_occurrences: "f ` set (first_occurrences f xs) = f ` set xs"
proof (induction xs)
  case (Cons x xs)
  have "insert (f x) (f ` {y \<in> set (first_occurrences f xs). f y \<noteq> f x}) = insert (f x) (f ` set (first_occurrences f xs))"
    by auto
  with Cons show ?case by simp
qed simp

lemma first_occurrences_subset: "set (first_occurrences f xs) \<subseteq> set xs"
  by (induction xs) auto

lemma distinct_first_occurrences: "distinct (map f (first_occurrences f xs))"
  by (induction xs) (auto simp: distinct_map_filter)

lemma first_occurrences_find: "x \<in> set (first_occurrences f xs) \<Longrightarrow> find (\<lambda>y. f y = f x) xs = Some x"
  by (induction xs) auto

lemma unique_names_loop_eq:
  "(\<forall>k. flag m k \<longleftrightarrow> k \<in> set acc) \<Longrightarrow>
     snd (unique_names_loop ks (m, acc)) = acc @ filter (\<lambda>k. k \<notin> set acc) (first_occurrences (\<lambda>x. x) ks) \<and>
     (\<forall>k. flag (fst (unique_names_loop ks (m, acc))) k \<longleftrightarrow> k \<in> set (snd (unique_names_loop ks (m, acc))))"
proof (induction ks arbitrary: m acc)
  case (Cons k ks)
  show ?case
  proof (cases "k \<in> set acc")
    case True
    then have "filter (\<lambda>x. x \<noteq> k \<and> x \<notin> set acc) xs = filter (\<lambda>x. x \<notin> set acc) xs" for xs
      by (intro filter_cong) auto
    with True Cons show ?thesis by auto
  next
    case False
    have "\<forall>x. flag (AList.update k True m) x \<longleftrightarrow> x \<in> set (acc @ [k])" using Cons.prems by auto
    from Cons.IH[OF this] False Cons.prems show ?thesis by (auto simp: conj_commute)
  qed
qed simp

lemma first_occurrences_append:
  "first_occurrences f (xs @ ys) = first_occurrences f xs @ filter (\<lambda>y. f y \<notin> f ` set xs) (first_occurrences f ys)"
  by (induction xs) (auto simp: conj_commute intro!: filter_cong)

lemma fold_unique_names:
  "(\<forall>k. flag m k \<longleftrightarrow> k \<in> set acc) \<Longrightarrow>
     snd (fold (\<lambda>script. unique_names_loop (rs_args script)) scripts (m, acc)) =
       acc @ filter (\<lambda>k. k \<notin> set acc) (first_occurrences (\<lambda>x. x) (concat (map rs_args scripts)))"
proof (induction scripts arbitrary: m acc)
  case (Cons s scripts)
  obtain m' acc' where st: "unique_names_loop (rs_args s) (m, acc) = (m', acc')" by force
  with unique_names_loop_eq[OF Cons.prems, of "rs_args s"]
  have acc': "acc' = acc @ filter (\<lambda>k. k \<notin> set acc) (first_occurrences (\<lambda>x. x) (rs_args s))"
    and m': "\<forall>k. flag m' k \<longleftrightarrow> k \<in> set acc'" by auto
  have "set acc' = set acc \<union> set (rs_args s)"
    unfolding acc' using set_first_occurrences[of "\<lambda>x. x" "rs_args s"] by auto
  then have "filter (\<lambda>k. k \<notin> set acc') zs = filter (\<lambda>x. x \<notin> set (rs_args s) \<and> x \<notin> set acc) zs" for zs
    by (intro filter_cong) auto
  with Cons.IH[OF m'] st acc' show ?case by (simp add: first_occurrences_append)
qed simp

lemma getScriptsUniqueArgNames_eq:
  "getScriptsUniqueArgNames scripts = first_occurrences (\<lambda>x. x) (concat (map rs_args scripts))"
  using fold_unique_names[of "[]" "[]" scripts] by (simp add: getScriptsUniqueArgNames_def)

lemma used_keys_loop_eq:
  "(\<forall>x. flag m x \<longleftrightarrow> x \<in> S) \<Longrightarrow>
     used_keys_loop used ks m acc = acc @ filter (\<lambda>k. flag used (Key k) \<and> Key k \<notin> S) (first_occurrences Key ks)"
proof (induction ks arbitrary: m acc S)
  case (Cons k ks)
  show ?case
  proof (cases "flag used (Key k) \<and> Key k \<notin> S")
    case True
    have "\<forall>x. flag (AList.update (Key k) True m) x \<longleftrightarrow> x \<in> insert (Key k) S" using Cons.prems by auto
    from Cons.IH[OF this, of "acc @ [k]"] True Cons.prems show ?thesis
      by (auto simp: conj_commute conj_left_commute intro!: filter_cong)
  next
    case False
    then have "filter (\<lambda>x. Key x \<noteq> Key k \<and> flag used (Key x) \<and> Key x \<notin> S) (first_occurrences Key ks) =
        filter (\<lambda>x. flag used (Key x) \<and> Key x \<notin> S) (first_occurrences Key ks)"
      by (intro filter_cong) auto
    with False Cons.IH[OF Cons.prems] Cons.prems show ?thesis by auto
  qed
qed simp

lemma flag_fold: "flag (fold (\<lambda>k. AList.update k True) ks m) x \<longleftrightarrow> x \<in> set ks \<or> flag m x"
  by (induction ks arbitrary: m) auto

lemma flag_fold_scripts:
  "flag (fold (\<lambda>script. fold (\<lambda>k. AList.update k True) (rs_keys script)) scripts m) x \<longleftrightarrow>
     x \<in> (\<Union>s \<in> set scripts. set (rs_keys s)) \<or> flag m x"
  by (induction scripts arbitrary: m) (auto simp: flag_fold)

lemma getUniqueUsedKeys_eq:
  "getUniqueUsedKeys scripts ks = filter (\<lambda>k. \<exists>s \<in> set scripts. Key k \<in> set (rs_keys s)) (first_occurrences Key ks)"
  by (simp add: getUniqueUsedKeys_def Let_def used_keys_loop_eq[of _ "{}"] flag_fold_scripts)


lemma unique_keys_loop_eq:
  "(\<forall>x. flag m x \<longleftrightarrow> x \<in> S) \<Longrightarrow> (\<exists>e. unique_keys_loop ks m acc = Inl e) \<longleftrightarrow> \<not> (distinct (map Key ks) \<and> S \<inter> Key ` set ks = {})"
proof (induction ks arbitrary: m acc S)
  case (Cons k ks)
  have "\<forall>x. flag (AList.update (Key k) True m) x \<longleftrightarrow> x \<in> insert (Key k) S" using Cons.prems by auto
  from Cons.IH[OF this, of "acc @ [k]"] Cons.prems show ?case by auto
qed simp

text \<open>\<^verbatim>\<open>getUniqueKeys\<close> panics exactly when two keys have the same name.\<close>

lemma getUniqueKeys_panics_iff: "(\<exists>e. getUniqueKeys ks = Inl e) \<longleftrightarrow> \<not> distinct (map Key ks)"
  using unique_keys_loop_eq[of "[]" "{}" ks "[]"] by (simp add: getUniqueKeys_def)

subsection \<open>The joined script\<close>

lemma enveloped_not_Nil [simp]: "enveloped ks args i script \<noteq> []"
  by (simp add: enveloped_def)

lemma strings_Join_snoc: "xs \<noteq> [] \<Longrightarrow> strings_Join (xs @ [x]) sep = strings_Join xs sep @ sep @ x"
  by (induction xs sep rule: strings_Join.induct) auto

lemma strings_Join_Nil_iff: "\<forall>x \<in> set xs. x \<noteq> [] \<Longrightarrow> strings_Join xs sep = [] \<longleftrightarrow> xs = []"
  by (induction xs sep rule: strings_Join.induct) auto

definition envelopes :: "'v RedisKey list \<Rightarrow> string list \<Rightarrow> nat \<Rightarrow> RedisScript list \<Rightarrow> string list" where
  "envelopes ks args n scripts = map (\<lambda>(i, s). enveloped ks args i s) (enumerate n scripts)"

lemma envelopes_snoc: "envelopes ks args n (scripts @ [s]) = envelopes ks args n scripts @ [enveloped ks args (n + length scripts) s]"
  by (simp add: envelopes_def enumerate_append_eq)

lemma envelopes_single: "envelopes ks args n [s] = [enveloped ks args n s]"
  by (simp add: envelopes_def)

lemma envelopes_Nil_iff [simp]: "envelopes ks args n scripts = [] \<longleftrightarrow> scripts = []"
  by (cases scripts) (simp_all add: envelopes_def)

lemma join_fold:
  "fold (join_turn ks args) (enumerate 0 scripts) (\<lparr>rs_scriptText = '''', rs_args = [], rs_keys = []\<rparr>, []) =
     (\<lparr>rs_scriptText = strings_Join (envelopes ks args 0 scripts) NL,
       rs_args = concat (replicate (length scripts) args), rs_keys = concat (replicate (length scripts) (map Key ks))\<rparr>,
      map (\<lambda>i. function_name i @ ''()'') [0..<length scripts])"
proof (induction scripts rule: rev_induct)
  case Nil
  show ?case by (simp add: envelopes_def)
next
  case (snoc s scripts)
  have rep: "concat (replicate n xs) @ xs = xs @ concat (replicate n xs)" for n and xs :: "string list"
    by (induction n) auto
  have "\<forall>e \<in> set (envelopes ks args 0 scripts). e \<noteq> []" by (auto simp: envelopes_def)
  then have "strings_Join (envelopes ks args 0 scripts) NL = [] \<longleftrightarrow> scripts = []"
    by (simp add: strings_Join_Nil_iff)
  with snoc show ?case
    by (cases "scripts = []")
      (simp_all add: enumerate_append_eq join_turn_def envelopes_snoc strings_Join_snoc rep envelopes_def[of _ _ _ "[]"] envelopes_single)
qed

lemma joinRedisScripts_eq:
  "joinRedisScripts scripts ks args =
     \<lparr>rs_scriptText = strings_Join (envelopes ks args 0 scripts) NL @ NL @ ''return {'' @
        strings_Join (map (\<lambda>i. function_name i @ ''()'') [0..<length scripts]) '', '' @ ''}'' @ NL,
      rs_args = concat (replicate (length scripts) args), rs_keys = concat (replicate (length scripts) (map Key ks))\<rparr>"
  by (simp add: joinRedisScripts_def join_fold)


lemma map_of_fold_update: "map_of (fold (\<lambda>k. AList.update (Key k) k) ks m) x = None \<longleftrightarrow> x \<notin> Key ` set ks \<and> map_of m x = None"
  by (induction ks arbitrary: m) auto

lemma CompileRedisScripts_eq:
  "CompileRedisScripts scripts ks =
     (let uniqueKeys = getUniqueUsedKeys scripts ks; uniqueArgs = getScriptsUniqueArgNames scripts;
          script = joinRedisScripts scripts uniqueKeys uniqueArgs in
      Inr \<lparr>cs_script = script, cs_scriptText = rs_scriptText script, cs_keys = uniqueKeys, cs_args = uniqueArgs,
        cs_redisScript = None\<rparr>)"
proof -
  have "find (\<lambda>k. map_of (fold (\<lambda>k. AList.update (Key k) k) ks []) (Key k) = None) ks = None"
    by (auto simp: find_None_iff map_of_fold_update)
  then show ?thesis by (simp add: CompileRedisScripts_def Let_def)
qed

lemma used_keys:
  "distinct (map Key (getUniqueUsedKeys scripts ks))"
  "Key ` set (getUniqueUsedKeys scripts ks) = Key ` set ks \<inter> (\<Union>s \<in> set scripts. set (rs_keys s))"
  "k \<in> set (getUniqueUsedKeys scripts ks) \<Longrightarrow> find (\<lambda>x. Key x = Key k) ks = Some k"
proof -
  show "distinct (map Key (getUniqueUsedKeys scripts ks))"
    unfolding getUniqueUsedKeys_eq by (rule distinct_map_filter[OF distinct_first_occurrences])
  have "Key ` set (getUniqueUsedKeys scripts ks) = Key ` set (first_occurrences Key ks) \<inter> (\<Union>s \<in> set scripts. set (rs_keys s))"
    by (auto simp: getUniqueUsedKeys_eq)
  then show "Key ` set (getUniqueUsedKeys scripts ks) = Key ` set ks \<inter> (\<Union>s \<in> set scripts. set (rs_keys s))"
    by (simp add: set_first_occurrences)
  show "find (\<lambda>x. Key x = Key k) ks = Some k" if "k \<in> set (getUniqueUsedKeys scripts ks)"
    using that by (auto simp: getUniqueUsedKeys_eq intro: first_occurrences_find)
qed


text \<open>
  The check for missing keys never fails: compilation succeeds for every input, with the first of the
  supplied keys of each used name, so a key name of a script that is not supplied is left undeclared.
\<close>

lemma compile_never_rejects:
  "\<exists>c. CompileRedisScripts scripts ks = Inr c \<and> distinct (map Key (cs_keys c)) \<and> set (cs_keys c) \<subseteq> set ks \<and>
    Key ` set (cs_keys c) = Key ` set ks \<inter> (\<Union>s \<in> set scripts. set (rs_keys s))"
proof -
  let ?U = "getUniqueUsedKeys scripts ks"
  obtain c where c: "CompileRedisScripts scripts ks = Inr c" "cs_keys c = ?U"
    by (simp add: CompileRedisScripts_eq Let_def)
  have "set ?U \<subseteq> set ks" using first_occurrences_subset[of Key ks] by (auto simp: getUniqueUsedKeys_eq)
  then show ?thesis using c used_keys(1,2)[of scripts ks] by auto
qed

subsection \<open>The example of the source\<close>

text \<open>The script that \<^verbatim>\<open>LoadRedisScript\<close> compiles, and its arguments.\<close>

definition LoadRedisScript_scripts :: "RedisScript list" where
  "LoadRedisScript_scripts = [NewRedisScript [''key1'', ''key2''] [''arg1'', ''arg2'']
     (''redis.call('' @ [char_of (39 :: nat)] @ ''SET'' @ [char_of (39 :: nat)] @ '', key1, arg1); redis.call('' @ [char_of (39 :: nat)] @ ''SET'' @
      [char_of (39 :: nat)] @ '', key2, arg2); return redis.call('' @ [char_of (39 :: nat)] @ ''GET'' @ [char_of (39 :: nat)] @ '',key2);'')]"

definition LoadRedisScript_keys :: "string RedisKey list" where
  "LoadRedisScript_keys = [NewStaticKey ''key1'' ''keyName1'', NewStaticKey ''key2'' ''keyName2'']"

definition LoadRedisScript_args :: "string RedisScriptArguments" where
  "LoadRedisScript_args = AList.update ''arg2'' ''arg2_expected_value'' (AList.update ''arg1'' ''arg1_expected_value'' [])"

text \<open>
  The whole of \<^verbatim>\<open>LoadRedisScript\<close>. \<open>to_slice\<close> is the client's conversion of a reply to a list of strings, or its error; a
  panic is the left result. \<^verbatim>\<open>Run\<close> never blocks, so the last branch does not occur.
\<close>

definition LoadRedisScript :: "(string \<Rightarrow> string list \<Rightarrow> string list \<Rightarrow> (string + 'r)) \<Rightarrow> ('r \<Rightarrow> string + string list) \<Rightarrow>
    go_panic + string list" where
  "LoadRedisScript client to_slice =
     (case CompileRedisScripts LoadRedisScript_scripts LoadRedisScript_keys of
        Inl err \<Rightarrow> Inl (PanicWith err)
      | Inr compiled \<Rightarrow>
          (case Run client False LoadRedisScript_args compiled of
             Ret (Inr r) _ \<Rightarrow> (case to_slice r of Inl err \<Rightarrow> Inl (PanicWith err) | Inr result \<Rightarrow> Inr result)
           | Ret (Inl err) _ \<Rightarrow> Inl (PanicWith err)
           | Panic e \<Rightarrow> Inl e
           | Stuck _ \<Rightarrow> Inr []))"

text \<open>Printing apart, \<^verbatim>\<open>RunDebug\<close> is \<^verbatim>\<open>Run\<close>: the same result, panics and compiled script; neither ever blocks.\<close>

lemma RunDebug_is_Run:
  "map_outcome id fst (RunDebug client ctx_ended args (c, out)) = Run client ctx_ended args c"
  by (auto simp: RunDebug_def Run_def bnd_def rd_def wr_def ret_def panic_def split: sum.split)

lemma Run_not_stuck: "Run client ctx_ended args c \<noteq> Stuck d"
  by (auto simp: Run_def bnd_def rd_def wr_def ret_def panic_def split: sum.split)


lemma LoadRedisScript_compiles:
  obtains c where "CompileRedisScripts LoadRedisScript_scripts LoadRedisScript_keys = Inr c"
    "cs_args c = [''arg1'', ''arg2'']" "cs_keys c = LoadRedisScript_keys" "rs_args (cs_script c) = [''arg1'', ''arg2'']"
proof -
  have "getScriptsUniqueArgNames LoadRedisScript_scripts = [''arg1'', ''arg2'']"
    by (simp add: getScriptsUniqueArgNames_eq LoadRedisScript_scripts_def NewRedisScript_def)
  moreover have "getUniqueUsedKeys LoadRedisScript_scripts LoadRedisScript_keys = LoadRedisScript_keys"
    by (simp add: getUniqueUsedKeys_eq LoadRedisScript_scripts_def LoadRedisScript_keys_def NewRedisScript_def NewStaticKey_def Key_def)
  moreover have "length LoadRedisScript_scripts = 1" by (simp add: LoadRedisScript_scripts_def)
  moreover obtain c where c: "CompileRedisScripts LoadRedisScript_scripts LoadRedisScript_keys = Inr c"
    by (simp add: CompileRedisScripts_eq Let_def)
  ultimately have "cs_args c = [''arg1'', ''arg2'']" "cs_keys c = LoadRedisScript_keys" "rs_args (cs_script c) = [''arg1'', ''arg2'']"
    by (auto simp: CompileRedisScripts_eq Let_def joinRedisScripts_eq)
  with c show thesis by (rule that)
qed


text \<open>
  What \<^verbatim>\<open>LoadRedisScript\<close> does with a working client: one call, with both keys and both values, in the order of the
  script; an error of the client and a reply that is not a list both panic.
\<close>

lemma LoadRedisScript_calls:
  obtains script where "\<And>client to_slice. LoadRedisScript client to_slice =
    (case client script [''keyName1'', ''keyName2''] [''arg1_expected_value'', ''arg2_expected_value''] of
       Inl err \<Rightarrow> Inl (PanicWith (''Script run error: '' @ err))
     | Inr r \<Rightarrow> (case to_slice r of Inl err \<Rightarrow> Inl (PanicWith err) | Inr result \<Rightarrow> Inr result))"
proof -
  obtain c where c: "CompileRedisScripts LoadRedisScript_scripts LoadRedisScript_keys = Inr c"
      "cs_args c = [''arg1'', ''arg2'']" "cs_keys c = LoadRedisScript_keys" "rs_args (cs_script c) = [''arg1'', ''arg2'']"
    by (rule LoadRedisScript_compiles)
  have "Args c LoadRedisScript_args = Inr [''arg1_expected_value'', ''arg2_expected_value'']"
    by (simp add: Args_def c LoadRedisScript_args_def)
  moreover have "Keys c LoadRedisScript_args = [''keyName1'', ''keyName2'']"
    by (simp add: Keys_def c(3) LoadRedisScript_keys_def NewStaticKey_def Value_def)
  ultimately show thesis
    by (intro that[of "case cs_redisScript c of None \<Rightarrow> cs_scriptText c | Some script \<Rightarrow> script"])
      (auto simp: LoadRedisScript_def c(1) Run_def bnd_def rd_def wr_def ret_def panic_def split: sum.split option.split)
qed

end
