(* ===== verification/Paths.thy ===== *)
theory Paths
  imports Util
begin

section \<open>File paths and directories (util.go)\<close>

text \<open>
  The functions \<^verbatim>\<open>Clean\<close>, \<^verbatim>\<open>Dir\<close> and \<^verbatim>\<open>Join\<close> of the library \<^verbatim>\<open>path\<close>, which the logger and the directory helpers of
  \<^verbatim>\<open>util.go\<close> use, and these helpers over a file system given by its two calls. That \<open>path_Clean\<close> is a normal form
  is shown below.
\<close>

subsection \<open>The library path\<close>

fun segments :: "string \<Rightarrow> string list" where
  "segments [] = [[]]"
| "segments (c # cs) =
     (if c = CHR ''/'' then [] # segments cs
      else (c # hd (segments cs)) # tl (segments cs))"

fun join_segments :: "string list \<Rightarrow> string" where
  "join_segments [] = []"
| "join_segments [x] = x"
| "join_segments (x # y # xs) = x @ ''/'' @ join_segments (y # xs)"

text \<open>One segment on the stack of those kept so far, the last one first.\<close>

definition clean_step :: "bool \<Rightarrow> string \<Rightarrow> string list \<Rightarrow> string list" where
  "clean_step rooted seg st =
     (if seg = '''' \<or> seg = ''.'' then st
      else if seg = ''..''
      then (case st of [] \<Rightarrow> if rooted then [] else [''..''] | t # ts \<Rightarrow> if t = ''..'' then ''..'' # st else ts)
      else seg # st)"

definition clean_segments :: "bool \<Rightarrow> string list \<Rightarrow> string list" where
  "clean_segments rooted segs = rev (fold (clean_step rooted) segs [])"

definition path_Clean :: "string \<Rightarrow> string" where
  "path_Clean p =
     (if p = '''' then ''.''
      else
        let rooted = (hd p = CHR ''/''); out = join_segments (clean_segments rooted (segments p)) in
        if rooted then ''/'' @ out else if out = '''' then ''.'' else out)"

definition path_Dir :: "string \<Rightarrow> string" where
  "path_Dir p = path_Clean (rev (dropWhile (\<lambda>c. c \<noteq> CHR ''/'') (rev p)))"

definition path_Join :: "string list \<Rightarrow> string" where
  "path_Join elems =
     (let parts = filter (\<lambda>e. e \<noteq> '''') elems in
      if parts = [] then '''' else path_Clean (join_segments parts))"

subsection \<open>The helpers\<close>

datatype stat_error = ErrNotExist | ErrExist | ErrOther

record 'w file_system =
  os_Stat :: "string \<Rightarrow> 'w \<Rightarrow> stat_error option"
  os_MkdirAll :: "string \<Rightarrow> 'w \<Rightarrow> string option \<times> 'w"

definition isExist :: "'w file_system \<Rightarrow> string \<Rightarrow> 'w \<Rightarrow> bool" where
  "isExist fs name w = (os_Stat fs name w = None \<or> os_Stat fs name w = Some ErrExist)"

definition makeDirAll :: "'w file_system \<Rightarrow> string \<Rightarrow> 'w \<Rightarrow> string option \<times> 'w" where
  "makeDirAll fs logPath w =
     (let logDir = path_Dir logPath in
      if \<not> isExist fs logDir w
      then (case os_MkdirAll fs logDir w of
              (Some err, w') \<Rightarrow> (Some (''create <'' @ logDir @ ''> error: '' @ err), w')
            | (None, w') \<Rightarrow> (None, w'))
      else (None, w))"

definition isWindow :: "string \<Rightarrow> bool" where
  "isWindow GOOS = (GOOS = ''windows'')"

text \<open>Without an error the directory of the file exists; \<open>made\<close> is what \<^verbatim>\<open>os.MkdirAll\<close> documents.\<close>

lemma makeDirAll_exists:
  assumes made: "\<And>d w w'. os_MkdirAll fs d w = (None, w') \<Longrightarrow> os_Stat fs d w' = None"
    and "makeDirAll fs logPath w = (None, w')"
  shows "isExist fs (path_Dir logPath) w'"
  using assms(2) made by (auto simp: makeDirAll_def Let_def isExist_def split: if_splits prod.splits option.splits)

subsection \<open>\<open>path_Clean\<close> is a normal form\<close>

lemma segments_neq_Nil [simp]: "segments p \<noteq> []"
  by (cases p) auto

lemma segments_slash_free: "seg \<in> set (segments p) \<Longrightarrow> CHR ''/'' \<notin> set seg"
proof (induction p arbitrary: seg)
  case (Cons c cs)
  show ?case using Cons.prems Cons.IH[of seg] Cons.IH[of "hd (segments cs)"] list.set_sel(2)[of "segments cs" seg]
    by (auto split: if_splits)
qed simp

lemma segments_append: "CHR ''/'' \<notin> set x \<Longrightarrow> segments (x @ CHR ''/'' # p) = x # segments p"
  by (induction x) auto

lemma segments_plain: "CHR ''/'' \<notin> set x \<Longrightarrow> segments x = [x]"
  by (induction x) auto

lemma segments_join: "xs \<noteq> [] \<Longrightarrow> \<forall>x \<in> set xs. CHR ''/'' \<notin> set x \<Longrightarrow> segments (join_segments xs) = xs"
  by (induction xs rule: join_segments.induct) (auto simp: segments_plain segments_append)

text \<open>A stack as \<open>clean_step\<close> leaves it: no empty segment, no dot, and two dots only below names.\<close>

definition is_name :: "string \<Rightarrow> bool" where
  "is_name seg \<longleftrightarrow> seg \<noteq> '''' \<and> seg \<noteq> ''.'' \<and> seg \<noteq> ''..'' \<and> CHR ''/'' \<notin> set seg"

definition clean_stack :: "bool \<Rightarrow> string list \<Rightarrow> bool" where
  "clean_stack rooted st \<longleftrightarrow> (\<exists>names n. st = names @ replicate n ''..'' \<and> list_all is_name names \<and> (rooted \<longrightarrow> n = 0))"

lemma clean_stack_step:
  assumes "clean_stack rooted st" and "CHR ''/'' \<notin> set seg"
  shows "clean_stack rooted (clean_step rooted seg st)"
proof -
  obtain names n where st: "st = names @ replicate n ''..''" "list_all is_name names" "rooted \<longrightarrow> n = 0"
    using assms(1) by (auto simp: clean_stack_def)
  consider "seg = '''' \<or> seg = ''.''" | "seg = ''..''" | "is_name seg" using assms(2) by (auto simp: is_name_def)
  then show ?thesis
  proof cases
    case 2
    show ?thesis
    proof (cases names)
      case Nil
      then have "clean_step rooted seg st = (if rooted then [] else replicate (Suc n) ''..'')"
        using st 2 by (cases n) (auto simp: clean_step_def)
      then show ?thesis unfolding clean_stack_def by (intro exI[of _ "[]"] exI[of _ "if rooted then 0 else Suc n"]) auto
    next
      case (Cons t ts)
      then have "clean_step rooted seg st = ts @ replicate n ''..''" using st 2 by (auto simp: clean_step_def is_name_def)
      with st Cons show ?thesis unfolding clean_stack_def by auto
    qed
  next
    case 3
    then have "clean_step rooted seg st = (seg # names) @ replicate n ''..''" using st by (simp add: clean_step_def is_name_def)
    with st 3 show ?thesis unfolding clean_stack_def by (intro exI[of _ "seg # names"] exI[of _ n]) simp
  qed (use assms(1) in \<open>auto simp: clean_step_def\<close>)
qed

lemma clean_stack_fold:
  "\<forall>seg \<in> set segs. CHR ''/'' \<notin> set seg \<Longrightarrow> clean_stack rooted st \<Longrightarrow> clean_stack rooted (fold (clean_step rooted) segs st)"
  by (induction segs arbitrary: st) (auto intro: clean_stack_step)

lemma fold_names: "list_all is_name xs \<Longrightarrow> fold (clean_step rooted) xs st = rev xs @ st"
  by (induction xs arbitrary: st) (auto simp: clean_step_def is_name_def)

lemma fold_dots: "\<not> rooted \<Longrightarrow> fold (clean_step rooted) (replicate n ''..'') (replicate m ''..'') = replicate (n + m) ''..''"
proof (induction n arbitrary: m)
  case (Suc n)
  have "clean_step rooted ''..'' (replicate m ''..'') = replicate (Suc m) ''..''"
    using Suc.prems by (cases m) (auto simp: clean_step_def)
  with Suc.IH[of "Suc m"] Suc.prems show ?case by simp
qed simp

lemma clean_segments_clean:
  assumes "clean_stack rooted st"
  shows "clean_segments rooted (rev st) = rev st"
proof -
  obtain names n where st: "st = names @ replicate n ''..''" "list_all is_name names" "rooted \<longrightarrow> n = 0"
    using assms by (auto simp: clean_stack_def)
  have "fold (clean_step rooted) (replicate n ''..'') [] = replicate n ''..''"
    using st(3) fold_dots[of rooted n 0] by (cases rooted) auto
  with st(1,2) fold_names[of "rev names"] show ?thesis by (simp add: clean_segments_def)
qed

lemma clean_stack_seg:
  assumes "clean_stack rooted st" and "seg \<in> set st"
  shows "seg \<noteq> '''' \<and> CHR ''/'' \<notin> set seg"
proof -
  from assms consider "is_name seg" | "seg = ''..''" by (auto simp: clean_stack_def list_all_iff)
  then show ?thesis by cases (simp_all add: is_name_def)
qed

lemma join_segments_hd: "xs \<noteq> [] \<Longrightarrow> hd xs \<noteq> '''' \<Longrightarrow> join_segments xs \<noteq> '''' \<and> hd (join_segments xs) = hd (hd xs)"
  by (cases xs rule: join_segments.cases) auto

lemma path_Clean_idem: "path_Clean (path_Clean p) = path_Clean p"
proof (cases "p = ''''")
  case True
  show ?thesis unfolding True by code_simp
next
  case False
  define rooted where "rooted \<longleftrightarrow> hd p = CHR ''/''"
  define st where "st = fold (clean_step rooted) (segments p) []"
  have st: "clean_stack rooted st"
    unfolding st_def by (rule clean_stack_fold) (auto dest: segments_slash_free simp: clean_stack_def)
  note seg = clean_stack_seg[OF st]
  have clean: "clean_segments rooted (segments p) = rev st" by (simp add: clean_segments_def st_def)
  have again: "clean_segments rooted (segments (join_segments (rev st))) = rev st" if "st \<noteq> []"
    using segments_join[of "rev st"] seg that clean_segments_clean[OF st] by auto
  show ?thesis
  proof (cases "st = []")
    case True
    have "path_Clean ''.'' = ''.''" "path_Clean ''/'' = ''/''" by code_simp+
    moreover have "path_Clean p = (if rooted then ''/'' else ''.'')"
      using False clean True by (cases rooted) (simp_all add: path_Clean_def[of p] rooted_def[symmetric] Let_def)
    ultimately show ?thesis by simp
  next
    case nonempty: False
    let ?out = "join_segments (rev st)"
    have "last st \<in> set st" using nonempty by simp
    then have "last st \<noteq> ''''" "hd (last st) \<noteq> CHR ''/''" using seg[of "last st"] list.set_sel(1)[of "last st"] by metis+
    then have out: "?out \<noteq> ''''" "hd ?out \<noteq> CHR ''/''"
      using join_segments_hd[of "rev st"] nonempty by (simp_all add: hd_rev)
    have "path_Clean p = (if rooted then ''/'' @ ?out else ?out)"
      using False clean out by (cases rooted) (simp_all add: path_Clean_def rooted_def[symmetric] Let_def)
    moreover have "segments (''/'' @ ?out) = [] # segments ?out" by simp
    then have "clean_segments True (segments (''/'' @ ?out)) = clean_segments True (segments ?out)"
      by (simp add: clean_segments_def clean_step_def)
    ultimately show ?thesis
      using again[OF nonempty] out by (cases rooted) (auto simp: path_Clean_def Let_def)
  qed
qed

end
