(* ===== verification/Startup.thy ===== *)
theory Startup
  imports Setting Account_Threads Paths
begin

section \<open>Start-up (main.go, httpServer.go, wssServer.go, grpcServer.go, logger.go, authDB.go, redis.go)\<close>

text \<open>
  What \<^verbatim>\<open>main\<close> sets up: the logger, the configuration, the room manager, and three servers, each with the
  parameters it is started with. The listening itself is the operating system's; a failing listen is an
  argument. The connections to database and redis are modelled as functions, which \<^verbatim>\<open>main\<close> does not call.
\<close>

subsection \<open>The logger\<close>

definition LOG_NAME :: string where "LOG_NAME = ''singal''"
definition LOG_SUFFIX :: string where "LOG_SUFFIX = ''.log''"
definition LOG_SIZE :: int where "LOG_SIZE = 100"
definition LOG_BACKUP :: int where "LOG_BACKUP = 60"
definition LOG_DATE :: int where "LOG_DATE = 30"

record log_output =
  log_Filename :: string
  log_MaxSize :: int
  log_MaxBackups :: int
  log_MaxAge :: int
  log_Compress :: bool
  log_Stdout :: bool

record log_state =
  log_output :: log_output
  log_ReportCaller :: bool
  log_Level :: string
  log_TimestampFormat :: string

definition setOutPut :: "string \<Rightarrow> log_output" where
  "setOutPut log_file_path = \<lparr>log_Filename = log_file_path, log_MaxSize = LOG_SIZE, log_MaxBackups = LOG_BACKUP,
     log_MaxAge = LOG_DATE, log_Compress = False, log_Stdout = True\<rparr>"

definition InitLogger :: log_state where
  "InitLogger = \<lparr>log_output = setOutPut (path_Join [''../log/'', LOG_NAME @ LOG_SUFFIX]), log_ReportCaller = True, log_Level = ''debug'',
     log_TimestampFormat = ''2006-01-02 15:04:05.000''\<rparr>"

lemma InitLogger_file: "log_Filename (log_output InitLogger) = ''../log/singal.log''"
  by code_simp

subsection \<open>The HTTP server\<close>

datatype http_route = RouteEcho | RouteRegister | RouteVerify | RouteComplete | RouteLogin

definition NewHttpHandler_routes :: "(string \<times> http_route) list" where
  "NewHttpHandler_routes = [(''/echo'', RouteEcho), (''/register'', RouteRegister), (''/verify'', RouteVerify),
     (''/completeRegistration'', RouteComplete), (''/login'', RouteLogin)]"

definition errMaps :: "(int, string) gomap" where
  "errMaps = AList.update CODE_SERVERBUSY_PARAM ''server busy'' (AList.update CODE_REPEAT_PARAM ''repeat param''
     (AList.update CODE_FORBIDDEN_PARAM ''forbidden param'' (AList.update CODE_INVALID_PARAM ''invalid param''
     (AList.update CODE_SUCCESS ''success'' []))))"

definition EchoTest :: "int \<times> json" where
  "EchoTest = (200, JObject [(''code'', JInt 200), (''message'', JString ''echotest''), (''traceId'', JString ''mwkjt'')])"

text \<open>
  The line of the access log for a finished request; no route is given this logger. The texts of the time stamp and
  of the latency are arguments.
\<close>

record access =
  ac_ClientIP :: string
  ac_TimeStamp :: string
  ac_Method :: string
  ac_path :: string
  ac_raw :: string
  ac_Proto :: string
  ac_StatusCode :: int
  ac_Latency :: string
  ac_BodySize :: int
  ac_Host :: string

definition accessLogger :: "access \<Rightarrow> string" where
  "accessLogger a =
     (let path = (if ac_raw a \<noteq> '''' then ac_path a @ ''?'' @ ac_raw a else ac_path a) in
      ''[access] '' @ ac_ClientIP a @ '' - ['' @ ac_TimeStamp a @ ''] '' @ [CHR 0x22] @ ac_Method a @ '' '' @ path @ '' '' @
      ac_Proto a @ [CHR 0x22] @ '' '' @ itoa (ac_StatusCode a) @ '' '' @ ac_Latency a @ '' '' @ itoa (ac_BodySize a) @ '' '' @ ac_Host a)"

text \<open>A \<^verbatim>\<open>time.Duration\<close> is a 64-bit number of nanoseconds. A server has keep-alives enabled unless they are disabled.\<close>

definition time_Second :: go_int where "time_Second = 1000000000"

record HttpServer =
  hs_Addr :: string
  hs_ReadTimeout :: go_int
  hs_WriteTimeout :: go_int
  hs_KeepAlives :: bool
  hs_routes :: "(string \<times> http_route) list"

definition NewHttpServer :: "Config \<Rightarrow> HttpServer" where
  "NewHttpServer cfg =
     (let hs = \<lparr>hs_Addr = http_Addr (cfg_Http cfg), hs_ReadTimeout = http_ReadTimeOut (cfg_Http cfg) * time_Second,
        hs_WriteTimeout = http_WriteTimeOut (cfg_Http cfg) * time_Second, hs_KeepAlives = True,
        hs_routes = NewHttpHandler_routes\<rparr> in
      if http_IsKeepAlive (cfg_Http cfg) = 1 then hs\<lparr>hs_KeepAlives := True\<rparr> else hs)"

text \<open>
  \<^verbatim>\<open>Stop\<close>: it waits for an interrupt or a termination signal among those the process receives, shuts the server down, and
  waits for the end of the context. Nothing cancels the context before \<^verbatim>\<open>Stop\<close> returns, so that end is its timeout of three
  seconds. The result is the time taken since the signal and what is logged; without such a signal it does not return.
\<close>

datatype os_signal = SIGINT | SIGTERM | SIGKILL | IgnoredSignal

fun Stop :: "string option \<Rightarrow> os_signal list \<Rightarrow> (go_int \<times> string list) option" where
  "Stop shutdown_err [] = None"
| "Stop shutdown_err (sig # sigs) =
     (if sig = SIGINT \<or> sig = SIGTERM
      then Some (3 * time_Second, [''shutting down ...''] @
        (case shutdown_err of None \<Rightarrow> [] | Some err \<Rightarrow> [''shutdown err: '' @ err]) @ [''shutdown ok ...'', ''server exit''])
      else if sig = SIGKILL then None
      else Stop shutdown_err sigs)"

text \<open>A shutdown always takes the whole timeout and reports success, even after an error.\<close>

lemma Stop_waits: "Stop err sigs = Some (d, out) \<Longrightarrow> d = 3 * time_Second \<and> ''shutdown ok ...'' \<in> set out"
  by (induction err sigs rule: Stop.induct) (auto split: if_splits)

subsection \<open>Database and redis\<close>

definition InitAuthDB_dsn :: "DatabaseConfig \<Rightarrow> string" where
  "InitAuthDB_dsn db = db_Username db @ '':'' @ db_Password db @ ''@tcp('' @ db_Host db @ '':'' @ itoa (sint (db_Port db)) @ '')/'' @
     db_Name db @ ''?charset=utf8mb4&parseTime=True&loc=Local''"

datatype db_error = ConnectFailed | PoolFailed | MigrateFailed

record db_pool =
  dbp_MaxIdleConns :: nat
  dbp_MaxOpenConns :: nat
  dbp_ConnMaxLifetime :: go_int

text \<open>
  \<open>opens\<close>: \<^verbatim>\<open>gorm.Open\<close> returns a handle for the data source name; then \<^verbatim>\<open>DB\<close> and \<^verbatim>\<open>AutoMigrate\<close> succeed or not.
  The first component of the result tells whether \<^verbatim>\<open>gAuthDB\<close> is set, which a later failure does not undo.
\<close>

definition InitAuthDB :: "(string \<Rightarrow> bool) \<Rightarrow> bool \<Rightarrow> bool \<Rightarrow> Config \<Rightarrow> bool \<times> (db_error + db_pool)" where
  "InitAuthDB opens handle_ok migrate_ok cfg =
     (if \<not> opens (InitAuthDB_dsn (cfg_Database cfg)) then (False, Inl ConnectFailed)
      else if \<not> handle_ok then (True, Inl PoolFailed)
      else if \<not> migrate_ok then (True, Inl MigrateFailed)
      else (True, Inr \<lparr>dbp_MaxIdleConns = 10, dbp_MaxOpenConns = 100, dbp_ConnMaxLifetime = 3600 * time_Second\<rparr>))"

record redis_options =
  ro_Addr :: string
  ro_Password :: string
  ro_DB :: go_int

definition InitRedisClient_options :: "Config \<Rightarrow> redis_options" where
  "InitRedisClient_options cfg = \<lparr>ro_Addr = redis_Host (cfg_Redis cfg) @ '':'' @ itoa (sint (redis_Port (cfg_Redis cfg))),
     ro_Password = redis_Password (cfg_Redis cfg), ro_DB = redis_DB (cfg_Redis cfg)\<rparr>"

text \<open>
  \<open>ping\<close>: the answer of the redis server at these options within five seconds, an error or not. The client is set
  in either case, the task manager only after a successful ping.
\<close>

record redis_state =
  rd_client :: "redis_options option"
  rd_taskMgr :: bool

definition InitRedisClient :: "(redis_options \<Rightarrow> string option) \<Rightarrow> Config \<Rightarrow> redis_state \<Rightarrow> redis_state \<times> string option" where
  "InitRedisClient ping cfg r =
     (let r = r\<lparr>rd_client := Some (InitRedisClient_options cfg)\<rparr> in
      case ping (InitRedisClient_options cfg) of
        Some err \<Rightarrow> (r, Some err)
      | None \<Rightarrow> (r\<lparr>rd_taskMgr := True\<rparr>, None))"

subsection \<open>The servers and \<open>main\<close>\<close>

datatype server =
    Wss string
  | Grpc string go_int go_int
  | HttpOn HttpServer

definition StartWssServer :: server where
  "StartWssServer = Wss '':8000''"

text \<open>The gRPC server with its keepalive time and timeout; nothing is set up when the listen fails.\<close>

definition StartGrpcServer :: "bool \<Rightarrow> server option" where
  "StartGrpcServer listens = (if \<not> listens then None else Some (Grpc '':50051'' (15 * time_Second) (50 * time_Second)))"

definition StartHttpServer :: "Config \<Rightarrow> server" where
  "StartHttpServer cfg = HttpOn (NewHttpServer cfg)"

record process =
  pr_logger :: "log_state option"
  pr_config :: "Config option"
  pr_roomManager :: bool
  pr_redisClient :: bool
  pr_authDB :: bool
  pr_emailService :: "EmailService option"
  pr_servers :: "server list"

definition main :: "config_file \<Rightarrow> bool \<Rightarrow> process" where
  "main file listens =
     (let p = \<lparr>pr_logger = Some InitLogger, pr_config = None, pr_roomManager = False, pr_redisClient = False, pr_authDB = False,
        pr_emailService = None, pr_servers = []\<rparr> in
      case InitSetting file of
        Inl err \<Rightarrow> p
      | Inr cfg \<Rightarrow> p\<lparr>pr_config := Some cfg, pr_roomManager := True,
          pr_servers := [StartWssServer] @ (case StartGrpcServer listens of None \<Rightarrow> [] | Some g \<Rightarrow> [g]) @ [StartHttpServer cfg]\<rparr>)"

text \<open>The globals that the account handlers read are those the process has set up.\<close>

definition globals_of :: "process \<Rightarrow> 'w acc_state \<Rightarrow> bool" where
  "globals_of p s \<longleftrightarrow> gAuthDB s = pr_authDB p \<and> gRedisClient s = pr_redisClient p \<and> gEmailService s = pr_emailService p"

subsection \<open>Properties\<close>

text \<open>
  Without database, redis and mail service: a login and a registration that pass the checks of their input panic on
  the nil handle, the two requests with a code answer that the service is not available.
\<close>

lemma accounts_out_of_service:
  assumes "\<not> gAuthDB s" and "gEmailService s = None"
  shows "validateEmail (normalised (lr_Email l)) \<Longrightarrow> Login svc (Some l) s = Panic NilDeref"
    and "validateEmail (normalised (rr_Email r)) \<Longrightarrow> 6 \<le> length (rr_Password r) \<Longrightarrow> Register svc (Some r) s = Panic NilDeref"
    and "validateEmail (normalised (ve_Email v)) \<Longrightarrow>
      VerifyEmail svc (Some v) s = Ret (reply 500 CODE_SERVERBUSY_PARAM ''Email service not available'') s"
  using assms by (simp_all add: Login_def Register_def VerifyEmail_def Let_def normalised_def[symmetric] go_eval db_call_apply)

lemma no_success_out_of_service:
  assumes "\<not> gAuthDB s" and "gEmailService s = None" and "handler svc call s = Ret r t"
  shows "ar_Code (snd r) \<noteq> CODE_SUCCESS"
  using assms
  by (cases call) (auto simp: Login_def Register_def VerifyEmail_def CompleteRegistration_def Let_def go_eval db_call_apply
      code_defs split: option.splits if_splits)

text \<open>
  C34. What start-up yields: without a readable configuration file no server is started. With one, whatever it
  holds, the WebSocket server listens on port 8000, the gRPC server, if its listen succeeds, on port 50051, and
  the HTTP server with an empty address, no timeouts and keep-alives enabled. It serves the five routes, but neither
  database nor redis nor mail service is ever set up, and so no account request succeeds.
\<close>

theorem main_starts:
  "(\<forall>err. InitSetting file = Inl err \<longrightarrow> pr_servers (main file listens) = []) \<and>
   (\<forall>cfg. InitSetting file = Inr cfg \<longrightarrow> pr_servers (main file listens) =
      Wss '':8000'' # (if listens then [Grpc '':50051'' 15000000000 50000000000] else []) @
      [HttpOn \<lparr>hs_Addr = '''', hs_ReadTimeout = 0, hs_WriteTimeout = 0, hs_KeepAlives = True, hs_routes = NewHttpHandler_routes\<rparr>]) \<and>
   \<not> pr_authDB (main file listens) \<and> \<not> pr_redisClient (main file listens) \<and> pr_emailService (main file listens) = None \<and>
   (\<forall>s call r t. globals_of (main file listens) s \<and> handler svc call s = Ret r t \<longrightarrow> ar_Code (snd r) \<noteq> CODE_SUCCESS)"
proof -
  have http: "NewHttpServer cfg = \<lparr>hs_Addr = '''', hs_ReadTimeout = 0, hs_WriteTimeout = 0, hs_KeepAlives = True, hs_routes = NewHttpHandler_routes\<rparr>"
    if "InitSetting file = Inr cfg" for cfg
    using InitSetting_services_unset[OF that] by (simp add: NewHttpServer_def zero_Config_def)
  have unset: "\<not> pr_authDB (main file listens)" "\<not> pr_redisClient (main file listens)" "pr_emailService (main file listens) = None"
    by (simp_all add: main_def Let_def split: sum.split)
  have "ar_Code (snd r) \<noteq> CODE_SUCCESS" if "globals_of (main file listens) s" "handler svc call s = Ret r t" for s call r t
    using that unset no_success_out_of_service[of s svc call r t] by (simp add: globals_of_def)
  moreover have "pr_servers (main file listens) = []" if "InitSetting file = Inl err" for err
    using that by (simp add: main_def Let_def)
  moreover have "pr_servers (main file listens) = Wss '':8000'' # (if listens then [Grpc '':50051'' 15000000000 50000000000] else []) @
      [HttpOn \<lparr>hs_Addr = '''', hs_ReadTimeout = 0, hs_WriteTimeout = 0, hs_KeepAlives = True, hs_routes = NewHttpHandler_routes\<rparr>]"
    if "InitSetting file = Inr cfg" for cfg
    using that http[OF that] by (simp add: main_def Let_def StartWssServer_def StartGrpcServer_def StartHttpServer_def time_Second_def)
  ultimately show ?thesis using unset by blast
qed

definition demo_unset :: "demo_world acc_state" where
  "demo_unset = (demo_acc ([], []) [] [])\<lparr>gAuthDB := False, gRedisClient := False, gEmailService := None\<rparr>"

lemma demo_unset_verify:
  "handler demo_services (CallVerify (Some \<lparr>ve_Email = ''al@ex.io'', ve_Code = ''777777''\<rparr>)) demo_unset =
     Ret (reply 500 CODE_SERVERBUSY_PARAM ''Email service not available'') demo_unset"
  by (simp add: demo_unset_def accounts_out_of_service(3) demo_email)

lemma demo_unset_globals: "globals_of (main file listens) demo_unset"
  by (simp add: globals_of_def demo_unset_def main_def Let_def split: sum.split)

theorem main_starts_witness:
  "pr_servers (main (JsonFile demo_file) True) = [Wss '':8000'', Grpc '':50051'' 15000000000 50000000000,
     HttpOn \<lparr>hs_Addr = '''', hs_ReadTimeout = 0, hs_WriteTimeout = 0, hs_KeepAlives = True, hs_routes = NewHttpHandler_routes\<rparr>] \<and>
   ar_Code (snd (reply 500 CODE_SERVERBUSY_PARAM ''Email service not available'')) \<noteq> CODE_SUCCESS"
proof -
  note m = main_starts[of "JsonFile demo_file" True demo_services]
  have "ar_Code (snd (reply 500 CODE_SERVERBUSY_PARAM ''Email service not available'')) \<noteq> CODE_SUCCESS"
    using m demo_unset_verify demo_unset_globals[of "JsonFile demo_file" True] by blast
  with m demo_file_run show ?thesis by simp
qed

text \<open>A timeout in seconds is exact in nanoseconds up to 292 years; beyond, it wraps.\<close>

lemma timeout_exact:
  assumes "\<bar>sint t\<bar> \<le> 9223372036"
  shows "sint (t * time_Second) = sint t * 1000000000"
proof -
  have "sint (t * time_Second) = signed_take_bit 63 (sint t * 1000000000)"
    by (simp add: time_Second_def sint_word_ariths)
  also have "\<dots> = sint t * 1000000000"
    using assms by (intro signed_take_bit_int_eq_self) auto
  finally show ?thesis .
qed

text \<open>The key \<^verbatim>\<open>isKeepAlive\<close> has no effect: nothing disables the keep-alives.\<close>

lemma keep_alives_always: "hs_KeepAlives (NewHttpServer cfg)"
  by (simp add: NewHttpServer_def Let_def)

end
