(* ===== verification/Spec2Isabelle.thy ===== *)
theory Spec2Isabelle
  imports Util Sessions Availability Req_Queue Account_Threads Redis_Script Startup
begin

text \<open>
  Verification of the signalling server of a WebRTC conference (\<^verbatim>\<open>src/src/server\<close>, Go).

  \<^bold>\<open>The program.\<close> Clients connect by WebSocket and name a room. The server keeps the rooms and their members,
  answers the requests of a client (capabilities, transports, join, produce), tells the other members about
  peers, producers and consumers, and forwards media work to worker processes. A worker opens a gRPC stream,
  registers, sends keepalives, and answers requests that the server numbers; the server picks the least loaded
  worker for a new room. Beside this the program has accounts over HTTP (registration by a mailed code, login),
  a client for HTTP callbacks with a retry queue, and a composer of redis scripts.

  \<^bold>\<open>The theories, from the bottom.\<close>
  \<^item> \<open>Go_Prelude\<close>: Go maps as association lists, slices, the outcome of a statement (returns, panics, blocks),
    a weakest-precondition calculus and frames for it, the choices of the runtime (random draws, clock, order of
    a map iteration) as streams in the state, the locales \<open>map_interface\<close>, \<open>invariant_system\<close> and \<open>best_choice\<close>,
    and the reachable states of a transition system.
  \<^item> \<open>Util\<close> (util.go): random strings, addresses, the address of the client; the round trip of addresses.
  \<^item> \<open>Paths\<close> (util.go): the directory helpers, and the library functions on file paths that they and the logger use.
  \<^item> \<open>Rtp\<close> (config.go, reqResData.go, head of room.go): the structs, header extension ids, RTCP feedback.
  \<^item> \<open>Json\<close>, \<open>Setting\<close> (reqResData.go, config.go): decoding of JSON values into the structs, and \<open>InitSetting\<close>.
  \<^item> \<open>Router\<close> (worker.go): the tables of producers and consumers of a router.
  \<^item> \<open>Worker_Manager\<close> (workerManager.go): the table of workers with its invariant over all operations, the choice
    of a worker, the cleanup by heartbeat; counts and scores at the width of the source.
  \<^item> \<open>Proto\<close> (singal.pb.go): the messages between server and worker and their getters.
  \<^item> \<open>Rtc_Server\<close>, \<open>Rtc_Requests\<close> (grpcServer.go): \<open>Sync\<close>, \<open>sendRequest\<close> with its table of pending replies, and the
    requests for routers, transports, producers and consumers.
  \<^item> \<open>Rpc\<close>: \<open>sendRequest\<close> cut at the points where other goroutines run (after the counter, the locked insertion, the \<^verbatim>\<open>Send\<close>, the
    locked removal after a failed \<^verbatim>\<open>Send\<close>, and the wait), and all interleavings of requests, replies, timeouts and streams as the
    step relation \<open>rpc_step\<close>.
  \<^item> \<open>Room\<close>, \<open>User\<close>, \<open>Ws_Server\<close> (room.go, roomManager.go, user.go, wssServer.go): rooms, the handlers of a user's
    messages, and the connection and disconnection of users.
  \<^item> \<open>Room_Safety\<close>, \<open>Signalling\<close>, \<open>Membership\<close>: the invariant of the signalling state, its step relation \<open>sig_step\<close>
    (connections, messages, disconnections, write errors, the set-up of the gRPC server, events of workers), and the exact
    effect of a join and of a disconnection on every user. \<open>Publishing\<close>: the exact effect of \<open>handleProduce\<close> on every user, by
    frames of the statements on its way. \<open>Session_Run\<close> runs a session of two users from the empty server; it gives
    the concrete inputs of these theorems. \<open>Availability\<close>: connections while the gRPC server is not set up or no worker has
    registered. \<open>Sessions\<close>: the whole of \<open>ReadMessage\<close> for a session from its first message to
    its end, and a disconnection cut between the closing of the channel and the departure from the room.
  \<^item> \<open>Req_Queue\<close> (httpClient.go, httpReqQueue.go): \<open>sendPost\<close>, the queue, the retry loop, and the loop interleaved
    with callers (\<open>outbox_step\<close>, of which \<open>ExecuteRequest\<close> and a turn of the loop run alone are sequences), as a refinement of a
    bag of open callbacks with a log of posts (locale \<open>simulation\<close>).
  \<^item> \<open>Email_Format\<close>, \<open>Accounts\<close> (httpHandler.go, emailService.go, authDB.go): the regular expression of an address with
    a matcher by derivatives, the mailed codes, and the four handlers over redis, database and bcrypt.
  \<^item> \<open>Account_Threads\<close>: the same handlers as goroutines (datatype \<open>thread\<close>) that give way at every call of redis, the database
    or the mail server; run alone they are the handlers of \<open>Accounts\<close>, and \<open>pool_step\<close> interleaves any number of them.
  \<^item> \<open>Redis_Script\<close> (redis.go): collection of names and keys, joining, compilation, arguments, \<open>Run\<close>, \<open>RunDebug\<close>, the getters and
    the example \<open>LoadRedisScript\<close>.
  \<^item> \<open>Startup\<close> (main.go, logger.go, httpServer.go, starts of wssServer.go, grpcServer.go, authDB.go, redis.go): what \<open>main\<close>
    sets up from a configuration file: logger, settings, room manager and the three servers with their parameters, and the shutdown of the HTTP server.

  \<^bold>\<open>What is shown.\<close> Requests to a worker: under every interleaving the receive loop neither panics nor blocks, a
  request ends with a reply of its own number, pending entries do not leak, and a delivered reply is found by its
  request. Signalling, handlers running one after another: between them members of rooms are registered users with open channels,
  no closed channel is used, nothing blocks while the writers run, a request that is handled to its end has got exactly one response,
  joins, departures and new streams reach exactly the other members, the last departure deletes the room, and a session that
  does not panic ends with its user gone. A join that runs inside a disconnection panics, and so do a connection before
  the gRPC server is set up and a join without a worker; a departure blocks on a member whose writer has ended.
  Workers: the chosen worker has the maximal score, the cleanup removes exactly the silent workers, scores are exact up
  to a bound. Callbacks: none with a URL is lost, done means posted and accepted, and a round of the retry loop tries all of them.
  Accounts: an account needs a code issued for its address, a registered user can log in, a login needs a matching password and
  does not tell an unknown address from a wrong password, and requests that run
  side by side never register one address twice, though they can use one code twice. Start-up: which servers run, and
  that neither database nor redis nor mail is ever set up. Scripts: names meet their values. Addresses and encodings: the round
  trip of an IPv4 address, and that a consumer is announced with the encodings of its producer. Several theorems state a behaviour
  that the code does not intend; the manifest lists these findings.

  \<^bold>\<open>Bounds and idealisations.\<close>
  \<^item> A handler of \<open>sig_step\<close> runs to its end before the next step: the maps of rooms and users are not locked in the
    source, and a data race on them has no meaning in Go. The accesses to the pending table are interleaved (\<open>Rpc\<close>), a disconnection
    is cut in two in \<open>Sessions\<close>, and the requests for accounts are interleaved in \<open>Account_Threads\<close>.
  \<^item> A send on the unbuffered channel of a user is delivered to \<open>us_out\<close> while the writer of the user runs and blocks for good
    when the writer has ended; what becomes of a blocked goroutine later is not followed. The content of a message is the data at
    the time of the send.
  \<^item> The \<^verbatim>\<open>Send\<close> on a worker stream succeeds or fails; that it may wait for flow control is in \<open>Rpc\<close>, where a call may stay in
    \<open>sending\<close> for ever, and not in \<open>sendRequest\<close> as a function, whose theorems speak of a \<^verbatim>\<open>Send\<close> that has returned. During the wait
    of \<open>sendRequest\<close> any number of events of any worker stream is handled; users' messages are not interleaved there.
  \<^item> A method of the worker table is one step. The source takes the lock of the table twice in \<open>ChooseBestWorker\<close> and reads the
    scores outside it; the theorem on the choice is about a table that does not change in between.
  \<^item> The answers of workers (\<open>wire\<close>), of the network (\<open>rq_net\<close>), of the mail server and of the random sources are
    streams in the state over which every theorem is universal, unless it names a hypothesis on them.
  \<^item> The number of a request is a 64-bit word; the theorems on interleavings assume that it has not wrapped.
  \<^item> JSON objects have distinct keys, and keys are compared up to the case of ASCII letters. \<^verbatim>\<open>strings.ToLower\<close> and
    \<^verbatim>\<open>strings.TrimSpace\<close> are modelled on ASCII text.
  \<^item> The loop of \<open>DealTimeoutReq\<close> never ends; it is modelled by its first \<open>n\<close> turns for every \<open>n\<close>. All other functions are
    total, so no fuel is used.
  \<^item> redis, gorm, bcrypt and the binding of gin are arguments; \<open>services_ok\<close> names what the handlers rely on, and
    \<open>demo_services\<close> satisfies it. The handles of redis, database and mail are state and
    may be unset; \<open>main\<close> leaves them unset today (\<open>Startup\<close>).

  \<^bold>\<open>Not modelled.\<close> Listening on a port, the upgrade of a connection and the reads and writes of a socket are events or arguments;
  the generated reflection code of the protocol messages and the gRPC stubs is a library's. Types and constants that no code
  uses and log lines are left out, the access log and the lines of \<open>Stop\<close> excepted.
\<close>

end
